(* ===== verification/Bamep_Prelude.thy ===== *)
theory Bamep_Prelude
  imports Main "HOL-Library.Word" "HOL-Library.Finite_Map"
begin

text \<open>
  Shared vocabulary of the development.

  \<^item> Machine integers and bytes: \<open>byte\<close>, \<open>u16\<close>, \<open>u32\<close>, \<open>u64\<close> are words of their width;
    a \<open>Uuid\<close> is its 128 bits.
  \<^item> Time: a \<open>chrono\<close> instant is its count of nanoseconds since the Unix epoch, a duration a
    count of nanoseconds; \<open>timestamp_millis\<close> rounds down, as \<open>chrono\<close> does.
  \<^item> Strings are their UTF-8 bytes, so \<open>length\<close> is Rust's \<open>len\<close>.
  \<^item> \<open>Result\<close> is a sum with the error on the left; \<open>HashMap\<close> and \<open>BTreeMap\<close> are finite maps.
  \<^item> A function of the source that calls \<open>Uuid::new_v4()\<close> takes a \<open>uuid_source\<close>: its k-th
    draw is the value of the k-th call, in program order.
  \<^item> Invariants of the state machines of the components are lifted to all runs by the locale
    \<open>invariant_machine\<close>.
\<close>

section \<open>Types\<close>

type_synonym byte = "8 word"
type_synonym u16 = "16 word"
type_synonym u32 = "32 word"
type_synonym u64 = "64 word"
type_synonym uuid = "128 word"
type_synonym time = int
type_synonym duration = int
type_synonym uuid_source = "nat \<Rightarrow> uuid"

abbreviation Ok :: "'a \<Rightarrow> 'e + 'a" where
  "Ok \<equiv> Inr"

abbreviation Err :: "'e \<Rightarrow> 'e + 'a" where
  "Err \<equiv> Inl"

definition is_ok :: "'e + 'a \<Rightarrow> bool" where
  "is_ok r = (case r of Inl _ \<Rightarrow> False | Inr _ \<Rightarrow> True)"

lemma is_ok_simps [simp]: "is_ok (Inr a)" "\<not> is_ok (Inl e)"
  by (simp_all add: is_ok_def)

lemma is_ok_unit [simp]: "is_ok (r :: 'e + unit) \<longleftrightarrow> r = Inr ()"
  by (cases r) simp_all

definition nanos_per_milli :: int where
  "nanos_per_milli = 1000000"

definition timestamp_millis :: "time \<Rightarrow> int" where
  "timestamp_millis t = t div nanos_per_milli"

definition from_timestamp_millis :: "int \<Rightarrow> time" where
  "from_timestamp_millis ms = ms * nanos_per_milli"

lemma timestamp_millis_from [simp]: "timestamp_millis (from_timestamp_millis ms) = ms"
  by (simp add: timestamp_millis_def from_timestamp_millis_def nanos_per_milli_def)

lemma timestamp_millis_le_iff:
  "timestamp_millis t \<le> ms \<longleftrightarrow> t < from_timestamp_millis (ms + 1)"
  unfolding timestamp_millis_def from_timestamp_millis_def nanos_per_milli_def by auto

lemma timestamp_millis_ge_iff:
  "ms \<le> timestamp_millis t \<longleftrightarrow> from_timestamp_millis ms \<le> t"
  unfolding timestamp_millis_def from_timestamp_millis_def nanos_per_milli_def by auto

section \<open>Casts\<close>

text \<open>The casts \<open>u32 as i32\<close> and \<open>i32 as u32\<close> with which integer columns are written and read.\<close>

definition u32_as_i32 :: "u32 \<Rightarrow> int" where
  "u32_as_i32 w = sint w"

definition i32_as_u32 :: "int \<Rightarrow> u32" where
  "i32_as_u32 i = word_of_int i"

text \<open>\<open>u32::try_from\<close> on a 64-bit value.\<close>

definition u64_to_u32 :: "u64 \<Rightarrow> u32 option" where
  "u64_to_u32 n = (if uint n < 2 ^ 32 then Some (ucast n) else None)"

lemma i32_u32_roundtrip [simp]: "i32_as_u32 (u32_as_i32 w) = w"
  by (simp add: i32_as_u32_def u32_as_i32_def)

lemma u32_as_i32_inject [simp]: "u32_as_i32 v = u32_as_i32 w \<longleftrightarrow> v = w"
  by (metis i32_u32_roundtrip)

lemma u32_as_i32_bounds: "- (2 ^ 31) \<le> u32_as_i32 w" "u32_as_i32 w < 2 ^ 31"
  using sint_greater_eq [of w] sint_less [of w] by (simp_all add: u32_as_i32_def)

lemma i32_roundtrip:
  assumes "0 \<le> i" and "i < 2 ^ 31"
  shows "u32_as_i32 (i32_as_u32 i) = i" "uint (i32_as_u32 i) = i"
  using assms
  by (simp_all add: u32_as_i32_def i32_as_u32_def signed_of_int unsigned_of_int
      signed_take_bit_int_eq_self take_bit_int_eq_self)

lemma u32_as_i32_nonneg_iff: "0 \<le> u32_as_i32 w \<longleftrightarrow> uint w < 2 ^ 31"
proof
  assume "0 \<le> u32_as_i32 w"
  then have "uint (i32_as_u32 (u32_as_i32 w)) = u32_as_i32 w"
    using u32_as_i32_bounds(2) [of w] by (intro i32_roundtrip)
  then show "uint w < 2 ^ 31" using u32_as_i32_bounds(2) [of w] by simp
next
  assume "uint w < 2 ^ 31"
  then have "u32_as_i32 (i32_as_u32 (uint w)) = uint w" by (intro i32_roundtrip) simp_all
  then show "0 \<le> u32_as_i32 w" by (simp add: i32_as_u32_def)
qed

lemma u32_as_i32_nonneg: "uint w < 2 ^ 31 \<Longrightarrow> u32_as_i32 w = uint w"
  using i32_roundtrip(1) [of "uint w"] by (simp add: i32_as_u32_def)

section \<open>Big-endian encodings\<close>

primrec be_bytes :: "nat \<Rightarrow> nat \<Rightarrow> byte list" where
  "be_bytes 0 v = []"
| "be_bytes (Suc n) v = word_of_nat (v div 256 ^ n) # be_bytes n v"

fun be_value_from :: "nat \<Rightarrow> byte list \<Rightarrow> nat" where
  "be_value_from acc [] = acc"
| "be_value_from acc (b # bs) = be_value_from (acc * 256 + unat b) bs"

abbreviation be_value :: "byte list \<Rightarrow> nat" where
  "be_value \<equiv> be_value_from 0"

definition uuid_bytes :: "uuid \<Rightarrow> byte list" where
  "uuid_bytes u = be_bytes 16 (unat u)"

definition ascii_bytes :: "string \<Rightarrow> byte list" where
  "ascii_bytes s = map of_char s"

lemma length_be_bytes [simp]: "length (be_bytes n v) = n"
  by (induction n) simp_all

lemma length_uuid_bytes [simp]: "length (uuid_bytes u) = 16"
  by (simp add: uuid_bytes_def)

lemma length_ascii_bytes [simp]: "length (ascii_bytes s) = length s"
  by (simp add: ascii_bytes_def)

lemma be_value_from_acc: "be_value_from acc bs = acc * 256 ^ length bs + be_value bs"
proof (induction bs arbitrary: acc)
  case (Cons b bs)
  have "be_value_from acc (b # bs) = (acc * 256 + unat b) * 256 ^ length bs + be_value bs"
    using Cons.IH [of "acc * 256 + unat b"] by simp
  moreover have "be_value (b # bs) = unat b * 256 ^ length bs + be_value bs"
    using Cons.IH [of "unat b"] by simp
  ultimately show ?case by (simp add: algebra_simps)
qed simp

lemma be_value_be_bytes: "be_value (be_bytes n v) = v mod 256 ^ n"
proof (induction n)
  case (Suc n)
  have "be_value (be_bytes (Suc n) v) =
      unat (word_of_nat (v div 256 ^ n) :: byte) * 256 ^ n + v mod 256 ^ n"
    using be_value_from_acc [of "unat (word_of_nat (v div 256 ^ n) :: byte)" "be_bytes n v"] Suc
    by simp
  also have "\<dots> = (v div 256 ^ n mod 256) * 256 ^ n + v mod 256 ^ n"
    by (simp add: unat_of_nat)
  also have "\<dots> = v mod 256 ^ Suc n"
    by (metis mod_mult2_eq add.commute mult.commute power_Suc2)
  finally show ?case .
qed simp

lemma be_value_less: "be_value bs < 256 ^ length bs"
proof (induction bs)
  case (Cons b bs)
  have "Suc (unat b) \<le> 256"
    using unsigned_less [of b, where ?'a = nat] by simp
  then have "Suc (unat b) * 256 ^ length bs \<le> (256 :: nat) * 256 ^ length bs"
    by (rule mult_le_mono1)
  with Cons.IH have "unat b * 256 ^ length bs + be_value bs < 256 * 256 ^ length bs"
    unfolding mult_Suc by linarith
  then show ?case
    using be_value_from_acc [of "unat b" bs] by simp
qed simp

lemma be_bytes_add_high: "n \<le> m \<Longrightarrow> be_bytes n (x * 256 ^ m + v) = be_bytes n v"
proof (induction n)
  case (Suc n)
  then obtain k where "m = k + Suc n"
    by (metis le_add_diff_inverse2)
  then have "(256 :: nat) ^ m = 256 ^ (m - Suc n) * 256 * 256 ^ n"
    by (simp add: power_add)
  then have "(x * 256 ^ m + v) div 256 ^ n = v div 256 ^ n + x * 256 ^ (m - Suc n) * 256"
    by (simp add: mult.assoc [symmetric] add.commute)
  moreover have "(word_of_nat (p + y * 256) :: byte) = word_of_nat p" for p y
    by (simp add: word_of_nat_eq_0_iff del: of_nat_mult)
  ultimately show ?case
    using Suc by (simp del: of_nat_mult of_nat_add)
qed simp

lemma be_bytes_be_value: "be_bytes (length bs) (be_value bs) = bs"
proof (induction bs)
  case (Cons b bs)
  have v: "be_value (b # bs) = unat b * 256 ^ length bs + be_value bs"
    using be_value_from_acc [of "unat b" bs] by simp
  have "be_value (b # bs) div 256 ^ length bs = unat b"
    unfolding v using be_value_less [of bs] by simp
  with Cons show ?case
    using be_bytes_add_high [of "length bs" "length bs" "unat b" "be_value bs"] v by simp
qed simp

lemma be_bytes_inject:
  "v < 256 ^ n \<Longrightarrow> w < 256 ^ n \<Longrightarrow> be_bytes n v = be_bytes n w \<longleftrightarrow> v = w"
  by (metis be_value_be_bytes mod_less)

lemma uuid_bytes_inject [simp]: "uuid_bytes u = uuid_bytes v \<longleftrightarrow> u = v"
proof -
  have "unat u < 256 ^ 16" "unat v < 256 ^ 16"
    using unsigned_less [of u] unsigned_less [of v] by simp_all
  then show ?thesis
    by (simp add: uuid_bytes_def be_bytes_inject word_unat_eq_iff)
qed

lemma append_eq_append_len:
  "length xs = length ys \<Longrightarrow> xs @ us = ys @ vs \<longleftrightarrow> xs = ys \<and> us = vs"
  by simp

section \<open>Lists, options and finite maps\<close>

lemma find_SomeD: "List.find P xs = Some x \<Longrightarrow> x \<in> set xs \<and> P x"
  by (auto simp: find_Some_iff)

lemma find_None_set: "List.find P xs = None \<longleftrightarrow> (\<forall>x\<in>set xs. \<not> P x)"
  by (auto simp: find_None_iff)

definition map_len :: "('k, 'v) fmap \<Rightarrow> nat" where
  "map_len m = fcard (fmdom m)"

definition map_insert :: "'k \<Rightarrow> 'v \<Rightarrow> ('k, 'v) fmap \<Rightarrow> ('k, 'v) fmap" where
  "map_insert k v m = fmupd k v m"

definition map_remove :: "'k \<Rightarrow> ('k, 'v) fmap \<Rightarrow> ('k, 'v) fmap" where
  "map_remove k m = fmdrop k m"

definition map_retain :: "('k \<Rightarrow> 'v \<Rightarrow> bool) \<Rightarrow> ('k, 'v) fmap \<Rightarrow> ('k, 'v) fmap" where
  "map_retain P m = fmfilter (\<lambda>k. case fmlookup m k of None \<Rightarrow> False | Some v \<Rightarrow> P k v) m"

lemma u32_widen_less: "(ucast (a :: u32) :: u64) < ucast b \<longleftrightarrow> a < b"
  by transfer simp

lemma u32_widen_not_max: "ucast (i :: u32) \<noteq> (- 1 :: u64)"
proof
  assume "ucast i = (- 1 :: u64)"
  then have "unat (ucast i :: u64) = unat (- 1 :: u64)" by simp
  then show False
    using unsigned_less [of i, where 'a = nat]
    by (simp add: unsigned_ucast_eq take_bit_nat_eq_self unsigned_minus_1_eq_mask mask_eq_exp_minus_1)
qed

lemma lookup_map_insert [simp]:
  "fmlookup (map_insert k v m) x = (if x = k then Some v else fmlookup m x)"
  by (simp add: map_insert_def)

lemma lookup_map_remove [simp]:
  "fmlookup (map_remove k m) x = (if x = k then None else fmlookup m x)"
  by (simp add: map_remove_def)

lemma lookup_map_retain:
  "fmlookup (map_retain P m) k =
     (case fmlookup m k of None \<Rightarrow> None | Some v \<Rightarrow> if P k v then Some v else None)"
  by (auto simp: map_retain_def split: option.splits)

lemma map_len_empty [simp]: "map_len fmempty = 0"
  by (simp add: map_len_def)

lemma map_len_insert [simp]:
  "map_len (map_insert k v m) =
     (if fmlookup m k = None then Suc (map_len m) else map_len m)"
  by (auto simp: map_len_def map_insert_def fcard_finsert_if fmlookup_dom_iff
      dest: fmdomI)

lemma map_len_retain: "map_len (map_retain P m) \<le> map_len m"
  unfolding map_len_def map_retain_def by (auto intro: fcard_mono)

lemma map_len_remove: "map_len (map_remove k m) \<le> map_len m"
  unfolding map_len_def map_remove_def by (auto intro: fcard_mono)

section \<open>Invariants of state machines\<close>

text \<open>
  A component with state gives its initial states, its steps and its invariant; the laws are
  that the invariant holds initially and that every step keeps it. The lemmas are about
  every state a run of steps leads to.
\<close>

locale invariant_machine =
  fixes init :: "'s \<Rightarrow> bool"
    and step :: "'s \<Rightarrow> 's \<Rightarrow> bool"
    and inv :: "'s \<Rightarrow> bool"
  assumes inv_init: "init s \<Longrightarrow> inv s"
    and inv_step: "inv s \<Longrightarrow> step s t \<Longrightarrow> inv t"
begin

lemma inv_run: "step\<^sup>*\<^sup>* s t \<Longrightarrow> inv s \<Longrightarrow> inv t"
  by (induction rule: rtranclp_induct) (auto intro: inv_step)

lemma inv_reachable: "init s \<Longrightarrow> step\<^sup>*\<^sup>* s t \<Longrightarrow> inv t"
  by (blast intro: inv_run inv_init)

end

end
