(* ===== verification/Base64Url.thy ===== *)
theory Base64Url
  imports Bamep_Prelude
begin

text \<open>
  The base64url-without-padding engine (\<open>URL_SAFE_NO_PAD\<close> of the \<open>base64\<close> crate) that every
  wire value of the program goes through. The crate is not part of the repository, so an
  engine is a parameter: a record of its two operations. The locale \<open>base64url\<close> states
  what the callers rely on, and \<open>base64url_strict\<close> adds that only canonical text decodes (the
  crate rejects padding and non-zero trailing bits by default). Both are interpreted on
  \<open>rfc4648_url\<close>, an executable codec written from RFC 4648 section 5.
\<close>

section \<open>The engine as an interface\<close>

record b64_engine =
  b64_encode :: "byte list \<Rightarrow> string"
  b64_decode :: "string \<Rightarrow> byte list option"

definition is_ascii_alphanumeric :: "char \<Rightarrow> bool" where
  "is_ascii_alphanumeric c =
     (let n = of_char c :: nat in
        (48 \<le> n \<and> n \<le> 57) \<or> (65 \<le> n \<and> n \<le> 90) \<or> (97 \<le> n \<and> n \<le> 122))"

definition is_canonical_base64url_char :: "char \<Rightarrow> bool" where
  "is_canonical_base64url_char c = (is_ascii_alphanumeric c \<or> c = CHR ''-'' \<or> c = CHR ''_'')"

locale base64url =
  fixes eng :: b64_engine
  assumes decode_encode: "b64_decode eng (b64_encode eng bs) = Some bs"
    and encode_chars: "list_all is_canonical_base64url_char (b64_encode eng bs)"
    and encode_length: "length (b64_encode eng bs) = (4 * length bs + 2) div 3"
begin

lemma encode_inject: "b64_encode eng bs = b64_encode eng cs \<longleftrightarrow> bs = cs"
  by (metis decode_encode option.inject)

lemma encode_no_char:
  "\<not> is_canonical_base64url_char c \<Longrightarrow> c \<notin> set (b64_encode eng bs)"
  using encode_chars [of bs] by (auto simp: list_all_iff)

lemma encode_not_empty: "bs \<noteq> [] \<Longrightarrow> b64_encode eng bs \<noteq> []"
proof
  assume "bs \<noteq> []" "b64_encode eng bs = []"
  then have "0 < length bs" "(4 * length bs + 2) div 3 = 0"
    using encode_length [of bs] by simp_all
  then show False by linarith
qed

end

locale base64url_strict = base64url +
  assumes encode_decode: "b64_decode eng s = Some bs \<Longrightarrow> b64_encode eng bs = s"
begin

lemma decode_eq_Some_iff: "b64_decode eng s = Some bs \<longleftrightarrow> b64_encode eng bs = s"
  using encode_decode decode_encode by blast

end

section \<open>The RFC 4648 codec\<close>

definition sextet_char :: "nat \<Rightarrow> char" where
  "sextet_char n = char_of (
     if n < 26 then n + 65 else if n < 52 then n + 71 else if n < 62 then n - 4
     else if n = 62 then 45 else 95)"

definition sextet_value :: "char \<Rightarrow> nat option" where
  "sextet_value c = (let n = of_char c :: nat in
     if 65 \<le> n \<and> n \<le> 90 then Some (n - 65)
     else if 97 \<le> n \<and> n \<le> 122 then Some (n - 71)
     else if 48 \<le> n \<and> n \<le> 57 then Some (n + 4)
     else if n = 45 then Some 62
     else if n = 95 then Some 63
     else None)"

definition sextet1 :: "nat \<Rightarrow> nat" where
  "sextet1 a = a div 4"

definition sextet2 :: "nat \<Rightarrow> nat \<Rightarrow> nat" where
  "sextet2 a b = a mod 4 * 16 + b div 16"

definition sextet3 :: "nat \<Rightarrow> nat \<Rightarrow> nat" where
  "sextet3 b c = b mod 16 * 4 + c div 64"

definition sextet4 :: "nat \<Rightarrow> nat" where
  "sextet4 c = c mod 64"

definition octet1 :: "nat \<Rightarrow> nat \<Rightarrow> nat" where
  "octet1 p q = p * 4 + q div 16"

definition octet2 :: "nat \<Rightarrow> nat \<Rightarrow> nat" where
  "octet2 q r = q mod 16 * 16 + r div 4"

definition octet3 :: "nat \<Rightarrow> nat \<Rightarrow> nat" where
  "octet3 r s = r mod 4 * 64 + s"

fun rfc_sextets :: "byte list \<Rightarrow> nat list" where
  "rfc_sextets [] = []"
| "rfc_sextets [a] = [sextet1 (unat a), sextet2 (unat a) 0]"
| "rfc_sextets [a, b] = [sextet1 (unat a), sextet2 (unat a) (unat b), sextet3 (unat b) 0]"
| "rfc_sextets (a # b # c # bs) =
     [sextet1 (unat a), sextet2 (unat a) (unat b), sextet3 (unat b) (unat c), sextet4 (unat c)]
     @ rfc_sextets bs"

fun rfc_bytes :: "nat list \<Rightarrow> byte list option" where
  "rfc_bytes [] = Some []"
| "rfc_bytes [_] = None"
| "rfc_bytes [p, q] = (if q mod 16 = 0 then Some [word_of_nat (octet1 p q)] else None)"
| "rfc_bytes [p, q, r] =
     (if r mod 4 = 0 then Some [word_of_nat (octet1 p q), word_of_nat (octet2 q r)] else None)"
| "rfc_bytes (p # q # r # s # ns) =
     (case rfc_bytes ns of
        None \<Rightarrow> None
      | Some bs \<Rightarrow> Some (word_of_nat (octet1 p q) # word_of_nat (octet2 q r)
                    # word_of_nat (octet3 r s) # bs))"

definition rfc4648_encode :: "byte list \<Rightarrow> string" where
  "rfc4648_encode bs = map sextet_char (rfc_sextets bs)"

definition rfc4648_decode :: "string \<Rightarrow> byte list option" where
  "rfc4648_decode s =
     (if list_all (\<lambda>c. sextet_value c \<noteq> None) s
      then rfc_bytes (map (\<lambda>c. the (sextet_value c)) s) else None)"

definition rfc4648_url :: b64_engine where
  "rfc4648_url = \<lparr> b64_encode = rfc4648_encode, b64_decode = rfc4648_decode \<rparr>"

lemma sextet_value_char [simp]: "n < 64 \<Longrightarrow> sextet_value (sextet_char n) = Some n"
  by (auto simp: sextet_value_def sextet_char_def Let_def)

lemma sextet_char_value: "sextet_value c = Some n \<Longrightarrow> n < 64 \<and> sextet_char n = c"
  by (auto simp: sextet_value_def sextet_char_def Let_def split: if_splits)
     (metis char_of_char)+

lemma canonical_iff_sextet: "is_canonical_base64url_char c \<longleftrightarrow> sextet_value c \<noteq> None"
proof -
  have "(of_char c :: nat) = of_char (CHR ''-'') \<longleftrightarrow> c = CHR ''-''"
    "(of_char c :: nat) = of_char (CHR ''_'') \<longleftrightarrow> c = CHR ''_''"
    by (simp_all only: of_char_eq_iff)
  then show ?thesis
    by (auto simp: is_canonical_base64url_char_def is_ascii_alphanumeric_def sextet_value_def
        Let_def)
qed

lemma unat_byte_less [simp]: "unat (b :: byte) < 256"
  using unsigned_less [of b] by simp

lemma sextet_less [simp]:
  "a < 256 \<Longrightarrow> sextet1 a < 64"
  "b < 256 \<Longrightarrow> sextet2 a b < 64"
  "c < 256 \<Longrightarrow> sextet3 b c < 64"
  "sextet4 c < 64"
  unfolding sextet1_def sextet2_def sextet3_def sextet4_def by linarith+

lemma sextet_trailing [simp]: "sextet2 a 0 mod 16 = 0" "sextet3 b 0 mod 4 = 0"
  by (simp_all add: sextet2_def sextet3_def)

lemma div_less_bounds:
  fixes n :: nat
  shows "n < 256 \<Longrightarrow> n div 16 < 16" "n < 256 \<Longrightarrow> n div 64 < 4"
    "n < 64 \<Longrightarrow> n div 16 < 4" "n < 64 \<Longrightarrow> n div 4 < 16"
  by simp_all

lemmas octet_defs = sextet1_def sextet2_def sextet3_def sextet4_def
  octet1_def octet2_def octet3_def

lemma octet_sextet [simp]:
  "b < 256 \<Longrightarrow> octet1 (sextet1 a) (sextet2 a b) = a"
  "b < 256 \<Longrightarrow> c < 256 \<Longrightarrow> octet2 (sextet2 a b) (sextet3 b c) = b"
  "c < 256 \<Longrightarrow> octet3 (sextet3 b c) (sextet4 c) = c"
  using div_less_bounds [of b] div_less_bounds [of c] by (simp_all add: octet_defs)

lemma sextet_octet [simp]:
  "q < 64 \<Longrightarrow> sextet1 (octet1 p q) = p"
  "q < 64 \<Longrightarrow> r < 64 \<Longrightarrow> sextet2 (octet1 p q) (octet2 q r) = q"
  "r < 64 \<Longrightarrow> s < 64 \<Longrightarrow> sextet3 (octet2 q r) (octet3 r s) = r"
  "s < 64 \<Longrightarrow> sextet4 (octet3 r s) = s"
  using div_less_bounds [of q] div_less_bounds [of r] by (simp_all add: octet_defs)

lemma sextet_octet_trailing [simp]:
  "q < 64 \<Longrightarrow> q mod 16 = 0 \<Longrightarrow> sextet2 (octet1 p q) 0 = q"
  "r < 64 \<Longrightarrow> r mod 4 = 0 \<Longrightarrow> sextet3 (octet2 q r) 0 = r"
  using div_less_bounds [of q] div_less_bounds [of r] by (auto simp: octet_defs)

lemma octet_less [simp]:
  "p < 64 \<Longrightarrow> q < 64 \<Longrightarrow> octet1 p q < 256"
  "r < 64 \<Longrightarrow> octet2 q r < 256"
  "s < 64 \<Longrightarrow> octet3 r s < 256"
  unfolding octet1_def octet2_def octet3_def by linarith+

lemma unat_byte_of_nat [simp]: "m < 256 \<Longrightarrow> unat (word_of_nat m :: byte) = m"
  by (simp add: unat_of_nat)

lemma rfc_sextets_less: "n \<in> set (rfc_sextets bs) \<Longrightarrow> n < 64"
  by (induction bs rule: rfc_sextets.induct) auto

lemma rfc_bytes_sextets: "rfc_bytes (rfc_sextets bs) = Some bs"
  by (induction bs rule: rfc_sextets.induct) simp_all

lemma rfc_sextets_bytes:
  "rfc_bytes ns = Some bs \<Longrightarrow> \<forall>n\<in>set ns. n < 64 \<Longrightarrow> rfc_sextets bs = ns"
  by (induction ns arbitrary: bs rule: rfc_bytes.induct)
     (auto split: if_splits option.splits)

lemma length_rfc_sextets: "length (rfc_sextets bs) = (4 * length bs + 2) div 3"
  by (induction bs rule: rfc_sextets.induct) simp_all

interpretation rfc4648: base64url_strict rfc4648_url
proof
  fix bs :: "byte list" and s :: string
  have sx: "list_all (\<lambda>n. sextet_value (sextet_char n) = Some n) (rfc_sextets bs)"
    using rfc_sextets_less by (auto simp: list_all_iff)
  then have "map (\<lambda>n. the (sextet_value (sextet_char n))) (rfc_sextets bs) = rfc_sextets bs"
    by (auto simp: list_all_iff intro: map_idI)
  with sx show "b64_decode rfc4648_url (b64_encode rfc4648_url bs) = Some bs"
    by (auto simp: rfc4648_url_def rfc4648_encode_def rfc4648_decode_def rfc_bytes_sextets
        list_all_iff o_def)
  from sx show "list_all is_canonical_base64url_char (b64_encode rfc4648_url bs)"
    by (auto simp: rfc4648_url_def rfc4648_encode_def list_all_iff canonical_iff_sextet)
  show "length (b64_encode rfc4648_url bs) = (4 * length bs + 2) div 3"
    by (simp add: rfc4648_url_def rfc4648_encode_def length_rfc_sextets)
  assume "b64_decode rfc4648_url s = Some bs"
  then have ok: "list_all (\<lambda>c. sextet_value c \<noteq> None) s"
    and bytes: "rfc_bytes (map (\<lambda>c. the (sextet_value c)) s) = Some bs"
    by (auto simp: rfc4648_url_def rfc4648_decode_def split: if_splits)
  from ok have chars: "\<forall>c\<in>set s. the (sextet_value c) < 64 \<and> sextet_char (the (sextet_value c)) = c"
    using sextet_char_value by (force simp: list_all_iff)
  then have "rfc_sextets bs = map (\<lambda>c. the (sextet_value c)) s"
    using rfc_sextets_bytes [OF bytes] by auto
  with chars show "b64_encode rfc4648_url bs = s"
    by (auto simp: rfc4648_url_def rfc4648_encode_def intro: map_idI)
qed

end
