(* ===== verification/Trusted_Bootstrap.thy ===== *)
theory Trusted_Bootstrap
  imports Base64Url
begin

text \<open>
  The trusted-bootstrap contract crate (\<open>src/crates/trusted-bootstrap\<close>): the boot nonce and
  its strict wire form, the signed assertion with its fixed 133-byte transcript layout, the
  accepted site keys and the verification of an assertion. SHA-256 (\<open>sha2\<close>), strict Ed25519
  verification (\<open>ed25519_dalek\<close>) and base64 are third-party code and therefore arguments.

  The locale \<open>canonical_wire\<close> is the contract every strictly parsed wire value of the
  program meets: only the one text the value prints as parses, and it parses to that value.
\<close>

section \<open>The contract of a canonical wire value\<close>

locale canonical_wire =
  fixes to_wire :: "'v \<Rightarrow> string"
    and parse :: "string \<Rightarrow> 'e + 'v"
    and wf :: "'v \<Rightarrow> bool"
  assumes parse_to_wire: "wf v \<Longrightarrow> parse (to_wire v) = Inr v"
    and parse_sound: "parse s = Inr v \<Longrightarrow> wf v \<and> to_wire v = s"
begin

lemma parse_iff: "parse s = Inr v \<longleftrightarrow> wf v \<and> to_wire v = s"
  using parse_to_wire parse_sound by blast

lemma to_wire_inject: "wf v \<Longrightarrow> wf w \<Longrightarrow> to_wire v = to_wire w \<longleftrightarrow> v = w"
  by (metis parse_to_wire sum.inject(2))

lemma parse_unique: "parse s = Inr v \<Longrightarrow> parse t = Inr v \<Longrightarrow> s = t"
  using parse_sound by blast

end

section \<open>Boot nonce\<close>

definition BOOT_NONCE_BYTES :: nat where
  "BOOT_NONCE_BYTES = 32"

definition BOOT_NONCE_WIRE_LEN :: nat where
  "BOOT_NONCE_WIRE_LEN = 43"

datatype boot_nonce = BootNonce (nonce_bytes: "byte list")

datatype boot_nonce_error =
    NonceEntropy
  | NonceWireLength
  | NonceInvalidCharacters
  | NonceInvalidEncoding
  | NonceInvalidDecodedLength
  | NonceNonCanonical

text \<open>The array type \<open>[u8; 32]\<close>: the length that Rust's type guarantees.\<close>

definition wf_boot_nonce :: "boot_nonce \<Rightarrow> bool" where
  "wf_boot_nonce n = (length (nonce_bytes n) = BOOT_NONCE_BYTES)"

text \<open>\<open>getrandom\<close> either fills the buffer or fails.\<close>

definition nonce_generate :: "byte list option \<Rightarrow> boot_nonce_error + boot_nonce" where
  "nonce_generate entropy =
     (case entropy of None \<Rightarrow> Err NonceEntropy | Some bytes \<Rightarrow> Ok (BootNonce bytes))"

definition nonce_to_wire_value :: "b64_engine \<Rightarrow> boot_nonce \<Rightarrow> string" where
  "nonce_to_wire_value eng n = b64_encode eng (nonce_bytes n)"

definition nonce_parse_wire_value :: "b64_engine \<Rightarrow> string \<Rightarrow> boot_nonce_error + boot_nonce" where
  "nonce_parse_wire_value eng s =
     (if length s \<noteq> BOOT_NONCE_WIRE_LEN then Err NonceWireLength
      else if \<not> list_all is_canonical_base64url_char s then Err NonceInvalidCharacters
      else case b64_decode eng s of
        None \<Rightarrow> Err NonceInvalidEncoding
      | Some bytes \<Rightarrow>
          if length bytes \<noteq> BOOT_NONCE_BYTES then Err NonceInvalidDecodedLength
          else let candidate = BootNonce bytes in
            if nonce_to_wire_value eng candidate \<noteq> s then Err NonceNonCanonical
            else Ok candidate)"

section \<open>Bootstrap assertion\<close>

definition DOMAIN_DISCRIMINATOR :: "byte list" where
  "DOMAIN_DISCRIMINATOR = ascii_bytes ''bamep.trusted-bootstrap.assertion''"

definition SCHEMA_VERSION :: nat where
  "SCHEMA_VERSION = 1"

definition TRANSCRIPT_LEN :: nat where
  "TRANSCRIPT_LEN = 133"

definition SIGNATURE_LEN :: nat where
  "SIGNATURE_LEN = 64"

definition ASSERTION_LEN :: nat where
  "ASSERTION_LEN = TRANSCRIPT_LEN + SIGNATURE_LEN"

definition CARRIER_LEN :: nat where
  "CARRIER_LEN = 263"

definition NONCE_OFFSET :: nat where
  "NONCE_OFFSET = 37"

definition FINGERPRINT_OFFSET :: nat where
  "FINGERPRINT_OFFSET = 69"

definition SITE_KEY_ID_OFFSET :: nat where
  "SITE_KEY_ID_OFFSET = 101"

datatype bootstrap_assertion = BootstrapAssertion (assertion_bytes: "byte list")

datatype assertion_parse_error =
    CarrierLength
  | CarrierCharacters
  | CarrierEncoding
  | CarrierNonCanonical
  | AssertionLength
  | DomainLength
  | DomainDiscriminator
  | UnsupportedSchemaVersion

definition byte_slice :: "nat \<Rightarrow> nat \<Rightarrow> 'a list \<Rightarrow> 'a list" where
  "byte_slice from to xs = take (to - from) (drop from xs)"

definition validate_header :: "bootstrap_assertion \<Rightarrow> assertion_parse_error + unit" where
  "validate_header a = (let bytes = assertion_bytes a in
     if be_value (byte_slice 0 2 bytes) \<noteq> length DOMAIN_DISCRIMINATOR mod 2 ^ 16 then Err DomainLength
     else if byte_slice 2 35 bytes \<noteq> DOMAIN_DISCRIMINATOR then Err DomainDiscriminator
     else if be_value (byte_slice 35 37 bytes) \<noteq> SCHEMA_VERSION then Err UnsupportedSchemaVersion
     else Ok ())"

definition assertion_to_wire_value :: "b64_engine \<Rightarrow> bootstrap_assertion \<Rightarrow> string" where
  "assertion_to_wire_value eng a = b64_encode eng (assertion_bytes a)"

definition assertion_parse_wire_value ::
  "b64_engine \<Rightarrow> string \<Rightarrow> assertion_parse_error + bootstrap_assertion" where
  "assertion_parse_wire_value eng carrier =
     (if length carrier \<noteq> CARRIER_LEN then Err CarrierLength
      else if \<not> list_all is_canonical_base64url_char carrier then Err CarrierCharacters
      else case b64_decode eng carrier of
        None \<Rightarrow> Err CarrierEncoding
      | Some bytes \<Rightarrow>
          if length bytes \<noteq> ASSERTION_LEN then Err AssertionLength
          else let candidate = BootstrapAssertion bytes in
            if assertion_to_wire_value eng candidate \<noteq> carrier then Err CarrierNonCanonical
            else case validate_header candidate of
              Inl e \<Rightarrow> Err e
            | Inr _ \<Rightarrow> Ok candidate)"

definition boot_nonce_bytes :: "bootstrap_assertion \<Rightarrow> byte list" where
  "boot_nonce_bytes a = byte_slice NONCE_OFFSET (NONCE_OFFSET + 32) (assertion_bytes a)"

definition server_fingerprint_bytes :: "bootstrap_assertion \<Rightarrow> byte list" where
  "server_fingerprint_bytes a =
     byte_slice FINGERPRINT_OFFSET (FINGERPRINT_OFFSET + 32) (assertion_bytes a)"

definition site_key_id_bytes :: "bootstrap_assertion \<Rightarrow> byte list" where
  "site_key_id_bytes a =
     byte_slice SITE_KEY_ID_OFFSET (SITE_KEY_ID_OFFSET + 32) (assertion_bytes a)"

definition signature_bytes :: "bootstrap_assertion \<Rightarrow> byte list" where
  "signature_bytes a = drop TRANSCRIPT_LEN (assertion_bytes a)"

definition transcript_bytes :: "bootstrap_assertion \<Rightarrow> byte list" where
  "transcript_bytes a = take TRANSCRIPT_LEN (assertion_bytes a)"

definition from_signed_transcript :: "byte list \<Rightarrow> byte list \<Rightarrow> bootstrap_assertion" where
  "from_signed_transcript transcript signature = BootstrapAssertion (transcript @ signature)"

definition build_transcript_v1 :: "byte list \<Rightarrow> byte list \<Rightarrow> byte list \<Rightarrow> byte list" where
  "build_transcript_v1 boot_nonce server_fingerprint site_key_id =
     be_bytes 2 (length DOMAIN_DISCRIMINATOR) @ DOMAIN_DISCRIMINATOR @ be_bytes 2 SCHEMA_VERSION
     @ boot_nonce @ server_fingerprint @ site_key_id"

section \<open>Server fingerprint and site keys\<close>

type_synonym hash = "byte list \<Rightarrow> byte list"

datatype server_cert_fingerprint = ServerCertFingerprint (fingerprint_digest: "byte list")

definition from_leaf_der :: "hash \<Rightarrow> byte list \<Rightarrow> server_cert_fingerprint" where
  "from_leaf_der sha256 der = ServerCertFingerprint (sha256 der)"

definition from_sha256_digest :: "byte list \<Rightarrow> server_cert_fingerprint" where
  "from_sha256_digest digest = ServerCertFingerprint digest"

definition matches_leaf_der :: "hash \<Rightarrow> server_cert_fingerprint \<Rightarrow> byte list \<Rightarrow> bool" where
  "matches_leaf_der sha256 f der = (from_leaf_der sha256 der = f)"

datatype site_public_key = SitePublicKey (site_key_bytes: "byte list")

datatype site_public_key_error = InvalidSiteKey

text \<open>\<open>valid_key\<close> is the point validation of \<open>VerifyingKey::from_bytes\<close>.\<close>

definition site_key_from_bytes ::
  "(byte list \<Rightarrow> bool) \<Rightarrow> byte list \<Rightarrow> site_public_key_error + site_public_key" where
  "site_key_from_bytes valid_key bytes =
     (if valid_key bytes then Ok (SitePublicKey bytes) else Err InvalidSiteKey)"

datatype site_key_id = SiteKeyId (key_id_bytes: "byte list")

definition site_key_id_from_public_key :: "hash \<Rightarrow> site_public_key \<Rightarrow> site_key_id" where
  "site_key_id_from_public_key sha256 key = SiteKeyId (sha256 (site_key_bytes key))"

datatype accepted_site_keys = AcceptedSiteKeys "(site_key_id \<times> site_public_key) list"

definition accepted_new :: "hash \<Rightarrow> site_public_key list \<Rightarrow> accepted_site_keys" where
  "accepted_new sha256 keys =
     AcceptedSiteKeys (map (\<lambda>key. (site_key_id_from_public_key sha256 key, key)) keys)"

fun accepted_find :: "accepted_site_keys \<Rightarrow> site_key_id \<Rightarrow> site_public_key option" where
  "accepted_find (AcceptedSiteKeys keys) i = map_option snd (List.find (\<lambda>(c, _). c = i) keys)"

section \<open>Verification\<close>

datatype verification_error = UnknownSiteKey | SiteKeyIdMismatch | SignatureInvalid

record verified_bootstrap_assertion =
  verified_boot_nonce :: boot_nonce
  expected_server_fingerprint :: server_cert_fingerprint
  verified_site_key_id :: site_key_id

text \<open>\<open>verify_strict key message signature\<close> is the Ed25519 verification of \<open>ed25519_dalek\<close>.\<close>

type_synonym ed25519 = "byte list \<Rightarrow> byte list \<Rightarrow> byte list \<Rightarrow> bool"

definition verify ::
  "hash \<Rightarrow> ed25519 \<Rightarrow> bootstrap_assertion \<Rightarrow> accepted_site_keys
    \<Rightarrow> verification_error + verified_bootstrap_assertion" where
  "verify sha256 verify_strict a accepted =
     (let claimed = SiteKeyId (site_key_id_bytes a) in
      case accepted_find accepted claimed of
        None \<Rightarrow> Err UnknownSiteKey
      | Some key \<Rightarrow>
          if site_key_id_from_public_key sha256 key \<noteq> claimed then Err SiteKeyIdMismatch
          else if \<not> verify_strict (site_key_bytes key) (transcript_bytes a) (signature_bytes a)
          then Err SignatureInvalid
          else Ok \<lparr> verified_boot_nonce = BootNonce (boot_nonce_bytes a),
                    expected_server_fingerprint = from_sha256_digest (server_fingerprint_bytes a),
                    verified_site_key_id = claimed \<rparr>)"

section \<open>Wire canonicity\<close>

lemmas nonce_defs = nonce_parse_wire_value_def nonce_to_wire_value_def wf_boot_nonce_def
  BOOT_NONCE_BYTES_def BOOT_NONCE_WIRE_LEN_def

lemmas assertion_len_defs = ASSERTION_LEN_def TRANSCRIPT_LEN_def SIGNATURE_LEN_def CARRIER_LEN_def

lemmas assertion_offset_defs = NONCE_OFFSET_def FINGERPRINT_OFFSET_def SITE_KEY_ID_OFFSET_def

definition wf_assertion :: "bootstrap_assertion \<Rightarrow> bool" where
  "wf_assertion a = (length (assertion_bytes a) = ASSERTION_LEN \<and> validate_header a = Ok ())"

context base64url
begin

lemma nonce_canonical:
  "canonical_wire (nonce_to_wire_value eng) (nonce_parse_wire_value eng) wf_boot_nonce"
proof
  fix n assume "wf_boot_nonce n"
  then show "nonce_parse_wire_value eng (nonce_to_wire_value eng n) = Inr n"
    by (cases n) (simp add: nonce_defs decode_encode encode_chars encode_length)
next
  fix s n assume "nonce_parse_wire_value eng s = Inr n"
  then show "wf_boot_nonce n \<and> nonce_to_wire_value eng n = s"
    by (auto simp: nonce_defs Let_def split: if_splits option.splits)
qed

lemma assertion_canonical:
  "canonical_wire (assertion_to_wire_value eng) (assertion_parse_wire_value eng) wf_assertion"
proof
  fix a assume "wf_assertion a"
  then show "assertion_parse_wire_value eng (assertion_to_wire_value eng a) = Inr a"
    by (cases a) (simp add: wf_assertion_def assertion_parse_wire_value_def
        assertion_to_wire_value_def assertion_len_defs decode_encode encode_chars encode_length)
next
  fix s a assume "assertion_parse_wire_value eng s = Inr a"
  then show "wf_assertion a \<and> assertion_to_wire_value eng a = s"
    by (auto simp: wf_assertion_def assertion_parse_wire_value_def Let_def
        split: if_splits option.splits sum.splits)
qed

end

sublocale base64url \<subseteq> nonce_wire: canonical_wire
    "nonce_to_wire_value eng" "nonce_parse_wire_value eng" wf_boot_nonce
  by (rule nonce_canonical)

sublocale base64url \<subseteq> assertion_wire: canonical_wire
    "assertion_to_wire_value eng" "assertion_parse_wire_value eng" wf_assertion
  by (rule assertion_canonical)

section \<open>Layout of the transcript\<close>

lemma length_domain [simp]: "length DOMAIN_DISCRIMINATOR = 33"
  by (simp add: DOMAIN_DISCRIMINATOR_def)

lemma length_transcript:
  "length n = 32 \<Longrightarrow> length f = 32 \<Longrightarrow> length k = 32 \<Longrightarrow>
   length (build_transcript_v1 n f k) = TRANSCRIPT_LEN"
  by (simp add: build_transcript_v1_def TRANSCRIPT_LEN_def)

lemma transcript_fields:
  assumes "length n = 32" "length f = 32" "length k = 32" "length sig = 64"
    and "a = from_signed_transcript (build_transcript_v1 n f k) sig"
  shows "wf_assertion a" "boot_nonce_bytes a = n" "server_fingerprint_bytes a = f"
    "site_key_id_bytes a = k" "signature_bytes a = sig"
    "transcript_bytes a = build_transcript_v1 n f k"
  using assms
  by (simp_all add: wf_assertion_def from_signed_transcript_def build_transcript_v1_def byte_slice_def
      validate_header_def assertion_len_defs boot_nonce_bytes_def server_fingerprint_bytes_def
      site_key_id_bytes_def signature_bytes_def transcript_bytes_def assertion_offset_defs
      be_value_be_bytes SCHEMA_VERSION_def)

lemma byte_slice_append:
  assumes "i \<le> j" "j \<le> k"
  shows "byte_slice i j xs @ byte_slice j k xs = byte_slice i k xs"
proof -
  have "byte_slice i k xs = take ((j - i) + (k - j)) (drop i xs)"
    using assms by (simp add: byte_slice_def)
  also have "\<dots> = byte_slice i j xs @ byte_slice j k xs"
    unfolding take_add using assms by (simp add: byte_slice_def)
  finally show ?thesis by simp
qed

lemma length_byte_slice: "j \<le> length xs \<Longrightarrow> length (byte_slice i j xs) = j - i"
  by (simp add: byte_slice_def)

lemma header_bytes:
  assumes "wf_assertion a"
  shows "byte_slice 0 37 (assertion_bytes a) =
    be_bytes 2 (length DOMAIN_DISCRIMINATOR) @ DOMAIN_DISCRIMINATOR @ be_bytes 2 SCHEMA_VERSION"
proof -
  let ?b = "assertion_bytes a"
  have len: "length ?b = 197"
    using assms by (simp add: wf_assertion_def assertion_len_defs)
  have "be_value (byte_slice 0 2 ?b) = 33" "byte_slice 2 35 ?b = DOMAIN_DISCRIMINATOR"
    "be_value (byte_slice 35 37 ?b) = SCHEMA_VERSION"
    using assms by (auto simp: wf_assertion_def validate_header_def Let_def split: if_splits)
  moreover from len have "be_bytes 2 (be_value (byte_slice 0 2 ?b)) = byte_slice 0 2 ?b"
    "be_bytes 2 (be_value (byte_slice 35 37 ?b)) = byte_slice 35 37 ?b"
    using be_bytes_be_value [of "byte_slice 0 2 ?b"] be_bytes_be_value [of "byte_slice 35 37 ?b"]
    by (simp_all add: length_byte_slice)
  moreover have "byte_slice 0 37 ?b = byte_slice 0 2 ?b @ byte_slice 2 35 ?b @ byte_slice 35 37 ?b"
    by (simp add: byte_slice_append)
  ultimately show ?thesis by simp
qed

lemma assertion_layout:
  assumes "wf_assertion a"
  shows "transcript_bytes a =
      build_transcript_v1 (boot_nonce_bytes a) (server_fingerprint_bytes a) (site_key_id_bytes a)"
    and "a = from_signed_transcript (transcript_bytes a) (signature_bytes a)"
    and "length (boot_nonce_bytes a) = 32" "length (server_fingerprint_bytes a) = 32"
      "length (site_key_id_bytes a) = 32" "length (signature_bytes a) = 64"
proof -
  let ?b = "assertion_bytes a"
  have len: "length ?b = 197"
    using assms by (simp add: wf_assertion_def assertion_len_defs)
  have "transcript_bytes a = byte_slice 0 133 ?b"
    by (simp add: transcript_bytes_def byte_slice_def TRANSCRIPT_LEN_def)
  also have "\<dots> = byte_slice 0 37 ?b @ byte_slice 37 69 ?b @ byte_slice 69 101 ?b @ byte_slice 101 133 ?b"
    by (simp add: byte_slice_append)
  finally show "transcript_bytes a =
      build_transcript_v1 (boot_nonce_bytes a) (server_fingerprint_bytes a) (site_key_id_bytes a)"
    using header_bytes [OF assms]
    by (simp add: build_transcript_v1_def boot_nonce_bytes_def server_fingerprint_bytes_def
        site_key_id_bytes_def assertion_offset_defs)
  show "a = from_signed_transcript (transcript_bytes a) (signature_bytes a)"
    by (cases a) (simp add: from_signed_transcript_def transcript_bytes_def signature_bytes_def)
  show "length (boot_nonce_bytes a) = 32" "length (server_fingerprint_bytes a) = 32"
    "length (site_key_id_bytes a) = 32" "length (signature_bytes a) = 64"
    using len by (simp_all add: boot_nonce_bytes_def server_fingerprint_bytes_def
        site_key_id_bytes_def signature_bytes_def assertion_offset_defs assertion_len_defs
        length_byte_slice)
qed

section \<open>Verification against accepted keys\<close>

lemma accepted_find_new:
  "accepted_find (accepted_new sha256 keys) i = Some key \<Longrightarrow>
   key \<in> set keys \<and> site_key_id_from_public_key sha256 key = i"
  by (auto simp: accepted_new_def dest!: find_SomeD)

lemma accepted_find_new_None:
  "accepted_find (accepted_new sha256 keys) i = None \<longleftrightarrow>
   (\<forall>key\<in>set keys. site_key_id_from_public_key sha256 key \<noteq> i)"
  by (auto simp: accepted_new_def find_None_set)

text \<open>
  C35. A carrier text is accepted as a bootstrap assertion exactly when it is the canonical
  encoding of a version 1 transcript of some 32-byte nonce, fingerprint and key identifier
  followed by a 64-byte signature, and the accessors of the parsed assertion return those
  four fields.
\<close>

theorem assertion_parse_iff_signed_transcript:
  assumes "base64url eng"
  shows "assertion_parse_wire_value eng s = Ok a \<longleftrightarrow>
    (\<exists>n f k sig. length n = 32 \<and> length f = 32 \<and> length k = 32 \<and> length sig = 64 \<and>
       a = from_signed_transcript (build_transcript_v1 n f k) sig \<and>
       s = assertion_to_wire_value eng a \<and>
       boot_nonce_bytes a = n \<and> server_fingerprint_bytes a = f \<and> site_key_id_bytes a = k \<and>
       signature_bytes a = sig)"
  unfolding canonical_wire.parse_iff [OF base64url.assertion_canonical [OF assms]]
  using assertion_layout [of a] transcript_fields(1) by metis

theorem assertion_parse_iff_signed_transcript_witness:
  "\<exists>n f k sig. length n = 32 \<and> length f = 32 \<and> length k = 32 \<and> length sig = 64 \<and>
     site_key_id_bytes (from_signed_transcript (build_transcript_v1 n f k) sig) = k"
proof -
  let ?n = "replicate 32 (1 :: byte)"
  let ?a = "from_signed_transcript (build_transcript_v1 ?n ?n ?n) (replicate 64 2)"
  have "assertion_parse_wire_value rfc4648_url (assertion_to_wire_value rfc4648_url ?a) = Ok ?a"
    by (rule rfc4648.assertion_wire.parse_to_wire) (rule transcript_fields(1), simp_all)
  then show ?thesis
    unfolding assertion_parse_iff_signed_transcript [OF rfc4648.base64url_axioms] by metis
qed

text \<open>
  C34. Verification of a parsed carrier against a configured set of site keys succeeds exactly
  when the key that the assertion's identifier selects is one of the configured keys, its
  SHA-256 is that identifier, and the signature is valid under it over the version 1
  transcript of precisely the nonce, fingerprint and key identifier that verification reports.
  So nothing reported lies outside the signed bytes, an assertion never adds a key to the
  trusted ones, and the defensive identifier comparison never fails.
\<close>

theorem verify_iff_signed_by_accepted_key:
  assumes "base64url eng" "assertion_parse_wire_value eng s = Ok a"
  shows "(verify sha256 verify_strict a (accepted_new sha256 keys) = Ok v \<longleftrightarrow>
      (\<exists>key\<in>set keys.
         accepted_find (accepted_new sha256 keys) (verified_site_key_id v) = Some key \<and>
         sha256 (site_key_bytes key) = key_id_bytes (verified_site_key_id v) \<and>
         verify_strict (site_key_bytes key)
           (build_transcript_v1 (nonce_bytes (verified_boot_nonce v))
             (fingerprint_digest (expected_server_fingerprint v))
             (key_id_bytes (verified_site_key_id v)))
           (signature_bytes a) \<and>
         v = \<lparr> verified_boot_nonce = BootNonce (boot_nonce_bytes a),
               expected_server_fingerprint = ServerCertFingerprint (server_fingerprint_bytes a),
               verified_site_key_id = SiteKeyId (site_key_id_bytes a) \<rparr>)) \<and>
    verify sha256 verify_strict a (accepted_new sha256 keys) \<noteq> Err SiteKeyIdMismatch"
      (is "(_ \<longleftrightarrow> ?signed) \<and> ?no_mismatch")
proof -
  have "wf_assertion a"
    using canonical_wire.parse_sound [OF base64url.assertion_canonical] assms by blast
  note layout = assertion_layout(1) [OF this]
  have ?no_mismatch
    by (auto simp: verify_def Let_def dest: accepted_find_new split: option.splits if_splits)
  moreover have "verify sha256 verify_strict a (accepted_new sha256 keys) = Ok v \<longleftrightarrow> ?signed"
    using layout
    by (auto simp: verify_def Let_def site_key_id_from_public_key_def from_sha256_digest_def
        dest: accepted_find_new split: option.splits if_splits)
  ultimately show ?thesis by blast
qed

theorem verify_iff_signed_by_accepted_key_witness:
  "\<exists>eng s a keys v. base64url eng \<and> assertion_parse_wire_value eng s = Ok a \<and>
     (let sha256 = (\<lambda>bs. take 32 (map (\<lambda>b. b + 1) bs));
          verify_strict = (\<lambda>key m sig. length m = 133 \<and> key @ key = sig) in
      verify sha256 verify_strict a (accepted_new sha256 keys) = Ok v \<and>
      key_id_bytes (verified_site_key_id v) = replicate 32 8 \<and>
      nonce_bytes (verified_boot_nonce v) = replicate 32 1)"
proof -
  let ?a = "from_signed_transcript
    (build_transcript_v1 (replicate 32 1) (replicate 32 2) (replicate 32 8)) (replicate 64 7)"
  let ?sha256 = "\<lambda>bs :: byte list. take 32 (map (\<lambda>b. b + 1) bs)"
  let ?strict = "\<lambda>key m sig. length (m :: byte list) = 133 \<and> (key :: byte list) @ key = sig"
  let ?keys = "[SitePublicKey (replicate 32 7)]"
  let ?v = "\<lparr> verified_boot_nonce = BootNonce (replicate 32 1),
              expected_server_fingerprint = ServerCertFingerprint (replicate 32 2),
              verified_site_key_id = SiteKeyId (replicate 32 8) \<rparr>"
  note fields = transcript_fields [of "replicate 32 1" "replicate 32 2" "replicate 32 8"
      "replicate 64 7" ?a, simplified]
  have parse: "assertion_parse_wire_value rfc4648_url (assertion_to_wire_value rfc4648_url ?a) = Ok ?a"
    by (rule rfc4648.assertion_wire.parse_to_wire) (rule fields(1))
  have "verify ?sha256 ?strict ?a (accepted_new ?sha256 ?keys) = Ok ?v"
    unfolding verify_iff_signed_by_accepted_key [OF rfc4648.base64url_axioms parse, THEN conjunct1]
    by (simp add: fields accepted_new_def site_key_id_from_public_key_def length_transcript
        TRANSCRIPT_LEN_def flip: replicate_add)
  then show ?thesis
    using parse rfc4648.base64url_axioms by (force simp: Let_def)
qed

end
