(* ===== verification/Presented_Credential.thy ===== *)
theory Presented_Credential
  imports Trusted_Bootstrap
begin

text \<open>
  The credential a client presents (\<open>src/crates/domain/src/presented_credential.rs\<close>): its
  kind, non-secret lookup identifier and secret, and the one dotted wire string they travel
  in. Random bytes drawn from the operating system are arguments of the functions that draw
  them. The wire form is shown to be canonical for every strict base64url engine.
\<close>

section \<open>Splitting a string at a separator\<close>

text \<open>Rust's \<open>str::split(char)\<close>: always at least one piece, empty pieces included.\<close>

fun split_on :: "'a \<Rightarrow> 'a list \<Rightarrow> 'a list list" where
  "split_on c [] = [[]]"
| "split_on c (x # xs) =
     (if x = c then [] # split_on c xs
      else case split_on c xs of [] \<Rightarrow> [[x]] | p # ps \<Rightarrow> (x # p) # ps)"

fun join_with :: "'a \<Rightarrow> 'a list list \<Rightarrow> 'a list" where
  "join_with c [] = []"
| "join_with c [p] = p"
| "join_with c (p # ps) = p @ c # join_with c ps"

lemma split_on_not_Nil [simp]: "split_on c xs \<noteq> []"
  by (induction xs) (auto split: list.splits)

lemma split_on_no_sep [simp]: "c \<notin> set p \<Longrightarrow> split_on c p = [p]"
  by (induction p) auto

lemma split_on_append [simp]: "c \<notin> set p \<Longrightarrow> split_on c (p @ c # q) = p # split_on c q"
  by (induction p) auto

lemma join_split: "join_with c (split_on c xs) = xs"
proof (induction xs)
  case (Cons x xs)
  then show ?case
    by (cases "split_on c xs"; cases "tl (split_on c xs)") auto
qed simp

section \<open>Data\<close>

definition WIRE_VERSION :: string where
  "WIRE_VERSION = ''v1''"

definition LOOKUP_ID_LEN :: nat where
  "LOOKUP_ID_LEN = 16"

definition SECRET_LEN :: nat where
  "SECRET_LEN = 32"

datatype credential_kind = Enrollment | Runtime

fun kind_to_wire :: "credential_kind \<Rightarrow> string" where
  "kind_to_wire Enrollment = ''enrollment''"
| "kind_to_wire Runtime = ''runtime''"

definition kind_from_wire :: "string \<Rightarrow> credential_kind option" where
  "kind_from_wire s =
     (if s = ''enrollment'' then Some Enrollment
      else if s = ''runtime'' then Some Runtime
      else None)"

datatype credential_lookup_id = CredentialLookupId (lookup_bytes: "byte list")

datatype presented_credential_secret = PresentedCredentialSecret (expose_secret_bytes: "byte list")

datatype presented_credential_parse_error =
    UnsupportedVersion
  | UnknownKind
  | MalformedStructure
  | InvalidLookupIdEncoding
  | InvalidLookupIdLength
  | InvalidSecretEncoding
  | InvalidSecretLength

record presented_credential =
  cred_kind :: credential_kind
  cred_lookup_id :: credential_lookup_id
  cred_secret :: presented_credential_secret

section \<open>Operations\<close>

definition lookup_id_to_wire :: "b64_engine \<Rightarrow> credential_lookup_id \<Rightarrow> string" where
  "lookup_id_to_wire eng i = b64_encode eng (lookup_bytes i)"

definition lookup_id_from_wire ::
  "b64_engine \<Rightarrow> string \<Rightarrow> presented_credential_parse_error + credential_lookup_id" where
  "lookup_id_from_wire eng s =
     (case b64_decode eng s of
        None \<Rightarrow> Err InvalidLookupIdEncoding
      | Some bytes \<Rightarrow> if length bytes \<noteq> LOOKUP_ID_LEN then Err InvalidLookupIdLength
                      else Ok (CredentialLookupId bytes))"

definition secret_to_wire :: "b64_engine \<Rightarrow> presented_credential_secret \<Rightarrow> string" where
  "secret_to_wire eng i = b64_encode eng (expose_secret_bytes i)"

definition secret_from_wire ::
  "b64_engine \<Rightarrow> string \<Rightarrow> presented_credential_parse_error + presented_credential_secret" where
  "secret_from_wire eng s =
     (case b64_decode eng s of
        None \<Rightarrow> Err InvalidSecretEncoding
      | Some bytes \<Rightarrow> if length bytes \<noteq> SECRET_LEN then Err InvalidSecretLength
                      else Ok (PresentedCredentialSecret bytes))"

definition credential_generate ::
  "credential_kind \<Rightarrow> byte list \<Rightarrow> byte list \<Rightarrow> presented_credential" where
  "credential_generate kind random_id random_secret =
     \<lparr> cred_kind = kind, cred_lookup_id = CredentialLookupId random_id,
       cred_secret = PresentedCredentialSecret random_secret \<rparr>"

definition credential_to_wire_value :: "b64_engine \<Rightarrow> presented_credential \<Rightarrow> string" where
  "credential_to_wire_value eng c =
     WIRE_VERSION @ ''.'' @ kind_to_wire (cred_kind c) @ ''.''
     @ lookup_id_to_wire eng (cred_lookup_id c) @ ''.'' @ secret_to_wire eng (cred_secret c)"

definition credential_parse ::
  "b64_engine \<Rightarrow> string \<Rightarrow> presented_credential_parse_error + presented_credential" where
  "credential_parse eng wire =
     (case split_on CHR ''.'' wire of
        [version, kind, lookup_id, secret] \<Rightarrow>
          if version = [] \<or> kind = [] \<or> lookup_id = [] \<or> secret = [] then Err MalformedStructure
          else if version \<noteq> WIRE_VERSION then Err UnsupportedVersion
          else (case kind_from_wire kind of
            None \<Rightarrow> Err UnknownKind
          | Some k \<Rightarrow>
              (case lookup_id_from_wire eng lookup_id of
                 Inl e \<Rightarrow> Err e
               | Inr i \<Rightarrow>
                   (case secret_from_wire eng secret of
                      Inl e \<Rightarrow> Err e
                    | Inr s \<Rightarrow> Ok \<lparr> cred_kind = k, cred_lookup_id = i, cred_secret = s \<rparr>)))
      | _ \<Rightarrow> Err MalformedStructure)"

section \<open>The wire form is canonical\<close>

definition wf_credential :: "presented_credential \<Rightarrow> bool" where
  "wf_credential c = (length (lookup_bytes (cred_lookup_id c)) = LOOKUP_ID_LEN \<and>
     length (expose_secret_bytes (cred_secret c)) = SECRET_LEN)"

lemmas credential_wire_defs = credential_to_wire_value_def lookup_id_to_wire_def secret_to_wire_def
  lookup_id_from_wire_def secret_from_wire_def wf_credential_def LOOKUP_ID_LEN_def SECRET_LEN_def

lemma kind_wire [simp]:
  "kind_from_wire (kind_to_wire k) = Some k" "kind_to_wire k \<noteq> []"
  "CHR ''.'' \<notin> set (kind_to_wire k)"
  by (cases k; simp add: kind_from_wire_def)+

lemma kind_from_wire_SomeD: "kind_from_wire s = Some k \<Longrightarrow> s = kind_to_wire k"
  by (auto simp: kind_from_wire_def split: if_splits)

lemma dot_not_canonical [simp]: "\<not> is_canonical_base64url_char CHR ''.''"
  by (simp add: is_canonical_base64url_char_def is_ascii_alphanumeric_def)

lemma version_no_dot [simp]: "CHR ''.'' \<notin> set WIRE_VERSION" "WIRE_VERSION \<noteq> []"
  by (simp_all add: WIRE_VERSION_def)

context base64url
begin

lemma credential_split:
  "split_on CHR ''.'' (credential_to_wire_value eng c) =
     [WIRE_VERSION, kind_to_wire (cred_kind c), b64_encode eng (lookup_bytes (cred_lookup_id c)),
      b64_encode eng (expose_secret_bytes (cred_secret c))]"
  by (simp add: credential_wire_defs encode_no_char)

lemma credential_parse_to_wire:
  assumes "wf_credential c"
  shows "credential_parse eng (credential_to_wire_value eng c) = Inr c"
proof -
  have "b64_encode eng (lookup_bytes (cred_lookup_id c)) \<noteq> []"
    "b64_encode eng (expose_secret_bytes (cred_secret c)) \<noteq> []"
    using assms by (auto intro!: encode_not_empty simp: credential_wire_defs)
  then show ?thesis
    using assms
    by (cases "cred_lookup_id c"; cases "cred_secret c")
       (simp add: credential_parse_def credential_split lookup_id_from_wire_def
         secret_from_wire_def decode_encode wf_credential_def)
qed

end

lemma credential_parse_OkD:
  assumes "credential_parse eng s = Inr c"
  obtains i k where
    "s = WIRE_VERSION @ ''.'' @ kind_to_wire (cred_kind c) @ ''.'' @ i @ ''.'' @ k"
    "b64_decode eng i = Some (lookup_bytes (cred_lookup_id c))"
    "b64_decode eng k = Some (expose_secret_bytes (cred_secret c))"
    "wf_credential c"
proof -
  from assms obtain kd i k where split: "split_on CHR ''.'' s = [WIRE_VERSION, kd, i, k]"
    and kind: "kind_from_wire kd = Some (cred_kind c)"
    and id: "lookup_id_from_wire eng i = Inr (cred_lookup_id c)"
    and secret: "secret_from_wire eng k = Inr (cred_secret c)"
    by (auto simp: credential_parse_def split: list.splits if_splits option.splits sum.splits)
  have "s = join_with CHR ''.'' [WIRE_VERSION, kd, i, k]"
    by (metis split join_split)
  with kind_from_wire_SomeD [OF kind]
  have "s = WIRE_VERSION @ ''.'' @ kind_to_wire (cred_kind c) @ ''.'' @ i @ ''.'' @ k"
    by simp
  moreover from id secret have "b64_decode eng i = Some (lookup_bytes (cred_lookup_id c))"
    "b64_decode eng k = Some (expose_secret_bytes (cred_secret c))" "wf_credential c"
    by (cases "cred_lookup_id c"; cases "cred_secret c";
        auto simp: lookup_id_from_wire_def secret_from_wire_def wf_credential_def
        split: option.splits if_splits)+
  ultimately show thesis by (rule that)
qed

context base64url_strict
begin

lemma credential_canonical:
  "canonical_wire (credential_to_wire_value eng) (credential_parse eng) wf_credential"
proof
  fix s c assume "credential_parse eng s = Inr c"
  then show "wf_credential c \<and> credential_to_wire_value eng c = s"
    by (rule credential_parse_OkD)
      (simp add: credential_to_wire_value_def lookup_id_to_wire_def secret_to_wire_def
        decode_eq_Some_iff)
qed (rule credential_parse_to_wire)

end

sublocale base64url_strict \<subseteq> credential_wire: canonical_wire
    "credential_to_wire_value eng" "credential_parse eng" wf_credential
  by (rule credential_canonical)

text \<open>
  C36. A text parses as a presented credential exactly when it is the printed form of that
  credential and the credential has a 16-byte lookup identifier and a 32-byte secret; so
  printing and parsing are inverse, and no two texts present the same credential.
\<close>

theorem credential_parse_iff_to_wire:
  assumes "base64url_strict eng"
  shows "credential_parse eng s = Ok c \<longleftrightarrow>
    wf_credential c \<and> credential_to_wire_value eng c = s"
  by (rule canonical_wire.parse_iff [OF base64url_strict.credential_canonical [OF assms]])

theorem credential_parse_iff_to_wire_witness:
  "\<exists>c. cred_kind c = Runtime \<and>
     credential_parse rfc4648_url (credential_to_wire_value rfc4648_url c) = Ok c"
proof
  let ?c = "credential_generate Runtime (replicate 16 0) (replicate 32 255)"
  show "cred_kind ?c = Runtime \<and>
     credential_parse rfc4648_url (credential_to_wire_value rfc4648_url ?c) = Ok ?c"
    unfolding credential_parse_iff_to_wire [OF rfc4648.base64url_strict_axioms]
    by (simp add: credential_generate_def wf_credential_def LOOKUP_ID_LEN_def SECRET_LEN_def)
qed

end
