(* ===== verification/Credential_Chain.thy ===== *)
theory Credential_Chain
  imports Presented_Credential
begin

text \<open>
  The durable credential chain of an Endpoint (\<open>src/crates/domain/src/credential.rs\<close>): salted
  hashes, credential slots with their validity, establishment, authentication with rotation,
  and revocation. SHA-256 and the random salt are arguments. Runs of the chain are sequences
  of authentications and revocations; the lemmas are about which credentials can still
  authenticate after any such run.
\<close>

section \<open>Data\<close>

record credential_hash =
  hash_salt :: "byte list"
  hash_digest :: "byte list"

record credential_slot =
  slot_lookup_id :: credential_lookup_id
  slot_hash :: credential_hash
  slot_issued_at :: time
  slot_expires_at :: time

record credential_chain =
  chain_predecessor :: credential_slot
  chain_successor :: "credential_slot option"
  chain_revoked :: bool

datatype credential_dimension =
    NoActiveCredential
  | CredentialActive
  | CredentialExpired
  | CredentialRevoked

datatype auth_outcome =
    Accepted (accepted_chain: credential_chain) (accepted_expires_at: time)
      (accepted_confirmed: bool)
  | Rejected

definition DEFAULT_CREDENTIAL_TTL :: duration where
  "DEFAULT_CREDENTIAL_TTL = 60 * 60 * 1000 * nanos_per_milli"

section \<open>Operations\<close>

definition of_bytes_with_salt :: "hash \<Rightarrow> byte list \<Rightarrow> byte list \<Rightarrow> credential_hash" where
  "of_bytes_with_salt sha256 secret_bytes salt =
     \<lparr> hash_salt = salt, hash_digest = sha256 (salt @ secret_bytes) \<rparr>"

text \<open>\<open>of_bytes\<close> draws the salt from the operating system: it is the argument \<open>salt\<close>.\<close>

definition of_bytes :: "hash \<Rightarrow> byte list \<Rightarrow> byte list \<Rightarrow> credential_hash" where
  "of_bytes sha256 secret_bytes salt = of_bytes_with_salt sha256 secret_bytes salt"

definition verify_bytes :: "hash \<Rightarrow> credential_hash \<Rightarrow> byte list \<Rightarrow> bool" where
  "verify_bytes sha256 h secret_bytes =
     (hash_digest (of_bytes_with_salt sha256 secret_bytes (hash_salt h)) = hash_digest h)"

definition hash_to_bytes :: "credential_hash \<Rightarrow> byte list" where
  "hash_to_bytes h = hash_salt h @ hash_digest h"

definition hash_from_bytes :: "byte list \<Rightarrow> credential_hash" where
  "hash_from_bytes bytes = \<lparr> hash_salt = take 16 bytes, hash_digest = drop 16 bytes \<rparr>"

definition slot_valid_at :: "credential_slot \<Rightarrow> time \<Rightarrow> bool" where
  "slot_valid_at s now = (now < slot_expires_at s)"

definition slot_matches ::
  "hash \<Rightarrow> credential_slot \<Rightarrow> presented_credential \<Rightarrow> time \<Rightarrow> bool" where
  "slot_matches sha256 s presented now =
     (slot_valid_at s now \<and> slot_lookup_id s = cred_lookup_id presented \<and>
      verify_bytes sha256 (slot_hash s) (expose_secret_bytes (cred_secret presented)))"

definition mint_successor_slot ::
  "hash \<Rightarrow> byte list \<Rightarrow> presented_credential \<Rightarrow> time \<Rightarrow> duration \<Rightarrow> credential_slot option" where
  "mint_successor_slot sha256 salt fresh_successor now ttl =
     (if cred_kind fresh_successor \<noteq> Runtime then None
      else Some \<lparr> slot_lookup_id = cred_lookup_id fresh_successor,
                  slot_hash = of_bytes sha256 (expose_secret_bytes (cred_secret fresh_successor)) salt,
                  slot_issued_at = now,
                  slot_expires_at = now + ttl \<rparr>)"

definition establish ::
  "hash \<Rightarrow> byte list \<Rightarrow> credential_lookup_id \<Rightarrow> credential_hash \<Rightarrow> presented_credential
    \<Rightarrow> time \<Rightarrow> duration \<Rightarrow> credential_chain option" where
  "establish sha256 salt predecessor_lookup_id predecessor_verifier fresh_successor now ttl =
     (case mint_successor_slot sha256 salt fresh_successor now ttl of
        None \<Rightarrow> None
      | Some successor \<Rightarrow>
          Some \<lparr> chain_predecessor =
                   \<lparr> slot_lookup_id = predecessor_lookup_id, slot_hash = predecessor_verifier,
                     slot_issued_at = now, slot_expires_at = now + ttl \<rparr>,
                 chain_successor = Some successor,
                 chain_revoked = False \<rparr>)"

definition chain_dimension :: "credential_chain \<Rightarrow> time \<Rightarrow> credential_dimension" where
  "chain_dimension c now =
     (if chain_revoked c then CredentialRevoked
      else if slot_valid_at (chain_predecessor c) now
           \<or> (case chain_successor c of None \<Rightarrow> False | Some s \<Rightarrow> slot_valid_at s now)
      then CredentialActive
      else CredentialExpired)"

definition revoke :: "credential_chain \<Rightarrow> credential_chain" where
  "revoke c = \<lparr> chain_predecessor = chain_predecessor c, chain_successor = chain_successor c,
                chain_revoked = True \<rparr>"

definition chain_from_parts ::
  "credential_slot \<Rightarrow> credential_slot option \<Rightarrow> bool \<Rightarrow> credential_chain" where
  "chain_from_parts predecessor successor revoked =
     \<lparr> chain_predecessor = predecessor, chain_successor = successor, chain_revoked = revoked \<rparr>"

definition authenticate ::
  "hash \<Rightarrow> byte list \<Rightarrow> credential_chain \<Rightarrow> presented_credential \<Rightarrow> presented_credential
    \<Rightarrow> time \<Rightarrow> duration \<Rightarrow> auth_outcome" where
  "authenticate sha256 salt chain presented fresh_successor now ttl =
     (if chain_revoked chain then Rejected
      else if slot_matches sha256 (chain_predecessor chain) presented now then
        (case mint_successor_slot sha256 salt fresh_successor now ttl of
           None \<Rightarrow> Rejected
         | Some issued_slot \<Rightarrow>
             Accepted \<lparr> chain_predecessor = chain_predecessor chain,
                        chain_successor = Some issued_slot, chain_revoked = False \<rparr>
               (slot_expires_at issued_slot) False)
      else (case chain_successor chain of
          None \<Rightarrow> Rejected
        | Some successor \<Rightarrow>
            if slot_matches sha256 successor presented now then
              (case mint_successor_slot sha256 salt fresh_successor now ttl of
                 None \<Rightarrow> Rejected
               | Some issued_slot \<Rightarrow>
                   Accepted \<lparr> chain_predecessor = successor,
                              chain_successor = Some issued_slot, chain_revoked = False \<rparr>
                     (slot_expires_at issued_slot) True)
            else Rejected))"

text \<open>
  A run of the chain: each attempt to authenticate persists the accepted chain (a rejected
  attempt leaves it as it is), and the chain may be revoked at any point.
\<close>

datatype chain_op =
    OpAuthenticate (op_salt: "byte list") (op_presented: presented_credential)
      (op_fresh: presented_credential) (op_now: time) (op_ttl: duration)
  | OpRevoke

fun chain_apply :: "hash \<Rightarrow> credential_chain \<Rightarrow> chain_op \<Rightarrow> credential_chain" where
  "chain_apply sha256 c (OpAuthenticate salt p f now ttl) =
     (case authenticate sha256 salt c p f now ttl of Accepted c' _ _ \<Rightarrow> c' | Rejected \<Rightarrow> c)"
| "chain_apply sha256 c OpRevoke = revoke c"

abbreviation chain_run :: "hash \<Rightarrow> credential_chain \<Rightarrow> chain_op list \<Rightarrow> credential_chain" where
  "chain_run sha256 \<equiv> foldl (chain_apply sha256)"

section \<open>Hashes\<close>

lemma verify_of_bytes [simp]: "verify_bytes sha256 (of_bytes sha256 secret salt) secret"
  by (simp add: verify_bytes_def of_bytes_def of_bytes_with_salt_def)

lemma hash_bytes_roundtrip: "length (hash_salt h) = 16 \<Longrightarrow> hash_from_bytes (hash_to_bytes h) = h"
  by (simp add: hash_from_bytes_def hash_to_bytes_def)

section \<open>Which credentials a chain accepts\<close>

definition chain_slots :: "credential_chain \<Rightarrow> credential_slot list" where
  "chain_slots c = chain_predecessor c #
     (case chain_successor c of None \<Rightarrow> [] | Some s \<Rightarrow> [s])"

definition chain_ids :: "credential_chain \<Rightarrow> credential_lookup_id set" where
  "chain_ids c = slot_lookup_id ` set (chain_slots c)"

fun fresh_ids :: "chain_op list \<Rightarrow> credential_lookup_id set" where
  "fresh_ids [] = {}"
| "fresh_ids (OpAuthenticate _ _ f _ _ # ops) = insert (cred_lookup_id f) (fresh_ids ops)"
| "fresh_ids (OpRevoke # ops) = fresh_ids ops"

lemmas authenticate_defs = authenticate_def mint_successor_slot_def chain_slots_def

lemma authenticate_accepted_iff:
  "authenticate sha256 salt c p f now ttl \<noteq> Rejected \<longleftrightarrow>
     \<not> chain_revoked c \<and> cred_kind f = Runtime \<and>
     (\<exists>s\<in>set (chain_slots c). slot_matches sha256 s p now)"
  by (auto simp: authenticate_defs split: option.splits)

lemma authenticate_AcceptedD:
  assumes "authenticate sha256 salt c p f now ttl = Accepted c' e b"
  shows "slot_matches sha256 (chain_predecessor c') p now"
    and "chain_successor c' = mint_successor_slot sha256 salt f now ttl"
    and "e = now + ttl" "\<not> chain_revoked c'" "cred_kind f = Runtime"
  using assms
  by (auto simp: authenticate_def mint_successor_slot_def split: if_splits option.splits)

lemma authenticate_chain_ids:
  "authenticate sha256 salt c p f now ttl = Accepted c' e b \<Longrightarrow>
   chain_ids c' = {cred_lookup_id p, cred_lookup_id f}"
  by (auto simp: authenticate_defs chain_ids_def slot_matches_def split: if_splits option.splits)

lemma chain_apply_ids: "chain_ids (chain_apply sha256 c x) \<subseteq> chain_ids c \<union> fresh_ids [x]"
proof (cases x)
  case (OpAuthenticate salt p f now ttl)
  then show ?thesis
  proof (cases "authenticate sha256 salt c p f now ttl")
    case (Accepted c' e b)
    moreover from Accepted have "cred_lookup_id p \<in> chain_ids c"
      using authenticate_accepted_iff [of sha256 salt c p f now ttl]
      by (force simp: chain_ids_def slot_matches_def)
    ultimately show ?thesis
      using OpAuthenticate authenticate_chain_ids [OF Accepted] by auto
  qed (auto simp: OpAuthenticate)
qed (auto simp: revoke_def chain_ids_def chain_slots_def)

lemma chain_run_ids: "chain_ids (chain_run sha256 c ops) \<subseteq> chain_ids c \<union> fresh_ids ops"
proof (induction ops arbitrary: c)
  case (Cons x ops)
  have "fresh_ids (x # ops) = fresh_ids [x] \<union> fresh_ids ops"
    by (cases x) auto
  then show ?case
    using Cons [of "chain_apply sha256 c x"] chain_apply_ids [of sha256 c x] by auto
qed simp

lemma chain_run_revoked: "chain_revoked c \<Longrightarrow> chain_revoked (chain_run sha256 c ops)"
proof (induction ops arbitrary: c)
  case (Cons x ops)
  then have "chain_revoked (chain_apply sha256 c x)"
    by (cases x) (auto simp: authenticate_def revoke_def)
  with Cons.IH show ?case by simp
qed simp

text \<open>
  C32. An accepted authentication shrinks the credentials that can ever authenticate again to
  the presented one and the freshly issued one: after it, and after any later run of the chain
  that does not itself issue that identifier, a credential with any other lookup identifier
  is rejected. This covers both the predecessor retired by a confirmation and the successor
  superseded by a repeated predecessor.
\<close>

theorem retired_credential_never_authenticates:
  assumes "authenticate sha256 salt chain p f now ttl = Accepted chain' expires confirmed"
    and "cred_lookup_id q \<noteq> cred_lookup_id p" "cred_lookup_id q \<noteq> cred_lookup_id f"
    and "cred_lookup_id q \<notin> fresh_ids ops"
  shows "authenticate sha256 salt' (chain_run sha256 chain' ops) q f' now' ttl' = Rejected"
proof (rule ccontr)
  assume "\<not> ?thesis"
  then have "cred_lookup_id q \<in> chain_ids (chain_run sha256 chain' ops)"
    unfolding authenticate_accepted_iff by (force simp: chain_ids_def slot_matches_def)
  then show False
    using chain_run_ids [of sha256 chain' ops] authenticate_chain_ids [OF assms(1)] assms(2-) by auto
qed

definition sample_hash :: hash where
  "sample_hash bs = take 32 (map (\<lambda>b. 3 * b + 1) bs @ replicate 32 0)"

definition sample_credential :: "credential_kind \<Rightarrow> byte \<Rightarrow> presented_credential" where
  "sample_credential kind b = credential_generate kind (replicate 16 b) (replicate 32 b)"

definition sample_chain :: credential_chain where
  "sample_chain = the (establish sample_hash (replicate 16 9)
     (cred_lookup_id (sample_credential Enrollment 1))
     (of_bytes sample_hash (replicate 32 1) (replicate 16 5))
     (sample_credential Runtime 2) 100 50)"

lemmas sample_chain_defs = sample_chain_def sample_credential_def credential_generate_def
  establish_def mint_successor_slot_def authenticate_def slot_matches_def slot_valid_at_def

theorem retired_credential_never_authenticates_witness:
  "authenticate sample_hash [] (chain_run sample_hash
      (accepted_chain (authenticate sample_hash [] sample_chain (sample_credential Runtime 2)
         (sample_credential Runtime 3) 110 50))
      [OpAuthenticate [] (sample_credential Runtime 3) (sample_credential Runtime 4) 120 50])
    (sample_credential Enrollment 1) (sample_credential Runtime 5) 130 50 = Rejected"
proof -
  have "\<exists>c' e b. authenticate sample_hash [] sample_chain (sample_credential Runtime 2)
      (sample_credential Runtime 3) 110 50 = Accepted c' e b"
    by (auto simp: sample_chain_defs)
  then obtain c' e b where acc: "authenticate sample_hash [] sample_chain
      (sample_credential Runtime 2) (sample_credential Runtime 3) 110 50 = Accepted c' e b"
    by blast
  show ?thesis
    unfolding acc auth_outcome.sel
    by (rule retired_credential_never_authenticates [OF acc])
       (simp_all add: sample_credential_def credential_generate_def)
qed

text \<open>
  C33. The two credentials an accepted authentication leaves usable really are usable: until it
  expires, the freshly issued successor authenticates next and is then confirmed, with the
  issued slot as the new predecessor; and the presented credential itself authenticates again
  for as long as its own slot was valid, so a lost response never locks the Endpoint out.
\<close>

theorem rotation_never_locks_out:
  assumes "authenticate sha256 salt chain p f now ttl = Accepted chain' expires confirmed"
    and "cred_lookup_id f \<noteq> cred_lookup_id p" "cred_kind f' = Runtime"
  shows "expires = now + ttl \<and>
    (now' < expires \<longrightarrow> (\<exists>chain''. authenticate sha256 salt' chain' f f' now' ttl' =
        Accepted chain'' (now' + ttl') True \<and>
        Some (chain_predecessor chain'') = chain_successor chain')) \<and>
    (now' < slot_expires_at (chain_predecessor chain') \<longrightarrow>
      (\<exists>chain''. authenticate sha256 salt' chain' p f' now' ttl' =
         Accepted chain'' (now' + ttl') False \<and>
         chain_predecessor chain'' = chain_predecessor chain'))"
proof -
  note acc = authenticate_AcceptedD [OF assms(1)]
  let ?issued = "the (mint_successor_slot sha256 salt f now ttl)"
  have issued: "chain_successor chain' = Some ?issued" "slot_lookup_id ?issued = cred_lookup_id f"
    and "slot_expires_at ?issued = expires"
    and "verify_bytes sha256 (slot_hash ?issued) (expose_secret_bytes (cred_secret f))"
    using acc by (simp_all add: mint_successor_slot_def)
  then have new: "now' < expires \<Longrightarrow> slot_matches sha256 ?issued f now'"
    by (simp add: slot_matches_def slot_valid_at_def)
  have "\<not> slot_matches sha256 (chain_predecessor chain') f now'"
    using acc(1) assms(2) by (simp add: slot_matches_def)
  with new issued acc(4) assms(3) have "now' < expires \<longrightarrow>
      (\<exists>chain''. authenticate sha256 salt' chain' f f' now' ttl' =
        Accepted chain'' (now' + ttl') True \<and>
        Some (chain_predecessor chain'') = chain_successor chain')"
    by (simp add: authenticate_def mint_successor_slot_def)
  moreover have "now' < slot_expires_at (chain_predecessor chain') \<Longrightarrow>
      slot_matches sha256 (chain_predecessor chain') p now'"
    using acc(1) by (simp add: slot_matches_def slot_valid_at_def)
  with acc(4) assms(3) have "now' < slot_expires_at (chain_predecessor chain') \<longrightarrow>
      (\<exists>chain''. authenticate sha256 salt' chain' p f' now' ttl' =
         Accepted chain'' (now' + ttl') False \<and>
         chain_predecessor chain'' = chain_predecessor chain')"
    by (simp add: authenticate_def mint_successor_slot_def)
  ultimately show ?thesis
    using acc(3) by blast
qed

theorem rotation_never_locks_out_witness:
  "\<exists>chain' chain''. authenticate sample_hash [] sample_chain (sample_credential Runtime 2)
       (sample_credential Runtime 3) 110 50 = Accepted chain' 160 True \<and>
     authenticate sample_hash [] chain' (sample_credential Runtime 3)
       (sample_credential Runtime 4) 120 50 = Accepted chain'' 170 True"
proof -
  have "\<exists>c'. authenticate sample_hash [] sample_chain (sample_credential Runtime 2)
      (sample_credential Runtime 3) 110 50 = Accepted c' 160 True"
    by (auto simp: sample_chain_defs)
  then obtain c' where acc: "authenticate sample_hash [] sample_chain
      (sample_credential Runtime 2) (sample_credential Runtime 3) 110 50 = Accepted c' 160 True"
    by blast
  have "cred_lookup_id (sample_credential Runtime 3) \<noteq> cred_lookup_id (sample_credential Runtime 2)"
    "cred_kind (sample_credential Runtime 4) = Runtime"
    by (simp_all add: sample_credential_def credential_generate_def)
  from rotation_never_locks_out [OF acc this, of 120 "[]" 50] acc show ?thesis
    by auto
qed

text \<open>
  Revocation is final: whatever happened before it and whatever is presented after it, a
  chain that was revoked rejects every credential and reports the revoked dimension.
\<close>

theorem revoked_chain_rejects_everything:
  "authenticate sha256 salt (chain_run sha256 chain (ops @ OpRevoke # ops')) p f now ttl = Rejected \<and>
   chain_dimension (chain_run sha256 chain (ops @ OpRevoke # ops')) now = CredentialRevoked"
proof -
  have "chain_revoked (chain_run sha256 (revoke (chain_run sha256 chain ops)) ops')"
    by (rule chain_run_revoked) (simp add: revoke_def)
  then show ?thesis
    by (simp add: authenticate_def chain_dimension_def)
qed

end
