(* ===== verification/Endpoint_Model.thy ===== *)
theory Endpoint_Model
  imports Credential_Chain
begin

text \<open>
  The data of the domain crate that every aggregate shares: identifiers, the Endpoint
  aggregate with its four independent dimensions (identity, credential chain, hardware
  confidence, current boot), domain events, audit records and inventory revisions
  (\<open>endpoint.rs\<close>, \<open>identity.rs\<close>, \<open>hardware_confidence.rs\<close>, \<open>current_boot.rs\<close>,
  \<open>target_fingerprint.rs\<close>, \<open>events.rs\<close>, \<open>inventory.rs\<close> under \<open>src/crates/domain/src\<close>).
\<close>

section \<open>Identifiers\<close>

datatype endpoint_id = EndpointId uuid

datatype job_id = JobId uuid

datatype job_step_id = JobStepId uuid

datatype attempt_id = AttemptId uuid

datatype action_id = ActionId uuid

datatype inventory_revision_id = InventoryRevisionId uuid

datatype target_fingerprint = TargetFingerprint string

section \<open>Endpoint dimensions\<close>

datatype identity_state = PendingEnrollment | Enrolled | Retired

record invalid_identity_transition =
  invalid_from :: identity_state
  invalid_attempted :: string

definition identity_approve :: "identity_state \<Rightarrow> invalid_identity_transition + identity_state" where
  "identity_approve state =
     (case state of
        PendingEnrollment \<Rightarrow> Ok Enrolled
      | other \<Rightarrow> Err \<lparr> invalid_from = other, invalid_attempted = ''Enrolled'' \<rparr>)"

definition identity_retire :: "identity_state \<Rightarrow> invalid_identity_transition + identity_state" where
  "identity_retire state =
     (case state of
        Enrolled \<Rightarrow> Ok Retired
      | other \<Rightarrow> Err \<lparr> invalid_from = other, invalid_attempted = ''Retired'' \<rparr>)"

datatype hardware_confidence = Consistent | LoweredConfidence | Conflict

definition hardware_confidence_initial :: hardware_confidence where
  "hardware_confidence_initial = Consistent"

datatype trusted_bootstrap_state = NotEstablished | Established

record current_boot =
  cb_boot_context_id :: credential_lookup_id
  cb_boot_nonce :: boot_nonce
  cb_trusted_bootstrap :: trusted_bootstrap_state

definition current_boot_new ::
  "credential_lookup_id \<Rightarrow> boot_nonce \<Rightarrow> trusted_bootstrap_state \<Rightarrow> current_boot" where
  "current_boot_new boot_context_id nonce trusted =
     \<lparr> cb_boot_context_id = boot_context_id, cb_boot_nonce = nonce,
       cb_trusted_bootstrap = trusted \<rparr>"

definition current_boot_establish :: "current_boot \<Rightarrow> current_boot" where
  "current_boot_establish b = b\<lparr> cb_trusted_bootstrap := Established \<rparr>"

record endpoint_aggregate =
  ep_id :: endpoint_id
  ep_inventory_signal :: string
  ep_identity :: identity_state
  ep_credential :: credential_chain
  ep_hardware_confidence :: hardware_confidence
  ep_current_boot :: "current_boot option"
  ep_created_at :: time
  ep_updated_at :: time

section \<open>Events and audit records\<close>

datatype actor = Operator (actor_label: string) | System

datatype domain_event =
    EndpointPendingEnrollment (event_id: uuid) (event_endpoint_id: endpoint_id) (occurred_at: time)
  | EndpointEnrolled (event_id: uuid) (event_endpoint_id: endpoint_id) (occurred_at: time)
  | OperatorDecisionRecorded (event_id: uuid) (event_endpoint_id: endpoint_id)
      (event_decision: string) (event_actor: actor) (occurred_at: time)
  | InventoryRevisionRecorded (event_id: uuid) (event_endpoint_id: endpoint_id)
      (event_inventory_revision_id: inventory_revision_id) (occurred_at: time)
  | JobStarted (event_id: uuid) (started_job: job_id) (event_endpoint_id: endpoint_id)
      (occurred_at: time)
  | JobSucceeded (event_id: uuid) (succeeded_job: job_id) (event_endpoint_id: endpoint_id)
      (occurred_at: time)
  | JobFailed (event_id: uuid) (failed_job: job_id) (event_endpoint_id: endpoint_id)
      (occurred_at: time)
  | JobStepFailed (event_id: uuid) (failed_step_job: job_id) (failed_step: job_step_id)
      (event_endpoint_id: endpoint_id) (occurred_at: time)
  | JobCancelled (event_id: uuid) (cancelled_job: job_id) (event_endpoint_id: endpoint_id)
      (occurred_at: time)
  | AttemptIndeterminate (event_id: uuid) (indeterminate_job: job_id)
      (indeterminate_step: job_step_id) (indeterminate_attempt: attempt_id)
      (event_endpoint_id: endpoint_id) (occurred_at: time)

fun event_job_id :: "domain_event \<Rightarrow> job_id option" where
  "event_job_id (JobStarted _ j _ _) = Some j"
| "event_job_id (JobSucceeded _ j _ _) = Some j"
| "event_job_id (JobFailed _ j _ _) = Some j"
| "event_job_id (JobStepFailed _ j _ _ _) = Some j"
| "event_job_id (JobCancelled _ j _ _) = Some j"
| "event_job_id (AttemptIndeterminate _ j _ _ _ _) = Some j"
| "event_job_id _ = None"

fun event_job_step_id :: "domain_event \<Rightarrow> job_step_id option" where
  "event_job_step_id (JobStepFailed _ _ s _ _) = Some s"
| "event_job_step_id (AttemptIndeterminate _ _ s _ _ _) = Some s"
| "event_job_step_id _ = None"

fun event_attempt_id :: "domain_event \<Rightarrow> attempt_id option" where
  "event_attempt_id (AttemptIndeterminate _ _ _ a _ _) = Some a"
| "event_attempt_id _ = None"

fun event_type :: "domain_event \<Rightarrow> string" where
  "event_type (EndpointPendingEnrollment _ _ _) = ''EndpointPendingEnrollment''"
| "event_type (EndpointEnrolled _ _ _) = ''EndpointEnrolled''"
| "event_type (OperatorDecisionRecorded _ _ _ _ _) = ''OperatorDecisionRecorded''"
| "event_type (InventoryRevisionRecorded _ _ _ _) = ''InventoryRevisionRecorded''"
| "event_type (JobStarted _ _ _ _) = ''JobStarted''"
| "event_type (JobSucceeded _ _ _ _) = ''JobSucceeded''"
| "event_type (JobFailed _ _ _ _) = ''JobFailed''"
| "event_type (JobStepFailed _ _ _ _ _) = ''JobStepFailed''"
| "event_type (JobCancelled _ _ _ _) = ''JobCancelled''"
| "event_type (AttemptIndeterminate _ _ _ _ _ _) = ''AttemptIndeterminate''"

record audit_record =
  audit_id :: uuid
  audit_endpoint_id :: endpoint_id
  audit_actor :: actor
  audit_occurred_at :: time
  audit_detail :: string
  audit_job_id :: "job_id option"
  audit_job_step_id :: "job_step_id option"
  audit_attempt_id :: "attempt_id option"
  audit_action_id :: "action_id option"

record transition_outcome =
  out_endpoint :: endpoint_aggregate
  out_events :: "domain_event list"
  out_audit :: "audit_record option"

section \<open>Inventory revisions\<close>

text \<open>
  A snapshot is an opaque JSON object compared only for equality; \<open>'j\<close> is the JSON map type of
  \<open>serde_json\<close>.
\<close>

datatype 'j inventory_snapshot = InventorySnapshot 'j

record 'j inventory_revision =
  inv_id :: inventory_revision_id
  inv_endpoint_id :: endpoint_id
  inv_snapshot :: "'j inventory_snapshot"
  inv_recorded_at :: time

record 'j inventory_revision_change =
  change_revision :: "'j inventory_revision"
  change_event :: domain_event

definition record_inventory_on_change ::
  "uuid_source \<Rightarrow> endpoint_id \<Rightarrow> 'j inventory_revision option \<Rightarrow> 'j inventory_snapshot \<Rightarrow> time
    \<Rightarrow> 'j inventory_revision_change option" where
  "record_inventory_on_change new_v4 endpoint_id current observed now =
     (if (case current of None \<Rightarrow> False | Some revision \<Rightarrow> inv_snapshot revision = observed) then None
      else let revision_id = InventoryRevisionId (new_v4 0) in
        Some \<lparr> change_revision =
                 \<lparr> inv_id = revision_id, inv_endpoint_id = endpoint_id,
                   inv_snapshot = observed, inv_recorded_at = now \<rparr>,
               change_event =
                 InventoryRevisionRecorded (new_v4 1) endpoint_id revision_id now \<rparr>)"

section \<open>Identity lifecycle\<close>

fun identity_rank :: "identity_state \<Rightarrow> nat" where
  "identity_rank PendingEnrollment = 0"
| "identity_rank Enrolled = 1"
| "identity_rank Retired = 2"

lemma identity_approve_Ok_iff:
  "identity_approve s = Ok t \<longleftrightarrow> s = PendingEnrollment \<and> t = Enrolled"
  by (auto simp: identity_approve_def split: identity_state.splits)

lemma identity_retire_Ok_iff: "identity_retire s = Ok t \<longleftrightarrow> s = Enrolled \<and> t = Retired"
  by (auto simp: identity_retire_def split: identity_state.splits)

lemma identity_moves_forward:
  "identity_approve s = Ok t \<or> identity_retire s = Ok t \<Longrightarrow> identity_rank t = Suc (identity_rank s)"
  by (auto simp: identity_approve_Ok_iff identity_retire_Ok_iff)

end
