(* ===== verification/Enrollment.thy ===== *)
theory Enrollment
  imports Endpoint_Model
begin

text \<open>
  Boot contexts and the durable Endpoint transitions
  (\<open>boot_context.rs\<close> and \<open>transitions.rs\<close> under \<open>src/crates/domain/src\<close>): redemption of a
  boot-scoped enrollment credential on first contact and on a genuine reboot, rotation of a
  known Endpoint's chain, operator approval, revocation, and the establishment of trusted
  bootstrap for the current boot.
\<close>

section \<open>Boot contexts\<close>

record boot_context =
  bc_boot_context_id :: credential_lookup_id
  bc_verifier :: credential_hash
  bc_issued_at :: time
  bc_expires_at :: time
  bc_inventory_signal :: string
  bc_boot_nonce :: boot_nonce
  bc_resolved_endpoint_id :: "endpoint_id option"

datatype boot_context_resolve_error = BootContextResolveError (existing_endpoint: endpoint_id)

definition boot_context_new ::
  "credential_lookup_id \<Rightarrow> credential_hash \<Rightarrow> time \<Rightarrow> time \<Rightarrow> string \<Rightarrow> boot_nonce \<Rightarrow> boot_context" where
  "boot_context_new boot_context_id verifier issued_at expires_at inventory_signal boot_nonce =
     \<lparr> bc_boot_context_id = boot_context_id, bc_verifier = verifier, bc_issued_at = issued_at,
       bc_expires_at = expires_at, bc_inventory_signal = inventory_signal,
       bc_boot_nonce = boot_nonce, bc_resolved_endpoint_id = None \<rparr>"

definition boot_context_from_parts ::
  "credential_lookup_id \<Rightarrow> credential_hash \<Rightarrow> time \<Rightarrow> time \<Rightarrow> string \<Rightarrow> endpoint_id option \<Rightarrow> boot_nonce
    \<Rightarrow> boot_context" where
  "boot_context_from_parts boot_context_id verifier issued_at expires_at inventory_signal
     resolved_endpoint_id boot_nonce =
     \<lparr> bc_boot_context_id = boot_context_id, bc_verifier = verifier, bc_issued_at = issued_at,
       bc_expires_at = expires_at, bc_inventory_signal = inventory_signal,
       bc_boot_nonce = boot_nonce, bc_resolved_endpoint_id = resolved_endpoint_id \<rparr>"

definition boot_context_resolve ::
  "boot_context \<Rightarrow> endpoint_id \<Rightarrow> boot_context_resolve_error + boot_context" where
  "boot_context_resolve context endpoint_id =
     (case bc_resolved_endpoint_id context of
        None \<Rightarrow> Ok (context\<lparr> bc_resolved_endpoint_id := Some endpoint_id \<rparr>)
      | Some existing \<Rightarrow>
          if existing = endpoint_id then Ok context else Err (BootContextResolveError existing))"

definition boot_context_valid_at :: "boot_context \<Rightarrow> time \<Rightarrow> bool" where
  "boot_context_valid_at context now = (now < bc_expires_at context)"

definition boot_context_verify_secret ::
  "hash \<Rightarrow> boot_context \<Rightarrow> presented_credential_secret \<Rightarrow> bool" where
  "boot_context_verify_secret sha256 context presented =
     verify_bytes sha256 (bc_verifier context) (expose_secret_bytes presented)"

section \<open>Transitions\<close>

datatype redeem_outcome =
    RedeemEstablished (redeem_outcome_of: transition_outcome) (redeem_issued: presented_credential)
      (redeem_expires_at: time) (redeem_first_contact: bool) (redeem_confirmed: bool)
      (redeem_resolved: "boot_context option")
  | RedeemRejected

datatype trusted_bootstrap_outcome =
    TrustEstablished transition_outcome
  | TrustRejected

definition establish_trusted_bootstrap ::
  "endpoint_aggregate \<Rightarrow> boot_nonce \<Rightarrow> trusted_bootstrap_outcome" where
  "establish_trusted_bootstrap aggregate verified_current_nonce =
     (case ep_current_boot aggregate of
        None \<Rightarrow> TrustRejected
      | Some current_boot \<Rightarrow>
          if cb_boot_nonce current_boot \<noteq> verified_current_nonce then TrustRejected
          else TrustEstablished
            \<lparr> out_endpoint =
                aggregate\<lparr> ep_current_boot := Some (current_boot_establish current_boot) \<rparr>,
              out_events = [], out_audit = None \<rparr>)"

definition boot_context_credential_is_valid ::
  "hash \<Rightarrow> boot_context \<Rightarrow> presented_credential \<Rightarrow> time \<Rightarrow> bool" where
  "boot_context_credential_is_valid sha256 context presented now =
     (cred_kind presented = Enrollment \<and>
      cred_lookup_id presented = bc_boot_context_id context \<and>
      boot_context_valid_at context now \<and>
      boot_context_verify_secret sha256 context (cred_secret presented))"

definition first_contact ::
  "hash \<Rightarrow> byte list \<Rightarrow> uuid_source \<Rightarrow> boot_context \<Rightarrow> presented_credential \<Rightarrow> presented_credential
    \<Rightarrow> time \<Rightarrow> duration \<Rightarrow> boot_context_resolve_error + redeem_outcome" where
  "first_contact sha256 salt new_v4 context presented fresh_successor now ttl =
     (if bc_resolved_endpoint_id context \<noteq> None then Ok RedeemRejected
      else if \<not> boot_context_credential_is_valid sha256 context presented now then Ok RedeemRejected
      else case establish sha256 salt (cred_lookup_id presented) (bc_verifier context)
                  fresh_successor now ttl of
        None \<Rightarrow> Ok RedeemRejected
      | Some chain \<Rightarrow>
          let id = EndpointId (new_v4 0);
              aggregate =
                \<lparr> ep_id = id, ep_inventory_signal = bc_inventory_signal context,
                  ep_identity = PendingEnrollment, ep_credential = chain,
                  ep_hardware_confidence = hardware_confidence_initial,
                  ep_current_boot = Some (current_boot_new (bc_boot_context_id context)
                    (bc_boot_nonce context) NotEstablished),
                  ep_created_at = now, ep_updated_at = now \<rparr>;
              event = EndpointPendingEnrollment (new_v4 1) id now
          in case boot_context_resolve context id of
               Inl e \<Rightarrow> Err e
             | Inr resolved_context \<Rightarrow>
                 Ok (RedeemEstablished
                   \<lparr> out_endpoint = aggregate, out_events = [event], out_audit = None \<rparr>
                   fresh_successor (now + ttl) True False (Some resolved_context)))"

definition redeem_known ::
  "hash \<Rightarrow> byte list \<Rightarrow> endpoint_aggregate \<Rightarrow> presented_credential \<Rightarrow> presented_credential
    \<Rightarrow> time \<Rightarrow> duration \<Rightarrow> redeem_outcome" where
  "redeem_known sha256 salt aggregate presented fresh_successor now ttl =
     (case authenticate sha256 salt (ep_credential aggregate) presented fresh_successor now ttl of
        Accepted chain issued_expires_at successor_confirmed \<Rightarrow>
          RedeemEstablished
            \<lparr> out_endpoint = aggregate\<lparr> ep_credential := chain, ep_updated_at := now \<rparr>,
              out_events = [], out_audit = None \<rparr>
            fresh_successor issued_expires_at False successor_confirmed None
      | Rejected \<Rightarrow> RedeemRejected)"

definition genuine_reboot ::
  "hash \<Rightarrow> byte list \<Rightarrow> boot_context \<Rightarrow> endpoint_aggregate \<Rightarrow> presented_credential
    \<Rightarrow> presented_credential \<Rightarrow> time \<Rightarrow> duration \<Rightarrow> boot_context_resolve_error + redeem_outcome" where
  "genuine_reboot sha256 salt context candidate presented fresh_successor now ttl =
     (if bc_resolved_endpoint_id context \<noteq> None then Ok RedeemRejected
      else if \<not> boot_context_credential_is_valid sha256 context presented now then Ok RedeemRejected
      else if chain_revoked (ep_credential candidate) then Ok RedeemRejected
      else case establish sha256 salt (cred_lookup_id presented) (bc_verifier context)
                  fresh_successor now ttl of
        None \<Rightarrow> Ok RedeemRejected
      | Some chain \<Rightarrow>
          (case boot_context_resolve context (ep_id candidate) of
             Inl e \<Rightarrow> Err e
           | Inr resolved_context \<Rightarrow>
               Ok (RedeemEstablished
                 \<lparr> out_endpoint = candidate\<lparr> ep_credential := chain,
                     ep_current_boot := Some (current_boot_new (bc_boot_context_id context)
                       (bc_boot_nonce context) NotEstablished),
                     ep_updated_at := now \<rparr>,
                   out_events = [], out_audit = None \<rparr>
                 fresh_successor (now + ttl) False False (Some resolved_context))))"

definition approve_enrollment ::
  "uuid_source \<Rightarrow> endpoint_aggregate \<Rightarrow> actor \<Rightarrow> time
    \<Rightarrow> invalid_identity_transition + transition_outcome" where
  "approve_enrollment new_v4 aggregate operator now =
     (case identity_approve (ep_identity aggregate) of
        Inl e \<Rightarrow> Err e
      | Inr new_identity \<Rightarrow>
          let enrolled_event = EndpointEnrolled (new_v4 0) (ep_id aggregate) now;
              decision_event = OperatorDecisionRecorded (new_v4 1) (ep_id aggregate)
                ''EnrollmentApproved'' operator now;
              audit = \<lparr> audit_id = new_v4 2, audit_endpoint_id = ep_id aggregate,
                        audit_actor = operator, audit_occurred_at = now,
                        audit_detail = ''EnrollmentApproved'', audit_job_id = None,
                        audit_job_step_id = None, audit_attempt_id = None,
                        audit_action_id = None \<rparr>
          in Ok \<lparr> out_endpoint =
                     aggregate\<lparr> ep_identity := new_identity, ep_updated_at := now \<rparr>,
                  out_events = [enrolled_event, decision_event], out_audit = Some audit \<rparr>)"

definition revoke_credential :: "endpoint_aggregate \<Rightarrow> time \<Rightarrow> transition_outcome" where
  "revoke_credential aggregate now =
     \<lparr> out_endpoint =
         aggregate\<lparr> ep_credential := revoke (ep_credential aggregate), ep_updated_at := now \<rparr>,
       out_events = [], out_audit = None \<rparr>"

section \<open>Outcomes of the transitions\<close>

lemma boot_context_resolve_unresolved:
  "bc_resolved_endpoint_id context = None \<Longrightarrow>
   boot_context_resolve context i = Ok (context\<lparr> bc_resolved_endpoint_id := Some i \<rparr>)"
  by (simp add: boot_context_resolve_def)

lemma establish_eq:
  "establish sha256 salt i v f now ttl =
     (if cred_kind f = Runtime
      then Some \<lparr> chain_predecessor = \<lparr> slot_lookup_id = i, slot_hash = v,
                    slot_issued_at = now, slot_expires_at = now + ttl \<rparr>,
                  chain_successor = mint_successor_slot sha256 salt f now ttl,
                  chain_revoked = False \<rparr>
      else None)"
  by (simp add: establish_def mint_successor_slot_def)

lemma first_contact_no_conflict:
  "\<exists>outcome. first_contact sha256 salt new_v4 context p f now ttl = Ok outcome"
  by (cases "bc_resolved_endpoint_id context = None")
     (auto simp: first_contact_def boot_context_resolve_unresolved establish_eq Let_def)

lemma genuine_reboot_no_conflict:
  "\<exists>outcome. genuine_reboot sha256 salt context candidate p f now ttl = Ok outcome"
  by (cases "bc_resolved_endpoint_id context = None")
     (auto simp: genuine_reboot_def boot_context_resolve_unresolved establish_eq)

lemma first_contact_established_iff:
  "first_contact sha256 salt new_v4 context p f now ttl = Ok RedeemRejected \<longleftrightarrow>
   \<not> (bc_resolved_endpoint_id context = None \<and>
      boot_context_credential_is_valid sha256 context p now \<and> cred_kind f = Runtime)"
  by (cases "bc_resolved_endpoint_id context = None")
     (auto simp: first_contact_def boot_context_resolve_unresolved establish_eq Let_def)

lemma genuine_reboot_established_iff:
  "genuine_reboot sha256 salt context candidate p f now ttl = Ok RedeemRejected \<longleftrightarrow>
   \<not> (bc_resolved_endpoint_id context = None \<and>
      boot_context_credential_is_valid sha256 context p now \<and>
      \<not> chain_revoked (ep_credential candidate) \<and> cred_kind f = Runtime)"
  by (cases "bc_resolved_endpoint_id context = None")
     (auto simp: genuine_reboot_def boot_context_resolve_unresolved establish_eq)

end
