(* ===== verification/Enrollment_Store.thy ===== *)
theory Enrollment_Store
  imports Enrollment
begin

text \<open>
  Enrollment as the server runs it: the durable tables behind the enrollment services, the
  routing of a presented credential, and the transactions of the services, each of which
  applies one domain decision to the locked rows and persists its outcome
  (\<open>adapters/postgres/{credential_redemption_repository,boot_context_repository,repository,shared}.rs\<close>
  and the services \<open>BootOrchestrationService\<close>, \<open>EnrollmentService\<close> and
  \<open>BootstrapEvidenceService\<close> of \<open>application/mod.rs\<close> under \<open>src/crates/server/src\<close>).

  A table is a finite map from its primary key; a further unique index is a map of its own. A
  transaction is one atomic step, because every row it decides on is locked until it commits.
  The one unlocked read, of the credential lookup projection, is an argument of the routing:
  all results hold for every value it may have seen. A violated uniqueness constraint is an
  error that leaves the tables unchanged. Rounding of timestamps to the precision of the
  database is not modelled.
\<close>

section \<open>Tables\<close>

record enrollment_db =
  db_endpoints :: "(endpoint_id, endpoint_aggregate) fmap"
  db_signals :: "(string, endpoint_id) fmap"
  db_lookups :: "(credential_lookup_id, endpoint_id) fmap"
  db_contexts :: "(credential_lookup_id, boot_context) fmap"
  db_events :: "domain_event list"
  db_audit :: "audit_record list"

definition empty_db :: enrollment_db where
  "empty_db = \<lparr> db_endpoints = fmempty, db_signals = fmempty, db_lookups = fmempty,
     db_contexts = fmempty, db_events = [], db_audit = [] \<rparr>"

datatype repository_error =
    MissingEndpoint
  | UniqueViolation
  | CheckViolation
  | ContractViolation
  | ResolveConflict endpoint_id

definition load_by_id :: "enrollment_db \<Rightarrow> endpoint_id \<Rightarrow> endpoint_aggregate option" where
  "load_by_id db i = fmlookup (db_endpoints db) i"

definition load_by_signal :: "enrollment_db \<Rightarrow> string \<Rightarrow> endpoint_aggregate option" where
  "load_by_signal db signal =
     (case fmlookup (db_signals db) signal of None \<Rightarrow> None | Some i \<Rightarrow> load_by_id db i)"

definition load_boot_context :: "enrollment_db \<Rightarrow> credential_lookup_id \<Rightarrow> boot_context option" where
  "load_boot_context db l = fmlookup (db_contexts db) l"

text \<open>
  The upsert of \<open>persist_transition\<close>: a new row must respect the unique inventory signal, an
  existing row keeps its signal and creation time. Event and audit identifiers are keys.
\<close>

definition upsert_endpoint :: "enrollment_db \<Rightarrow> endpoint_aggregate \<Rightarrow> repository_error + enrollment_db" where
  "upsert_endpoint db e =
     (case fmlookup (db_endpoints db) (ep_id e) of
        Some old \<Rightarrow>
          Ok (db\<lparr> db_endpoints := map_insert (ep_id e)
                (e\<lparr> ep_inventory_signal := ep_inventory_signal old,
                    ep_created_at := ep_created_at old \<rparr>) (db_endpoints db) \<rparr>)
      | None \<Rightarrow>
          if fmlookup (db_signals db) (ep_inventory_signal e) \<noteq> None then Err UniqueViolation
          else Ok (db\<lparr> db_endpoints := map_insert (ep_id e) e (db_endpoints db),
                        db_signals := map_insert (ep_inventory_signal e) (ep_id e) (db_signals db) \<rparr>))"

definition persist_transition :: "enrollment_db \<Rightarrow> transition_outcome \<Rightarrow> repository_error + enrollment_db" where
  "persist_transition db outcome =
     (case upsert_endpoint db (out_endpoint outcome) of
        Inl e \<Rightarrow> Err e
      | Inr db' \<Rightarrow>
          if \<not> distinct (map event_id (db_events db @ out_events outcome)) then Err UniqueViolation
          else (case out_audit outcome of
              None \<Rightarrow> Ok (db'\<lparr> db_events := db_events db @ out_events outcome \<rparr>)
            | Some a \<Rightarrow>
                if audit_id a \<in> audit_id ` set (db_audit db) then Err UniqueViolation
                else Ok (db'\<lparr> db_events := db_events db @ out_events outcome,
                              db_audit := db_audit db @ [a] \<rparr>)))"

definition insert_lookup ::
  "endpoint_id \<Rightarrow> credential_lookup_id \<Rightarrow> (credential_lookup_id, endpoint_id) fmap
    \<Rightarrow> repository_error + (credential_lookup_id, endpoint_id) fmap" where
  "insert_lookup i l m = (if fmlookup m l \<noteq> None then Err UniqueViolation else Ok (map_insert l i m))"

definition persist_lookup_projection ::
  "enrollment_db \<Rightarrow> endpoint_id \<Rightarrow> credential_chain \<Rightarrow> repository_error + enrollment_db" where
  "persist_lookup_projection db i chain =
     (case insert_lookup i (slot_lookup_id (chain_predecessor chain))
             (map_retain (\<lambda>_ j. j \<noteq> i) (db_lookups db)) of
        Inl e \<Rightarrow> Err e
      | Inr m \<Rightarrow>
          (case chain_successor chain of
             None \<Rightarrow> Ok (db\<lparr> db_lookups := m \<rparr>)
           | Some successor \<Rightarrow>
               (case insert_lookup i (slot_lookup_id successor) m of
                  Inl e \<Rightarrow> Err e
                | Inr m' \<Rightarrow> Ok (db\<lparr> db_lookups := m' \<rparr>))))"

definition persist_boot_context_resolution :: "enrollment_db \<Rightarrow> boot_context \<Rightarrow> enrollment_db" where
  "persist_boot_context_resolution db context =
     (case fmlookup (db_contexts db) (bc_boot_context_id context) of
        None \<Rightarrow> db
      | Some row \<Rightarrow> db\<lparr> db_contexts := map_insert (bc_boot_context_id context)
          (row\<lparr> bc_resolved_endpoint_id := bc_resolved_endpoint_id context \<rparr>) (db_contexts db) \<rparr>)"

definition insert_boot_context :: "enrollment_db \<Rightarrow> boot_context \<Rightarrow> repository_error + enrollment_db" where
  "insert_boot_context db context =
     (if bc_expires_at context \<le> bc_issued_at context then Err CheckViolation
      else if fmlookup (db_contexts db) (bc_boot_context_id context) \<noteq> None then Err UniqueViolation
      else Ok (db\<lparr> db_contexts := map_insert (bc_boot_context_id context) context (db_contexts db) \<rparr>))"

section \<open>Routing and redemption\<close>

datatype redemption_target =
    TargetEndpoint endpoint_aggregate
  | TargetUnresolvedBootContext boot_context "endpoint_aggregate option"
  | TargetUnknownBootContext
  | TargetUnknownCredential

text \<open>\<open>mapped\<close> is the value of the unlocked read of \<open>endpoint_credential_lookups\<close>.\<close>

definition route ::
  "enrollment_db \<Rightarrow> endpoint_id option \<Rightarrow> credential_kind \<Rightarrow> credential_lookup_id
    \<Rightarrow> repository_error + redemption_target" where
  "route db mapped kind lookup_id =
     (case mapped of
        Some i \<Rightarrow>
          (case load_by_id db i of
             None \<Rightarrow> Err MissingEndpoint
           | Some aggregate \<Rightarrow> Ok (TargetEndpoint aggregate))
      | None \<Rightarrow>
          if kind = Runtime then Ok TargetUnknownCredential
          else (case load_boot_context db lookup_id of
              None \<Rightarrow> Ok TargetUnknownBootContext
            | Some context \<Rightarrow>
                (case bc_resolved_endpoint_id context of
                   Some i \<Rightarrow>
                     (case load_by_id db i of
                        None \<Rightarrow> Err MissingEndpoint
                      | Some aggregate \<Rightarrow> Ok (TargetEndpoint aggregate))
                 | None \<Rightarrow>
                     Ok (TargetUnresolvedBootContext context
                       (load_by_signal db (bc_inventory_signal context))))))"

text \<open>
  The random draws of one redemption: the salt of the issued verifier, the fresh runtime
  credential, and the identifiers of a new Endpoint and of its event.
\<close>

record redemption_draws =
  draw_salt :: "byte list"
  draw_lookup_id :: "byte list"
  draw_secret :: "byte list"
  draw_uuids :: uuid_source

definition fresh_runtime :: "redemption_draws \<Rightarrow> presented_credential" where
  "fresh_runtime draws = credential_generate Runtime (draw_lookup_id draws) (draw_secret draws)"

definition redemption_decide ::
  "hash \<Rightarrow> redemption_draws \<Rightarrow> presented_credential \<Rightarrow> time \<Rightarrow> duration \<Rightarrow> redemption_target
    \<Rightarrow> boot_context_resolve_error + redeem_outcome" where
  "redemption_decide sha256 draws presented now ttl target =
     (case target of
        TargetEndpoint aggregate \<Rightarrow>
          Ok (redeem_known sha256 (draw_salt draws) aggregate presented (fresh_runtime draws) now ttl)
      | TargetUnresolvedBootContext context None \<Rightarrow>
          first_contact sha256 (draw_salt draws) (draw_uuids draws) context presented
            (fresh_runtime draws) now ttl
      | TargetUnresolvedBootContext context (Some candidate) \<Rightarrow>
          genuine_reboot sha256 (draw_salt draws) context candidate presented
            (fresh_runtime draws) now ttl
      | TargetUnknownBootContext \<Rightarrow> Ok RedeemRejected
      | TargetUnknownCredential \<Rightarrow> Ok RedeemRejected)"

fun target_is_unknown :: "redemption_target \<Rightarrow> bool" where
  "target_is_unknown TargetUnknownBootContext = True"
| "target_is_unknown TargetUnknownCredential = True"
| "target_is_unknown _ = False"

definition persist_redemption ::
  "enrollment_db \<Rightarrow> transition_outcome \<Rightarrow> boot_context option \<Rightarrow> repository_error + enrollment_db" where
  "persist_redemption db outcome resolved =
     (case persist_transition db outcome of
        Inl e \<Rightarrow> Err e
      | Inr db1 \<Rightarrow>
          (case persist_lookup_projection db1 (ep_id (out_endpoint outcome))
                  (ep_credential (out_endpoint outcome)) of
             Inl e \<Rightarrow> Err e
           | Inr db2 \<Rightarrow>
               Ok (case resolved of None \<Rightarrow> db2
                   | Some context \<Rightarrow> persist_boot_context_resolution db2 context)))"

definition redeem_tx ::
  "hash \<Rightarrow> redemption_draws \<Rightarrow> endpoint_id option \<Rightarrow> presented_credential \<Rightarrow> time \<Rightarrow> duration
    \<Rightarrow> enrollment_db \<Rightarrow> (repository_error + redeem_outcome) \<times> enrollment_db" where
  "redeem_tx sha256 draws mapped presented now ttl db =
     (case route db mapped (cred_kind presented) (cred_lookup_id presented) of
        Inl e \<Rightarrow> (Err e, db)
      | Inr target \<Rightarrow>
          (case redemption_decide sha256 draws presented now ttl target of
             Inl (BootContextResolveError i) \<Rightarrow> (Err (ResolveConflict i), db)
           | Inr RedeemRejected \<Rightarrow> (Ok RedeemRejected, db)
           | Inr (RedeemEstablished outcome issued expires first confirmed resolved) \<Rightarrow>
               if target_is_unknown target then (Err ContractViolation, db)
               else (case persist_redemption db outcome resolved of
                   Inl e \<Rightarrow> (Err e, db)
                 | Inr db' \<Rightarrow>
                     (Ok (RedeemEstablished outcome issued expires first confirmed resolved), db'))))"

datatype redeem_result =
    ResultEstablished endpoint_id presented_credential time
  | ResultRejected

definition enrollment_redeem ::
  "b64_engine \<Rightarrow> hash \<Rightarrow> redemption_draws \<Rightarrow> endpoint_id option \<Rightarrow> string \<Rightarrow> time \<Rightarrow> duration
    \<Rightarrow> enrollment_db \<Rightarrow> (repository_error + redeem_result) \<times> enrollment_db" where
  "enrollment_redeem eng sha256 draws mapped credential_wire now ttl db =
     (case credential_parse eng credential_wire of
        Inl _ \<Rightarrow> (Ok ResultRejected, db)
      | Inr presented \<Rightarrow>
          (case redeem_tx sha256 draws mapped presented now ttl db of
             (Inl e, db') \<Rightarrow> (Err e, db')
           | (Inr RedeemRejected, db') \<Rightarrow> (Ok ResultRejected, db')
           | (Inr (RedeemEstablished outcome issued expires _ _ _), db') \<Rightarrow>
               (Ok (ResultEstablished (ep_id (out_endpoint outcome)) issued expires), db')))"

section \<open>The other services\<close>

definition issue_enrollment_credential ::
  "hash \<Rightarrow> redemption_draws \<Rightarrow> duration \<Rightarrow> string \<Rightarrow> boot_nonce \<Rightarrow> time \<Rightarrow> enrollment_db
    \<Rightarrow> (repository_error + presented_credential) \<times> enrollment_db" where
  "issue_enrollment_credential sha256 draws enrollment_ttl inventory_signal boot_nonce now db =
     (let credential = credential_generate Enrollment (draw_lookup_id draws) (draw_secret draws);
          verifier = of_bytes sha256 (expose_secret_bytes (cred_secret credential)) (draw_salt draws);
          context = boot_context_new (cred_lookup_id credential) verifier now (now + enrollment_ttl)
            inventory_signal boot_nonce
      in case insert_boot_context db context of
           Inl e \<Rightarrow> (Err e, db)
         | Inr db' \<Rightarrow> (Ok credential, db'))"

datatype endpoint_update_error =
    EndpointNotFound endpoint_id
  | InvalidTransition invalid_identity_transition
  | UpdateRepository repository_error

definition update_endpoint ::
  "endpoint_id \<Rightarrow> (endpoint_aggregate \<Rightarrow> invalid_identity_transition + transition_outcome)
    \<Rightarrow> enrollment_db \<Rightarrow> (endpoint_update_error + transition_outcome) \<times> enrollment_db" where
  "update_endpoint i decide db =
     (case load_by_id db i of
        None \<Rightarrow> (Err (EndpointNotFound i), db)
      | Some aggregate \<Rightarrow>
          (case decide aggregate of
             Inl invalid \<Rightarrow> (Err (InvalidTransition invalid), db)
           | Inr outcome \<Rightarrow>
               (case persist_transition db outcome of
                  Inl e \<Rightarrow> (Err (UpdateRepository e), db)
                | Inr db' \<Rightarrow> (Ok outcome, db'))))"

definition service_approve_enrollment ::
  "uuid_source \<Rightarrow> endpoint_id \<Rightarrow> actor \<Rightarrow> time \<Rightarrow> enrollment_db
    \<Rightarrow> (endpoint_update_error + unit) \<times> enrollment_db" where
  "service_approve_enrollment new_v4 i operator now db =
     (case update_endpoint i (\<lambda>aggregate. approve_enrollment new_v4 aggregate operator now) db of
        (Inl e, db') \<Rightarrow> (Err e, db') | (Inr _, db') \<Rightarrow> (Ok (), db'))"

definition service_revoke_credential ::
  "endpoint_id \<Rightarrow> time \<Rightarrow> enrollment_db \<Rightarrow> (endpoint_update_error + unit) \<times> enrollment_db" where
  "service_revoke_credential i now db =
     (case update_endpoint i (\<lambda>aggregate. Ok (revoke_credential aggregate now)) db of
        (Inl e, db') \<Rightarrow> (Err e, db') | (Inr _, db') \<Rightarrow> (Ok (), db'))"

definition establish_trusted_bootstrap_tx ::
  "endpoint_id \<Rightarrow> (endpoint_aggregate \<Rightarrow> trusted_bootstrap_outcome) \<Rightarrow> enrollment_db
    \<Rightarrow> (endpoint_update_error + trusted_bootstrap_outcome) \<times> enrollment_db" where
  "establish_trusted_bootstrap_tx i decide db =
     (case load_by_id db i of
        None \<Rightarrow> (Err (EndpointNotFound i), db)
      | Some aggregate \<Rightarrow>
          (case decide aggregate of
             TrustRejected \<Rightarrow> (Ok TrustRejected, db)
           | TrustEstablished outcome \<Rightarrow>
               (case persist_transition db outcome of
                  Inl e \<Rightarrow> (Err (UpdateRepository e), db)
                | Inr db' \<Rightarrow> (Ok (TrustEstablished outcome), db'))))"

text \<open>The two wire strings of the \<open>BootstrapEvidence\<close> message body.\<close>

record bootstrap_evidence =
  evidence_boot_nonce :: string
  evidence_bootstrap_assertion :: string

datatype bootstrap_evidence_result = EvidenceEstablished | EvidenceRejected

definition verify_and_establish ::
  "b64_engine \<Rightarrow> hash \<Rightarrow> ed25519 \<Rightarrow> accepted_site_keys \<Rightarrow> endpoint_id \<Rightarrow> bootstrap_evidence
    \<Rightarrow> server_cert_fingerprint \<Rightarrow> enrollment_db
    \<Rightarrow> (endpoint_update_error + bootstrap_evidence_result) \<times> enrollment_db" where
  "verify_and_establish eng sha256 verify_strict accepted i evidence connection_fingerprint db =
     (case nonce_parse_wire_value eng (evidence_boot_nonce evidence) of
        Inl _ \<Rightarrow> (Ok EvidenceRejected, db)
      | Inr declared_nonce \<Rightarrow>
          (case assertion_parse_wire_value eng (evidence_bootstrap_assertion evidence) of
             Inl _ \<Rightarrow> (Ok EvidenceRejected, db)
           | Inr assertion \<Rightarrow>
               (case verify sha256 verify_strict assertion accepted of
                  Inl _ \<Rightarrow> (Ok EvidenceRejected, db)
                | Inr verified \<Rightarrow>
                    if verified_boot_nonce verified \<noteq> declared_nonce
                       \<or> expected_server_fingerprint verified \<noteq> connection_fingerprint
                    then (Ok EvidenceRejected, db)
                    else (case establish_trusted_bootstrap_tx i
                             (\<lambda>aggregate. establish_trusted_bootstrap aggregate declared_nonce) db of
                        (Inl e, db') \<Rightarrow> (Err e, db')
                      | (Inr (TrustEstablished _), db') \<Rightarrow> (Ok EvidenceEstablished, db')
                      | (Inr TrustRejected, db') \<Rightarrow> (Ok EvidenceRejected, db')))))"

section \<open>Runs of the services\<close>

datatype enrollment_op =
    OpIssue redemption_draws duration string boot_nonce time
  | OpRedeem redemption_draws "endpoint_id option" string time duration
  | OpApprove uuid_source endpoint_id actor time
  | OpRevokeCredential endpoint_id time
  | OpEvidence endpoint_id bootstrap_evidence server_cert_fingerprint

record environment =
  env_engine :: b64_engine
  env_sha256 :: hash
  env_verify_strict :: ed25519
  env_site_keys :: "site_public_key list"

fun enrollment_step :: "environment \<Rightarrow> enrollment_db \<Rightarrow> enrollment_op \<Rightarrow> enrollment_db" where
  "enrollment_step env db (OpIssue draws ttl signal nonce now) =
     snd (issue_enrollment_credential (env_sha256 env) draws ttl signal nonce now db)"
| "enrollment_step env db (OpRedeem draws mapped wire now ttl) =
     snd (enrollment_redeem (env_engine env) (env_sha256 env) draws mapped wire now ttl db)"
| "enrollment_step env db (OpApprove new_v4 i operator now) =
     snd (service_approve_enrollment new_v4 i operator now db)"
| "enrollment_step env db (OpRevokeCredential i now) = snd (service_revoke_credential i now db)"
| "enrollment_step env db (OpEvidence i evidence fingerprint) =
     snd (verify_and_establish (env_engine env) (env_sha256 env) (env_verify_strict env)
       (accepted_new (env_sha256 env) (env_site_keys env)) i evidence fingerprint db)"

abbreviation enrollment_run :: "environment \<Rightarrow> enrollment_db \<Rightarrow> enrollment_op list \<Rightarrow> enrollment_db" where
  "enrollment_run env \<equiv> foldl (enrollment_step env)"

section \<open>Invariant of the tables\<close>

definition endpoints_ok :: "enrollment_db \<Rightarrow> bool" where
  "endpoints_ok db \<longleftrightarrow> (\<forall>i e. fmlookup (db_endpoints db) i = Some e \<longrightarrow> ep_id e = i)"

definition lookups_ok :: "enrollment_db \<Rightarrow> bool" where
  "lookups_ok db \<longleftrightarrow> (\<forall>l i. fmlookup (db_lookups db) l = Some i \<longleftrightarrow>
     (\<exists>e. fmlookup (db_endpoints db) i = Some e \<and> l \<in> chain_ids (ep_credential e)))"

definition signals_ok :: "enrollment_db \<Rightarrow> bool" where
  "signals_ok db \<longleftrightarrow> (\<forall>s i. fmlookup (db_signals db) s = Some i \<longleftrightarrow>
     (\<exists>e. fmlookup (db_endpoints db) i = Some e \<and> ep_inventory_signal e = s))"

definition contexts_ok :: "enrollment_db \<Rightarrow> bool" where
  "contexts_ok db \<longleftrightarrow> (\<forall>l c. fmlookup (db_contexts db) l = Some c \<longrightarrow>
     bc_boot_context_id c = l \<and>
     (\<forall>i. bc_resolved_endpoint_id c = Some i \<longrightarrow> fmlookup (db_endpoints db) i \<noteq> None))"

definition boots_ok :: "enrollment_db \<Rightarrow> bool" where
  "boots_ok db \<longleftrightarrow> (\<forall>i e b. fmlookup (db_endpoints db) i = Some e \<longrightarrow>
     ep_current_boot e = Some b \<longrightarrow>
     (\<exists>c. fmlookup (db_contexts db) (cb_boot_context_id b) = Some c \<and>
          bc_boot_nonce c = cb_boot_nonce b \<and> bc_resolved_endpoint_id c = Some i))"

definition enrollment_inv :: "enrollment_db \<Rightarrow> bool" where
  "enrollment_inv db \<longleftrightarrow>
     endpoints_ok db \<and> lookups_ok db \<and> signals_ok db \<and> contexts_ok db \<and> boots_ok db"

lemma enrollment_inv_empty: "enrollment_inv empty_db"
  by (simp add: enrollment_inv_def endpoints_ok_def lookups_ok_def signals_ok_def contexts_ok_def
      boots_ok_def empty_db_def)

lemmas enrollment_inv_defs = enrollment_inv_def endpoints_ok_def lookups_ok_def signals_ok_def
  contexts_ok_def boots_ok_def

subsection \<open>Effect of the persistence functions\<close>

lemma persist_transition_OkD:
  assumes "persist_transition db outcome = Ok db'"
  defines "e \<equiv> out_endpoint outcome"
  obtains e' where
    "db_endpoints db' = map_insert (ep_id e) e' (db_endpoints db)"
    "ep_id e' = ep_id e" "ep_credential e' = ep_credential e" "ep_identity e' = ep_identity e"
    "ep_current_boot e' = ep_current_boot e"
    "ep_hardware_confidence e' = ep_hardware_confidence e"
    "\<And>old. fmlookup (db_endpoints db) (ep_id e) = Some old \<Longrightarrow>
      ep_inventory_signal e' = ep_inventory_signal old"
    "db_lookups db' = db_lookups db" "db_contexts db' = db_contexts db"
    "signals_ok db \<Longrightarrow> signals_ok db'"
proof -
  from assms(1) obtain db1 where up: "upsert_endpoint db e = Ok db1"
    and db': "db_endpoints db' = db_endpoints db1" "db_signals db' = db_signals db1"
      "db_lookups db' = db_lookups db1" "db_contexts db' = db_contexts db1"
    by (auto simp: persist_transition_def e_def split: sum.splits if_splits option.splits)
  show thesis
  proof (cases "fmlookup (db_endpoints db) (ep_id e)")
    case None
    with up have "db_endpoints db1 = map_insert (ep_id e) e (db_endpoints db)"
      and sig: "db_signals db1 = map_insert (ep_inventory_signal e) (ep_id e) (db_signals db)"
        "fmlookup (db_signals db) (ep_inventory_signal e) = None"
      and rest: "db_lookups db1 = db_lookups db" "db_contexts db1 = db_contexts db"
      by (auto simp: upsert_endpoint_def split: if_splits)
    moreover have "signals_ok db'" if "signals_ok db"
      using that sig None calculation(1) db' unfolding signals_ok_def
      by auto (metis option.distinct(1))
    ultimately show thesis
      using that [of e] db' None by simp
  next
    case (Some old)
    let ?e' = "e\<lparr> ep_inventory_signal := ep_inventory_signal old, ep_created_at := ep_created_at old \<rparr>"
    from Some up have db1: "db1 = db\<lparr> db_endpoints := map_insert (ep_id e) ?e' (db_endpoints db) \<rparr>"
      by (simp add: upsert_endpoint_def)
    moreover have "signals_ok db'" if "signals_ok db"
      using that Some db' unfolding signals_ok_def db1 by auto
    ultimately show thesis
      using that [of ?e'] db' Some by simp
  qed
qed

lemma persist_lookup_projection_OkD:
  assumes "persist_lookup_projection db i chain = Ok db'"
  shows "fmlookup (db_lookups db') l =
      (if l \<in> chain_ids chain then Some i
       else if fmlookup (db_lookups db) l = Some i then None else fmlookup (db_lookups db) l)"
    and "l \<in> chain_ids chain \<Longrightarrow> fmlookup (db_lookups db) l = Some j \<Longrightarrow> j = i"
    and "db_endpoints db' = db_endpoints db" "db_contexts db' = db_contexts db"
      "db_signals db' = db_signals db"
  using assms
  by (auto simp: persist_lookup_projection_def insert_lookup_def chain_ids_def chain_slots_def
      lookup_map_retain split: sum.splits if_splits option.splits)

lemma chain_ids_not_empty: "\<exists>l. l \<in> chain_ids c"
  by (auto simp: chain_ids_def chain_slots_def)

subsection \<open>Preservation\<close>

text \<open>
  Outcomes of the transitions that only update a loaded Endpoint: they keep its identifier,
  the lookup identifiers of its chain and its current boot up to the trust flag.
\<close>

definition boot_key :: "endpoint_aggregate \<Rightarrow> (credential_lookup_id \<times> boot_nonce) option" where
  "boot_key e = map_option (\<lambda>b. (cb_boot_context_id b, cb_boot_nonce b)) (ep_current_boot e)"

definition boots_keyed :: "enrollment_db \<Rightarrow> bool" where
  "boots_keyed db \<longleftrightarrow> (\<forall>i e l n. fmlookup (db_endpoints db) i = Some e \<longrightarrow> boot_key e = Some (l, n) \<longrightarrow>
     (\<exists>c. fmlookup (db_contexts db) l = Some c \<and> bc_boot_nonce c = n \<and>
          bc_resolved_endpoint_id c = Some i))"

lemma boots_ok_keyed: "boots_ok db = boots_keyed db"
  unfolding boots_ok_def boots_keyed_def boot_key_def by (auto split: prod.splits)

lemma update_inv:
  assumes inv: "enrollment_inv db" and e: "fmlookup (db_endpoints db) i = Some e"
    and persist: "persist_transition db outcome = Ok db'"
    and keep: "ep_id (out_endpoint outcome) = ep_id e"
      "chain_ids (ep_credential (out_endpoint outcome)) = chain_ids (ep_credential e)"
      "boot_key (out_endpoint outcome) = boot_key e"
  shows "enrollment_inv db'"
proof -
  from inv e have i: "ep_id e = i"
    by (simp add: enrollment_inv_defs)
  from persist obtain e' where db': "db_endpoints db' = map_insert i e' (db_endpoints db)"
    and e': "ep_id e' = i" "chain_ids (ep_credential e') = chain_ids (ep_credential e)"
      "boot_key e' = boot_key e"
    and rest: "db_lookups db' = db_lookups db" "db_contexts db' = db_contexts db" "signals_ok db'"
    by (rule persist_transition_OkD) (use keep i inv in \<open>auto simp: boot_key_def enrollment_inv_def\<close>)
  have "endpoints_ok db'" "lookups_ok db'" "contexts_ok db'"
    using inv e db' e' rest by (auto simp: enrollment_inv_defs)
  moreover have "boots_keyed db'"
    using inv e db' e'(3) rest unfolding enrollment_inv_def boots_ok_keyed boots_keyed_def by auto
  ultimately show ?thesis
    using rest(3) by (simp add: enrollment_inv_def boots_ok_keyed)
qed

lemma lookups_replace:
  assumes "lookups_ok db"
    and "db_endpoints db' = map_insert i e' (db_endpoints db)"
    and "\<And>l. fmlookup (db_lookups db') l =
      (if l \<in> chain_ids (ep_credential e') then Some i
       else if fmlookup (db_lookups db) l = Some i then None else fmlookup (db_lookups db) l)"
    and "\<And>l j. l \<in> chain_ids (ep_credential e') \<Longrightarrow> fmlookup (db_lookups db) l = Some j \<Longrightarrow> j = i"
  shows "lookups_ok db'"
  unfolding lookups_ok_def
proof (intro allI)
  fix l j
  show "fmlookup (db_lookups db') l = Some j \<longleftrightarrow>
    (\<exists>e. fmlookup (db_endpoints db') j = Some e \<and> l \<in> chain_ids (ep_credential e))"
  proof (cases "j = i")
    case True
    then show ?thesis
      using assms by auto
  next
    case False
    then have "fmlookup (db_lookups db') l = Some j \<longleftrightarrow> fmlookup (db_lookups db) l = Some j"
      using assms(3) [of l] assms(4) [of l j] by auto
    with False show ?thesis
      using assms(1,2) by (simp add: lookups_ok_def)
  qed
qed

text \<open>
  Outcomes of redemptions: a rotation keeps the current boot of the loaded Endpoint, the
  redemption of a boot context makes that context the current boot and resolves it.
\<close>

lemma redemption_inv:
  assumes inv: "enrollment_inv db" and persist: "persist_redemption db outcome resolved = Ok db'"
    and boot: "case resolved of
        None \<Rightarrow> (\<exists>e. fmlookup (db_endpoints db) (ep_id (out_endpoint outcome)) = Some e \<and>
                  ep_current_boot (out_endpoint outcome) = ep_current_boot e)
      | Some c' \<Rightarrow> (\<exists>c l. fmlookup (db_contexts db) l = Some c \<and> bc_resolved_endpoint_id c = None \<and>
          c' = c\<lparr> bc_resolved_endpoint_id := Some (ep_id (out_endpoint outcome)) \<rparr> \<and>
          boot_key (out_endpoint outcome) = Some (l, bc_boot_nonce c))"
  shows "enrollment_inv db'"
proof -
  let ?e = "out_endpoint outcome"
  let ?i = "ep_id ?e"
  from persist obtain db1 db2 where p1: "persist_transition db outcome = Ok db1"
    and p2: "persist_lookup_projection db1 ?i (ep_credential ?e) = Ok db2"
    and db': "db' = (case resolved of None \<Rightarrow> db2 | Some c \<Rightarrow> persist_boot_context_resolution db2 c)"
    by (auto simp: persist_redemption_def split: sum.splits)
  from p1 obtain e' where e1: "db_endpoints db1 = map_insert ?i e' (db_endpoints db)"
    and e': "ep_id e' = ?i" "ep_credential e' = ep_credential ?e" "boot_key e' = boot_key ?e"
    and rest1: "db_lookups db1 = db_lookups db" "db_contexts db1 = db_contexts db" "signals_ok db1"
    by (rule persist_transition_OkD) (use inv in \<open>auto simp: boot_key_def enrollment_inv_def\<close>)
  note l2 = persist_lookup_projection_OkD [OF p2]
  have same: "db_endpoints db' = map_insert ?i e' (db_endpoints db)"
    "db_lookups db' = db_lookups db2" "db_signals db' = db_signals db1"
    using l2 e1 by (auto simp: db' persist_boot_context_resolution_def split: option.splits)
  have "lookups_ok db'"
    by (rule lookups_replace [where db = db and i = ?i and e' = e'])
       (use inv same l2 e' rest1 in \<open>auto simp: enrollment_inv_def\<close>)
  moreover have "signals_ok db'"
    using rest1(3) e1 same by (simp add: signals_ok_def)
  moreover have "endpoints_ok db'"
    using inv same e' by (simp add: enrollment_inv_defs)
  moreover have "contexts_ok db' \<and> boots_keyed db'"
  proof (cases resolved)
    case None
    then have ctx: "db_contexts db' = db_contexts db"
      using l2 rest1 by (simp add: db')
    with boot None have "boot_key e' = None \<or> (\<exists>e. fmlookup (db_endpoints db) ?i = Some e \<and>
        boot_key e' = boot_key e)"
      unfolding e'(3) by (auto simp: boot_key_def)
    then show ?thesis
      using inv same ctx unfolding enrollment_inv_def boots_ok_keyed boots_keyed_def contexts_ok_def
      by auto
  next
    case (Some c')
    with boot obtain c l where c: "fmlookup (db_contexts db) l = Some c"
      "bc_resolved_endpoint_id c = None" "c' = c\<lparr> bc_resolved_endpoint_id := Some ?i \<rparr>"
      "boot_key e' = Some (l, bc_boot_nonce c)"
      by (auto simp: e')
    moreover from inv c have "bc_boot_context_id c = l"
      by (simp add: enrollment_inv_defs)
    ultimately have ctx: "db_contexts db' = map_insert l c' (db_contexts db)"
      using Some l2 rest1 by (simp add: db' persist_boot_context_resolution_def)
    have "contexts_ok db'"
      using inv same ctx c(3) \<open>bc_boot_context_id c = l\<close>
      by (auto simp: enrollment_inv_defs)
    moreover have "boots_keyed db'"
      unfolding boots_keyed_def
    proof (intro allI impI)
      fix j e k n
      assume e: "fmlookup (db_endpoints db') j = Some e" "boot_key e = Some (k, n)"
      show "\<exists>c. fmlookup (db_contexts db') k = Some c \<and> bc_boot_nonce c = n \<and>
          bc_resolved_endpoint_id c = Some j"
      proof (cases "j = ?i")
        case True
        then show ?thesis
          using e same ctx c(3,4) by simp
      next
        case False
        with e same have "fmlookup (db_endpoints db) j = Some e" by simp
        with e(2) inv obtain d where d: "fmlookup (db_contexts db) k = Some d" "bc_boot_nonce d = n"
          "bc_resolved_endpoint_id d = Some j"
          unfolding enrollment_inv_def boots_ok_keyed boots_keyed_def by blast
        with c have "k \<noteq> l" by auto
        with d ctx show ?thesis by simp
      qed
    qed
    ultimately show ?thesis by simp
  qed
  ultimately show ?thesis
    by (simp add: enrollment_inv_def boots_ok_keyed)
qed

subsection \<open>Every service step keeps the invariant\<close>

lemma redeem_known_EstablishedD:
  "redeem_known sha256 salt e p f now ttl = RedeemEstablished outcome issued expires first conf res \<Longrightarrow>
   res = None \<and> \<not> first \<and> \<not> chain_revoked (ep_credential e) \<and>
   (\<exists>chain. authenticate sha256 salt (ep_credential e) p f now ttl = Accepted chain expires conf \<and>
     out_endpoint outcome = e\<lparr> ep_credential := chain, ep_updated_at := now \<rparr>)"
  by (auto simp: redeem_known_def authenticate_def split: auth_outcome.splits if_splits)

lemma first_contact_EstablishedD:
  "first_contact sha256 salt new_v4 c p f now ttl =
     Ok (RedeemEstablished outcome issued expires first conf res) \<Longrightarrow>
   first \<and> bc_resolved_endpoint_id c = None \<and> boot_context_credential_is_valid sha256 c p now \<and>
   ep_id (out_endpoint outcome) = EndpointId (new_v4 0) \<and>
   ep_identity (out_endpoint outcome) = PendingEnrollment \<and>
   ep_current_boot (out_endpoint outcome) =
     Some (current_boot_new (bc_boot_context_id c) (bc_boot_nonce c) NotEstablished) \<and>
   res = Some (c\<lparr> bc_resolved_endpoint_id := Some (ep_id (out_endpoint outcome)) \<rparr>)"
  by (cases "bc_resolved_endpoint_id c = None")
     (auto simp: first_contact_def boot_context_resolve_unresolved establish_eq Let_def
       split: if_splits)

lemma genuine_reboot_EstablishedD:
  "genuine_reboot sha256 salt c e p f now ttl =
     Ok (RedeemEstablished outcome issued expires first conf res) \<Longrightarrow>
   \<not> first \<and> bc_resolved_endpoint_id c = None \<and> boot_context_credential_is_valid sha256 c p now \<and>
   \<not> chain_revoked (ep_credential e) \<and>
   ep_id (out_endpoint outcome) = ep_id e \<and> ep_identity (out_endpoint outcome) = ep_identity e \<and>
   ep_hardware_confidence (out_endpoint outcome) = ep_hardware_confidence e \<and>
   ep_current_boot (out_endpoint outcome) =
     Some (current_boot_new (bc_boot_context_id c) (bc_boot_nonce c) NotEstablished) \<and>
   res = Some (c\<lparr> bc_resolved_endpoint_id := Some (ep_id (out_endpoint outcome)) \<rparr>)"
  by (cases "bc_resolved_endpoint_id c = None")
     (auto simp: genuine_reboot_def boot_context_resolve_unresolved establish_eq split: if_splits)

text \<open>
  What a committed redemption did: it rotated the chain of an existing Endpoint, or it
  redeemed an unresolved boot context, either for a new Endpoint or for the Endpoint with the
  context's inventory signal.
\<close>

lemma redeem_tx_EstablishedD:
  assumes "redeem_tx sha256 draws mapped p now ttl db =
      (Ok (RedeemEstablished outcome issued expires first conf res), db')"
  obtains (rotate) i e chain where "fmlookup (db_endpoints db) i = Some e"
      "authenticate sha256 (draw_salt draws) (ep_credential e) p (fresh_runtime draws) now ttl =
         Accepted chain expires conf"
      "out_endpoint outcome = e\<lparr> ep_credential := chain, ep_updated_at := now \<rparr>" "res = None"
      "\<not> first" "persist_redemption db outcome res = Ok db'"
  | (enroll) c where "fmlookup (db_contexts db) (cred_lookup_id p) = Some c"
      "load_by_signal db (bc_inventory_signal c) = None"
      "first_contact sha256 (draw_salt draws) (draw_uuids draws) c p (fresh_runtime draws) now ttl =
         Ok (RedeemEstablished outcome issued expires first conf res)"
      "persist_redemption db outcome res = Ok db'"
  | (reboot) c e where "fmlookup (db_contexts db) (cred_lookup_id p) = Some c"
      "load_by_signal db (bc_inventory_signal c) = Some e"
      "genuine_reboot sha256 (draw_salt draws) c e p (fresh_runtime draws) now ttl =
         Ok (RedeemEstablished outcome issued expires first conf res)"
      "persist_redemption db outcome res = Ok db'"
proof -
  from assms obtain target where target: "route db mapped (cred_kind p) (cred_lookup_id p) = Ok target"
    and decide: "redemption_decide sha256 draws p now ttl target =
      Ok (RedeemEstablished outcome issued expires first conf res)"
    and persist: "persist_redemption db outcome res = Ok db'"
    by (auto simp: redeem_tx_def split: sum.splits if_splits redeem_outcome.splits
        boot_context_resolve_error.splits)
  show thesis
  proof (cases target)
    case (TargetEndpoint e)
    with target obtain i where "fmlookup (db_endpoints db) i = Some e"
      by (auto simp: route_def load_by_id_def split: option.splits if_splits)
    moreover from TargetEndpoint decide
    have "redeem_known sha256 (draw_salt draws) e p (fresh_runtime draws) now ttl =
      RedeemEstablished outcome issued expires first conf res"
      by (simp add: redemption_decide_def)
    ultimately show thesis
      using redeem_known_EstablishedD rotate persist by blast
  next
    case (TargetUnresolvedBootContext c candidate)
    with target have "fmlookup (db_contexts db) (cred_lookup_id p) = Some c"
      "load_by_signal db (bc_inventory_signal c) = candidate"
      by (auto simp: route_def load_boot_context_def split: option.splits if_splits)
    with TargetUnresolvedBootContext decide persist show thesis
      by (cases candidate) (auto simp: redemption_decide_def intro: enroll reboot)
  qed (use decide in \<open>simp_all add: redemption_decide_def\<close>)
qed

lemma load_by_signal_SomeD:
  "load_by_signal db signal = Some e \<Longrightarrow> \<exists>i. fmlookup (db_endpoints db) i = Some e"
  by (auto simp: load_by_signal_def load_by_id_def split: option.splits)

lemma redeem_tx_inv:
  assumes inv: "enrollment_inv db"
    and tx: "redeem_tx sha256 draws mapped p now ttl db =
      (Ok (RedeemEstablished outcome issued expires first conf res), db')"
  shows "enrollment_inv db'"
  using tx
proof (cases rule: redeem_tx_EstablishedD)
  case (rotate i e chain)
  moreover from rotate inv have "ep_id e = i"
    by (simp add: enrollment_inv_defs)
  ultimately show ?thesis
    by (intro redemption_inv [OF inv]) auto
next
  case (enroll c)
  moreover from enroll inv have "bc_boot_context_id c = cred_lookup_id p"
    by (simp add: enrollment_inv_defs)
  ultimately show ?thesis
    using first_contact_EstablishedD [OF enroll(3)]
    by (intro redemption_inv [OF inv enroll(4)]) (auto simp: boot_key_def current_boot_new_def)
next
  case (reboot c e)
  moreover from reboot inv have "bc_boot_context_id c = cred_lookup_id p"
    by (simp add: enrollment_inv_defs)
  ultimately show ?thesis
    using genuine_reboot_EstablishedD [OF reboot(3)]
    by (intro redemption_inv [OF inv reboot(4)]) (auto simp: boot_key_def current_boot_new_def)
qed

lemma enrollment_redeem_cases:
  obtains (unchanged) "snd (enrollment_redeem eng sha256 draws mapped wire now ttl db) = db"
  | (committed) p outcome issued expires first conf res db' where
      "credential_parse eng wire = Ok p"
      "redeem_tx sha256 draws mapped p now ttl db =
        (Ok (RedeemEstablished outcome issued expires first conf res), db')"
      "snd (enrollment_redeem eng sha256 draws mapped wire now ttl db) = db'"
proof (cases "credential_parse eng wire")
  case (Inr p)
  show thesis
  proof (cases "\<exists>outcome issued expires first conf res db'. redeem_tx sha256 draws mapped p now ttl db =
        (Ok (RedeemEstablished outcome issued expires first conf res), db')")
    case True
    with Inr committed show thesis
      by (auto simp: enrollment_redeem_def)
  next
    case False
    then have "snd (redeem_tx sha256 draws mapped p now ttl db) = db"
      by (auto simp: redeem_tx_def split: sum.splits if_splits redeem_outcome.splits
          boot_context_resolve_error.splits)
    then have "snd (enrollment_redeem eng sha256 draws mapped wire now ttl db) = db"
      by (auto simp: enrollment_redeem_def Inr split: prod.splits sum.splits redeem_outcome.splits)
    then show thesis by (rule unchanged)
  qed
qed (auto simp: enrollment_redeem_def intro: unchanged)

text \<open>The single-Endpoint updates behind one shape: decide on the loaded row, then persist.\<close>

lemma update_endpoint_cases:
  obtains (unchanged) "snd (update_endpoint i decide db) = db"
  | (committed) e outcome where "fmlookup (db_endpoints db) i = Some e" "decide e = Ok outcome"
      "persist_transition db outcome = Ok (snd (update_endpoint i decide db))"
  by (cases "load_by_id db i"; cases "decide (the (load_by_id db i))";
      cases "persist_transition db (projr (decide (the (load_by_id db i))))")
     (auto simp: update_endpoint_def load_by_id_def)

lemma establish_tx_cases:
  obtains (unchanged) "snd (establish_trusted_bootstrap_tx i decide db) = db"
  | (committed) e outcome where "fmlookup (db_endpoints db) i = Some e"
      "decide e = TrustEstablished outcome"
      "persist_transition db outcome = Ok (snd (establish_trusted_bootstrap_tx i decide db))"
proof -
  let ?db' = "snd (establish_trusted_bootstrap_tx i decide db)"
  have "?db' = db \<or> (\<exists>e outcome. fmlookup (db_endpoints db) i = Some e \<and>
      decide e = TrustEstablished outcome \<and> persist_transition db outcome = Ok ?db')"
    unfolding establish_trusted_bootstrap_tx_def load_by_id_def
    by (simp split: option.split trusted_bootstrap_outcome.split sum.split)
  then show thesis
    using unchanged committed by blast
qed

lemma approve_enrollment_OkD:
  "approve_enrollment new_v4 e operator now = Ok outcome \<Longrightarrow>
   ep_identity e = PendingEnrollment \<and>
   out_endpoint outcome = e\<lparr> ep_identity := Enrolled, ep_updated_at := now \<rparr>"
  by (auto simp: approve_enrollment_def identity_approve_Ok_iff Let_def split: sum.splits)

lemma establish_trusted_bootstrap_EstablishedD:
  "establish_trusted_bootstrap e n = TrustEstablished outcome \<Longrightarrow>
   \<exists>b. ep_current_boot e = Some b \<and> cb_boot_nonce b = n \<and>
       out_endpoint outcome = e\<lparr> ep_current_boot := Some (current_boot_establish b) \<rparr>"
  by (auto simp: establish_trusted_bootstrap_def split: option.splits if_splits)

text \<open>What a committed evidence step needed: the checks on the message and the current boot.\<close>

lemma verify_and_establish_cases:
  obtains (unchanged)
      "snd (verify_and_establish eng sha256 verify_strict accepted i evidence fingerprint db) = db"
  | (committed) e b a v outcome where "fmlookup (db_endpoints db) i = Some e"
      "ep_current_boot e = Some b"
      "assertion_parse_wire_value eng (evidence_bootstrap_assertion evidence) = Ok a"
      "verify sha256 verify_strict a accepted = Ok v"
      "verified_boot_nonce v = cb_boot_nonce b" "expected_server_fingerprint v = fingerprint"
      "out_endpoint outcome = e\<lparr> ep_current_boot := Some (current_boot_establish b) \<rparr>"
      "persist_transition db outcome =
         Ok (snd (verify_and_establish eng sha256 verify_strict accepted i evidence fingerprint db))"
proof -
  let ?r = "verify_and_establish eng sha256 verify_strict accepted i evidence fingerprint db"
  have "snd ?r = db \<or> (\<exists>a v.
      assertion_parse_wire_value eng (evidence_bootstrap_assertion evidence) = Ok a \<and>
      verify sha256 verify_strict a accepted = Ok v \<and> expected_server_fingerprint v = fingerprint \<and>
      snd ?r = snd (establish_trusted_bootstrap_tx i
        (\<lambda>e. establish_trusted_bootstrap e (verified_boot_nonce v)) db))"
    unfolding verify_and_establish_def
    by (simp split: sum.split prod.split trusted_bootstrap_outcome.split)
  then consider "snd ?r = db"
    | n a v where "assertion_parse_wire_value eng (evidence_bootstrap_assertion evidence) = Ok a"
        "verify sha256 verify_strict a accepted = Ok v"
        "verified_boot_nonce v = n" "expected_server_fingerprint v = fingerprint"
        "snd ?r = snd (establish_trusted_bootstrap_tx i (\<lambda>e. establish_trusted_bootstrap e n) db)"
    by blast
  then show thesis
  proof cases
    case 1
    then show thesis by (rule unchanged)
  next
    case (2 n a v)
    show thesis
    proof (rule establish_tx_cases [of i "\<lambda>e. establish_trusted_bootstrap e n" db])
      fix e outcome
      assume "fmlookup (db_endpoints db) i = Some e"
        and est: "establish_trusted_bootstrap e n = TrustEstablished outcome"
        and "persist_transition db outcome =
          Ok (snd (establish_trusted_bootstrap_tx i (\<lambda>e. establish_trusted_bootstrap e n) db))"
      then show thesis
        using 2 committed establish_trusted_bootstrap_EstablishedD [OF est] by metis
    qed (use 2 unchanged in auto)
  qed
qed

lemma chain_ids_revoke [simp]: "chain_ids (revoke c) = chain_ids c"
  by (simp add: chain_ids_def chain_slots_def revoke_def)

lemma insert_boot_context_inv:
  assumes inv: "enrollment_inv db" and ins: "insert_boot_context db c = Ok db'"
    and new: "bc_resolved_endpoint_id c = None"
  shows "enrollment_inv db'"
proof -
  let ?l = "bc_boot_context_id c"
  from ins have free: "fmlookup (db_contexts db) ?l = None"
    and db': "db' = db\<lparr> db_contexts := map_insert ?l c (db_contexts db) \<rparr>"
    by (auto simp: insert_boot_context_def split: if_splits)
  have "boots_ok db'"
    using inv free unfolding enrollment_inv_def boots_ok_def db'
    by auto (metis option.distinct(1))+
  with inv new show ?thesis
    by (auto simp: enrollment_inv_def db' endpoints_ok_def lookups_ok_def signals_ok_def
        contexts_ok_def)
qed

lemma enrollment_step_inv: "enrollment_inv db \<Longrightarrow> enrollment_inv (enrollment_step env db op)"
proof (cases op)
  case (OpIssue draws ttl signal nonce now)
  assume "enrollment_inv db"
  then show ?thesis
    unfolding OpIssue
    by (auto simp: issue_enrollment_credential_def boot_context_new_def Let_def
        intro: insert_boot_context_inv split: sum.splits)
next
  case (OpRedeem draws mapped wire now ttl)
  assume inv: "enrollment_inv db"
  show ?thesis
    unfolding OpRedeem enrollment_step.simps
    by (rule enrollment_redeem_cases [of "env_engine env" "env_sha256 env" draws mapped wire now ttl db])
       (use inv redeem_tx_inv [OF inv] in simp_all)
next
  case (OpApprove new_v4 i operator now)
  assume inv: "enrollment_inv db"
  let ?decide = "\<lambda>e. approve_enrollment new_v4 e operator now"
  have "enrollment_step env db op = snd (update_endpoint i ?decide db)"
    by (simp add: OpApprove service_approve_enrollment_def split: prod.split sum.split)
  then show ?thesis
    by (cases rule: update_endpoint_cases [of i ?decide db])
       (use inv in \<open>auto dest!: approve_enrollment_OkD intro: update_inv simp: boot_key_def\<close>)
next
  case (OpRevokeCredential i now)
  assume inv: "enrollment_inv db"
  let ?decide = "\<lambda>e. Ok (revoke_credential e now)"
  have "enrollment_step env db op = snd (update_endpoint i ?decide db)"
    by (simp add: OpRevokeCredential service_revoke_credential_def split: prod.split sum.split)
  then show ?thesis
    by (cases rule: update_endpoint_cases [of i ?decide db])
       (use inv in \<open>auto simp: revoke_credential_def boot_key_def intro: update_inv\<close>)
next
  case (OpEvidence i evidence fingerprint)
  assume inv: "enrollment_inv db"
  show ?thesis
    unfolding OpEvidence enrollment_step.simps
    by (rule verify_and_establish_cases [of "env_engine env" "env_sha256 env" "env_verify_strict env"
          "accepted_new (env_sha256 env) (env_site_keys env)" i evidence fingerprint db])
       (use inv in \<open>auto simp: boot_key_def current_boot_establish_def intro: update_inv\<close>)
qed

interpretation enrollment_machine: invariant_machine "\<lambda>db. db = empty_db"
    "\<lambda>db db'. \<exists>env op. db' = enrollment_step env db op" enrollment_inv
  by unfold_locales (auto simp: enrollment_inv_empty enrollment_step_inv)

lemma enrollment_run_reachable:
  "(\<lambda>db db'. \<exists>env op. db' = enrollment_step env db op)\<^sup>*\<^sup>* db (enrollment_run env db ops)"
proof (induction ops rule: rev_induct)
  case (snoc op ops)
  then show ?case by (auto intro: rtranclp.rtrancl_into_rtrancl)
qed simp

section \<open>Evolution of one Endpoint\<close>

text \<open>
  How a service step may change the row of an existing Endpoint. Trust in the current boot is
  treated apart, since it depends on the step taken.
\<close>

definition endpoint_evolves :: "endpoint_aggregate \<Rightarrow> endpoint_aggregate \<Rightarrow> bool" where
  "endpoint_evolves e e' \<longleftrightarrow>
     ep_id e' = ep_id e \<and> ep_inventory_signal e' = ep_inventory_signal e \<and>
     ep_hardware_confidence e' = ep_hardware_confidence e \<and>
     (ep_identity e' = ep_identity e \<or> (ep_identity e = PendingEnrollment \<and> ep_identity e' = Enrolled)) \<and>
     (chain_revoked (ep_credential e) \<longrightarrow>
        ep_credential e' = ep_credential e \<and> boot_key e' = boot_key e)"

lemma endpoint_evolves_refl [simp]: "endpoint_evolves e e"
  by (simp add: endpoint_evolves_def)

lemma endpoint_evolves_trans:
  "endpoint_evolves e f \<Longrightarrow> endpoint_evolves f g \<Longrightarrow> endpoint_evolves e g"
  by (auto simp: endpoint_evolves_def)

lemma persist_transition_evolves:
  assumes "persist_transition db outcome = Ok db'"
    and "fmlookup (db_endpoints db) i = Some e"
    and "ep_id (out_endpoint outcome) = i \<Longrightarrow>
      endpoint_evolves e ((out_endpoint outcome)\<lparr> ep_inventory_signal := ep_inventory_signal e \<rparr>)"
  shows "\<exists>e'. fmlookup (db_endpoints db') i = Some e' \<and> endpoint_evolves e e'"
proof (cases "ep_id (out_endpoint outcome) = i")
  case True
  show ?thesis
    by (rule persist_transition_OkD [OF assms(1)])
       (use assms(2,3) True in \<open>auto simp: boot_key_def endpoint_evolves_def\<close>)
next
  case False
  show ?thesis
    by (rule persist_transition_OkD [OF assms(1)]) (use assms(2) False in auto)
qed

lemma persist_redemption_endpoints:
  "persist_redemption db outcome res = Ok db' \<Longrightarrow>
   \<exists>db1. persist_transition db outcome = Ok db1 \<and> db_endpoints db' = db_endpoints db1"
  by (auto simp: persist_redemption_def persist_boot_context_resolution_def
      dest: persist_lookup_projection_OkD(3) split: sum.splits option.splits)

lemma redeem_tx_evolves:
  assumes inv: "enrollment_inv db" and e: "fmlookup (db_endpoints db) i = Some e"
    and fresh: "fmlookup (db_endpoints db) (EndpointId (draw_uuids draws 0)) = None"
    and tx: "redeem_tx sha256 draws mapped p now ttl db =
      (Ok (RedeemEstablished outcome issued expires first conf res), db')"
  shows "\<exists>e'. fmlookup (db_endpoints db') i = Some e' \<and> endpoint_evolves e e'"
    and "chain_revoked (ep_credential e) \<Longrightarrow> ep_id (out_endpoint outcome) \<noteq> i"
proof -
  have "(\<exists>e'. fmlookup (db_endpoints db') i = Some e' \<and> endpoint_evolves e e') \<and>
    (chain_revoked (ep_credential e) \<longrightarrow> ep_id (out_endpoint outcome) \<noteq> i)"
    using tx
  proof (cases rule: redeem_tx_EstablishedD)
    case (rotate j f chain)
    obtain db1 where db1: "persist_transition db outcome = Ok db1" "db_endpoints db' = db_endpoints db1"
      using persist_redemption_endpoints [OF rotate(6)] by blast
    have "ep_id f = j" using rotate(1) inv by (simp add: enrollment_inv_defs)
    moreover have "\<not> chain_revoked (ep_credential f)"
      using rotate(2) by (auto simp: authenticate_def split: if_splits)
    ultimately have "ep_id (out_endpoint outcome) = i \<Longrightarrow> \<not> chain_revoked (ep_credential e) \<and>
        endpoint_evolves e ((out_endpoint outcome)\<lparr> ep_inventory_signal := ep_inventory_signal e \<rparr>)"
      using rotate(1,3) e by (auto simp: endpoint_evolves_def)
    then show ?thesis
      using persist_transition_evolves [OF db1(1) e] db1(2) by auto
  next
    case (enroll c)
    obtain db1 where db1: "persist_transition db outcome = Ok db1" "db_endpoints db' = db_endpoints db1"
      using persist_redemption_endpoints [OF enroll(4)] by blast
    have "ep_id (out_endpoint outcome) \<noteq> i"
      using first_contact_EstablishedD [OF enroll(3)] fresh e by auto
    then show ?thesis
      using persist_transition_evolves [OF db1(1) e] db1(2) by auto
  next
    case (reboot c f)
    obtain db1 where db1: "persist_transition db outcome = Ok db1" "db_endpoints db' = db_endpoints db1"
      using persist_redemption_endpoints [OF reboot(4)] by blast
    obtain j where "fmlookup (db_endpoints db) j = Some f"
      using load_by_signal_SomeD [OF reboot(2)] by blast
    moreover have "ep_id f = j" using calculation inv by (simp add: enrollment_inv_defs)
    ultimately have "ep_id (out_endpoint outcome) = i \<Longrightarrow> \<not> chain_revoked (ep_credential e) \<and>
        endpoint_evolves e ((out_endpoint outcome)\<lparr> ep_inventory_signal := ep_inventory_signal e \<rparr>)"
      using genuine_reboot_EstablishedD [OF reboot(3)] e by (auto simp: endpoint_evolves_def)
    then show ?thesis
      using persist_transition_evolves [OF db1(1) e] db1(2) by auto
  qed
  then show "\<exists>e'. fmlookup (db_endpoints db') i = Some e' \<and> endpoint_evolves e e'"
    and "chain_revoked (ep_credential e) \<Longrightarrow> ep_id (out_endpoint outcome) \<noteq> i"
    by blast+
qed

text \<open>
  The identifiers a run draws for new Endpoints do not collide with an existing row: the
  documented property of random version 4 identifiers that the services rely on.
\<close>

fun op_id_fresh :: "enrollment_db \<Rightarrow> enrollment_op \<Rightarrow> bool" where
  "op_id_fresh db (OpRedeem draws _ _ _ _) =
     (fmlookup (db_endpoints db) (EndpointId (draw_uuids draws 0)) = None)"
| "op_id_fresh db _ = True"

fun ids_fresh :: "environment \<Rightarrow> enrollment_db \<Rightarrow> enrollment_op list \<Rightarrow> bool" where
  "ids_fresh env db [] = True"
| "ids_fresh env db (op # ops) = (op_id_fresh db op \<and> ids_fresh env (enrollment_step env db op) ops)"

lemma enrollment_step_evolves:
  assumes inv: "enrollment_inv db" and e: "fmlookup (db_endpoints db) i = Some e"
    and fresh: "op_id_fresh db op"
  shows "\<exists>e'. fmlookup (db_endpoints (enrollment_step env db op)) i = Some e' \<and> endpoint_evolves e e'"
proof (cases op)
  case (OpIssue draws ttl signal nonce now)
  then show ?thesis
    using e by (auto simp: issue_enrollment_credential_def insert_boot_context_def Let_def
        split: sum.splits if_splits)
next
  case (OpRedeem draws mapped wire now ttl)
  show ?thesis
    unfolding OpRedeem enrollment_step.simps
    by (rule enrollment_redeem_cases [of "env_engine env" "env_sha256 env" draws mapped wire now ttl db])
       (use e fresh redeem_tx_evolves(1) [OF inv e] OpRedeem in auto)
next
  case (OpApprove new_v4 j operator now)
  let ?decide = "\<lambda>e. approve_enrollment new_v4 e operator now"
  have step: "enrollment_step env db op = snd (update_endpoint j ?decide db)"
    by (simp add: OpApprove service_approve_enrollment_def split: prod.split sum.split)
  show ?thesis
    unfolding step
  proof (cases rule: update_endpoint_cases [of j ?decide db])
    case (committed f outcome)
    then show "\<exists>e'. fmlookup (db_endpoints (snd (update_endpoint j ?decide db))) i = Some e' \<and>
        endpoint_evolves e e'"
      using e inv approve_enrollment_OkD [OF committed(2)]
      by (intro persist_transition_evolves [OF committed(3) e])
         (auto simp: endpoint_evolves_def enrollment_inv_defs boot_key_def)
  qed (use e in simp)
next
  case (OpRevokeCredential j now)
  let ?decide = "\<lambda>e. Ok (revoke_credential e now)"
  have step: "enrollment_step env db op = snd (update_endpoint j ?decide db)"
    by (simp add: OpRevokeCredential service_revoke_credential_def split: prod.split sum.split)
  show ?thesis
    unfolding step
  proof (cases rule: update_endpoint_cases [of j ?decide db])
    case (committed f outcome)
    then show "\<exists>e'. fmlookup (db_endpoints (snd (update_endpoint j ?decide db))) i = Some e' \<and>
        endpoint_evolves e e'"
      using e inv
      by (intro persist_transition_evolves [OF committed(3) e])
         (auto simp: endpoint_evolves_def enrollment_inv_defs boot_key_def revoke_credential_def
           revoke_def)
  qed (use e in simp)
next
  case (OpEvidence j evidence fingerprint)
  let ?accepted = "accepted_new (env_sha256 env) (env_site_keys env)"
  show ?thesis
    unfolding OpEvidence enrollment_step.simps
  proof (cases rule: verify_and_establish_cases [of "env_engine env" "env_sha256 env"
        "env_verify_strict env" ?accepted j evidence fingerprint db])
    case (committed f b a v outcome)
    then show "\<exists>e'. fmlookup (db_endpoints (snd (verify_and_establish (env_engine env)
        (env_sha256 env) (env_verify_strict env) ?accepted j evidence fingerprint db))) i = Some e' \<and>
        endpoint_evolves e e'"
      using e inv
      by (intro persist_transition_evolves [OF committed(8) e])
         (auto simp: endpoint_evolves_def enrollment_inv_defs boot_key_def current_boot_establish_def)
  qed (use e in simp)
qed

lemma enrollment_run_evolves:
  "enrollment_inv db \<Longrightarrow> fmlookup (db_endpoints db) i = Some e \<Longrightarrow> ids_fresh env db ops \<Longrightarrow>
   \<exists>e'. fmlookup (db_endpoints (enrollment_run env db ops)) i = Some e' \<and> endpoint_evolves e e'"
proof (induction ops arbitrary: db e)
  case (Cons op ops)
  then obtain f where "fmlookup (db_endpoints (enrollment_step env db op)) i = Some f"
    "endpoint_evolves e f"
    using enrollment_step_evolves by (metis ids_fresh.simps(2))
  then show ?case
    using Cons enrollment_step_inv [of db env op] endpoint_evolves_trans by fastforce
qed auto

lemma enrollment_run_inv: "enrollment_inv db \<Longrightarrow> enrollment_inv (enrollment_run env db ops)"
  using enrollment_machine.inv_run enrollment_run_reachable by blast

end
