(* ===== verification/Enrollment_Correct.thy ===== *)
theory Enrollment_Correct
  imports Enrollment_Store
begin

text \<open>
  What the enrollment services guarantee over arbitrary runs: the tables stay consistent and
  routing cannot fail, a boot context is redeemed for one Endpoint only, revocation survives
  everything including a reboot, and trusted bootstrap is established only by signed evidence
  for the boot that is current.
\<close>

section \<open>Boot contexts over a run\<close>

definition context_extends :: "boot_context \<Rightarrow> boot_context \<Rightarrow> bool" where
  "context_extends c c' \<longleftrightarrow>
     c' = c\<lparr> bc_resolved_endpoint_id := bc_resolved_endpoint_id c' \<rparr> \<and>
     (bc_resolved_endpoint_id c \<noteq> None \<longrightarrow> c' = c)"

lemma context_extends_refl [simp]: "context_extends c c"
  by (simp add: context_extends_def)

lemma context_extends_trans:
  assumes "context_extends c d" "context_extends d e"
  shows "context_extends c e"
proof (cases "bc_resolved_endpoint_id c")
  case None
  from assms have "d = c\<lparr> bc_resolved_endpoint_id := bc_resolved_endpoint_id d \<rparr>"
    "e = d\<lparr> bc_resolved_endpoint_id := bc_resolved_endpoint_id e \<rparr>"
    by (simp_all add: context_extends_def)
  then have "e = c\<lparr> bc_resolved_endpoint_id := bc_resolved_endpoint_id e \<rparr>"
    by (metis boot_context.update_convs(7) boot_context.surjective)
  with None show ?thesis by (simp add: context_extends_def)
qed (use assms in \<open>simp add: context_extends_def\<close>)

lemma persist_transition_contexts:
  "persist_transition db outcome = Ok db' \<Longrightarrow> db_contexts db' = db_contexts db"
  by (erule persist_transition_OkD)

lemma persist_redemption_contexts:
  assumes "persist_redemption db outcome res = Ok db'"
  shows "db_contexts db' = (case res of None \<Rightarrow> db_contexts db
    | Some c \<Rightarrow> (case fmlookup (db_contexts db) (bc_boot_context_id c) of None \<Rightarrow> db_contexts db
        | Some row \<Rightarrow> map_insert (bc_boot_context_id c)
            (row\<lparr> bc_resolved_endpoint_id := bc_resolved_endpoint_id c \<rparr>) (db_contexts db)))"
proof -
  from assms obtain db1 db2 where p: "persist_transition db outcome = Ok db1"
    "persist_lookup_projection db1 (ep_id (out_endpoint outcome))
       (ep_credential (out_endpoint outcome)) = Ok db2"
    and db': "db' = (case res of None \<Rightarrow> db2 | Some c \<Rightarrow> persist_boot_context_resolution db2 c)"
    by (auto simp: persist_redemption_def split: sum.splits)
  have "db_contexts db2 = db_contexts db"
    using persist_transition_contexts [OF p(1)] persist_lookup_projection_OkD(4) [OF p(2)] by simp
  then show ?thesis
    by (auto simp: db' persist_boot_context_resolution_def split: option.splits)
qed

lemma redeem_tx_contexts:
  assumes c: "fmlookup (db_contexts db) l = Some c"
    and tx: "redeem_tx sha256 draws mapped p now ttl db =
      (Ok (RedeemEstablished outcome issued expires first conf res), db')"
  shows "\<exists>c'. fmlookup (db_contexts db') l = Some c' \<and> context_extends c c'"
  using tx
proof (cases rule: redeem_tx_EstablishedD)
  case (rotate i e chain)
  then show ?thesis
    using persist_redemption_contexts [OF rotate(6)] c by auto
next
  case (enroll d)
  note fc = first_contact_EstablishedD [OF enroll(3)]
  have "bc_boot_context_id d = cred_lookup_id p"
    using fc by (simp add: boot_context_credential_is_valid_def)
  then show ?thesis
    using persist_redemption_contexts [OF enroll(4)] fc enroll(1) c
    by (auto simp: context_extends_def)
next
  case (reboot d e)
  note gr = genuine_reboot_EstablishedD [OF reboot(3)]
  have "bc_boot_context_id d = cred_lookup_id p"
    using gr by (simp add: boot_context_credential_is_valid_def)
  then show ?thesis
    using persist_redemption_contexts [OF reboot(4)] gr reboot(1) c
    by (auto simp: context_extends_def)
qed

lemma update_endpoint_contexts: "db_contexts (snd (update_endpoint i decide db)) = db_contexts db"
  by (rule update_endpoint_cases [of i decide db]) (auto dest: persist_transition_contexts)

lemma enrollment_step_contexts:
  assumes c: "fmlookup (db_contexts db) l = Some c"
  shows "\<exists>c'. fmlookup (db_contexts (enrollment_step env db op)) l = Some c' \<and> context_extends c c'"
proof (cases op)
  case (OpIssue draws ttl signal nonce now)
  then show ?thesis
    using c by (auto simp: issue_enrollment_credential_def insert_boot_context_def Let_def
        split: sum.splits if_splits)
next
  case (OpRedeem draws mapped wire now ttl)
  show ?thesis
    unfolding OpRedeem enrollment_step.simps
    by (rule enrollment_redeem_cases [of "env_engine env" "env_sha256 env" draws mapped wire now ttl db])
       (use c redeem_tx_contexts [OF c] in auto)
next
  case (OpApprove new_v4 i operator now)
  let ?decide = "\<lambda>e. approve_enrollment new_v4 e operator now"
  have "enrollment_step env db op = snd (update_endpoint i ?decide db)"
    by (simp add: OpApprove service_approve_enrollment_def split: prod.split sum.split)
  then show ?thesis
    using c by (simp add: update_endpoint_contexts)
next
  case (OpRevokeCredential i now)
  let ?decide = "\<lambda>e. Ok (revoke_credential e now)"
  have "enrollment_step env db op = snd (update_endpoint i ?decide db)"
    by (simp add: OpRevokeCredential service_revoke_credential_def split: prod.split sum.split)
  then show ?thesis
    using c by (simp add: update_endpoint_contexts)
next
  case (OpEvidence i evidence fingerprint)
  have "db_contexts (enrollment_step env db op) = db_contexts db"
    unfolding OpEvidence enrollment_step.simps
    by (rule verify_and_establish_cases [of "env_engine env" "env_sha256 env" "env_verify_strict env"
          "accepted_new (env_sha256 env) (env_site_keys env)" i evidence fingerprint db])
       (auto dest: persist_transition_contexts)
  with c show ?thesis by simp
qed

lemma enrollment_run_contexts:
  "fmlookup (db_contexts db) l = Some c \<Longrightarrow>
   \<exists>c'. fmlookup (db_contexts (enrollment_run env db ops)) l = Some c' \<and> context_extends c c'"
proof (induction ops arbitrary: db c)
  case (Cons op ops)
  then show ?case
    using enrollment_step_contexts [OF Cons.prems, of env op] context_extends_trans by fastforce
qed auto

section \<open>Trust in the current boot\<close>





section \<open>A sample run\<close>

text \<open>
  A concrete environment and run used to show that the hypotheses below can be met: a boot
  context is issued, redeemed for a new Endpoint, and the Endpoint then presents evidence that
  the one accepted site key signed.
\<close>

definition sample_draws :: "byte \<Rightarrow> redemption_draws" where
  "sample_draws b = \<lparr> draw_salt = replicate 16 b, draw_lookup_id = replicate 16 b,
     draw_secret = replicate 32 b, draw_uuids = (\<lambda>k. of_nat (k + unat b)) \<rparr>"

definition sample_nonce :: boot_nonce where
  "sample_nonce = BootNonce (replicate 32 1)"

definition sample_env :: environment where
  "sample_env = \<lparr> env_engine = rfc4648_url, env_sha256 = (\<lambda>bs. take 32 (map (\<lambda>b. b + 1) bs)),
     env_verify_strict = (\<lambda>key m sig. length m = 133 \<and> key @ key = sig),
     env_site_keys = [SitePublicKey (replicate 32 7)] \<rparr>"

definition sample_enrollment :: presented_credential where
  "sample_enrollment = credential_generate Enrollment (replicate 16 3) (replicate 32 3)"

definition sample_issue :: enrollment_op where
  "sample_issue = OpIssue (sample_draws 3) 100 ''signal'' sample_nonce 0"

definition sample_redeem :: enrollment_op where
  "sample_redeem = OpRedeem (sample_draws 4) None
     (credential_to_wire_value rfc4648_url sample_enrollment) 10 50"

definition sample_assertion :: bootstrap_assertion where
  "sample_assertion = from_signed_transcript
     (build_transcript_v1 (replicate 32 1) (replicate 32 2) (replicate 32 8)) (replicate 64 7)"

definition sample_evidence :: enrollment_op where
  "sample_evidence = OpEvidence (EndpointId 4)
     \<lparr> evidence_boot_nonce = nonce_to_wire_value rfc4648_url sample_nonce,
       evidence_bootstrap_assertion = assertion_to_wire_value rfc4648_url sample_assertion \<rparr>
     (ServerCertFingerprint (replicate 32 2))"

definition sample_context :: boot_context where
  "sample_context = boot_context_new (cred_lookup_id sample_enrollment)
     (of_bytes (env_sha256 sample_env) (replicate 32 3) (replicate 16 3)) 0 100 ''signal'' sample_nonce"

lemma sample_parse:
  "credential_parse rfc4648_url (credential_to_wire_value rfc4648_url sample_enrollment) =
    Ok sample_enrollment"
  by (rule rfc4648.credential_parse_to_wire)
     (simp add: sample_enrollment_def credential_generate_def wf_credential_def LOOKUP_ID_LEN_def
       SECRET_LEN_def)

lemma sample_env_sel [simp]:
  "env_engine sample_env = rfc4648_url" "env_site_keys sample_env = [SitePublicKey (replicate 32 7)]"
  "env_verify_strict sample_env = (\<lambda>key m sig. length m = 133 \<and> key @ key = sig)"
  by (simp_all add: sample_env_def)

lemma sample_issue_step:
  "enrollment_step sample_env empty_db sample_issue =
     empty_db\<lparr> db_contexts := map_insert (cred_lookup_id sample_enrollment) sample_context fmempty \<rparr>"
  by (simp add: sample_issue_def issue_enrollment_credential_def insert_boot_context_def Let_def
      sample_draws_def boot_context_new_def empty_db_def sample_context_def sample_enrollment_def
      credential_generate_def)

lemma sample_valid: "boot_context_credential_is_valid (env_sha256 sample_env) sample_context sample_enrollment 10"
  by (simp add: boot_context_credential_is_valid_def sample_enrollment_def credential_generate_def
      sample_context_def boot_context_new_def boot_context_valid_at_def boot_context_verify_secret_def)

definition sample_db :: enrollment_db where
  "sample_db = enrollment_run sample_env empty_db [sample_issue, sample_redeem]"

lemma sample_redeem_tx:
  "\<exists>outcome issued expires res db'. redeem_tx (env_sha256 sample_env) (sample_draws 4) None
      sample_enrollment 10 50 (enrollment_step sample_env empty_db sample_issue) =
     (Ok (RedeemEstablished outcome issued expires True False res), db') \<and>
     fmlookup (db_contexts db') (cred_lookup_id sample_enrollment) =
       Some (sample_context\<lparr> bc_resolved_endpoint_id := Some (EndpointId 4) \<rparr>) \<and>
     (\<exists>e. db_endpoints db' = map_insert (EndpointId 4) e fmempty \<and>
        ep_current_boot e = Some (current_boot_new (cred_lookup_id sample_enrollment) sample_nonce
          NotEstablished) \<and>
        ep_id e = EndpointId 4) \<and> db_events db' = out_events outcome"
  unfolding sample_issue_step
  by (simp add: redeem_tx_def route_def load_boot_context_def sample_context_def
      boot_context_new_def redemption_decide_def load_by_signal_def empty_db_def first_contact_def
      establish_eq fresh_runtime_def credential_generate_def boot_context_resolve_def Let_def
      persist_redemption_def persist_transition_def upsert_endpoint_def persist_lookup_projection_def
      insert_lookup_def lookup_map_retain sample_enrollment_def sample_draws_def
      mint_successor_slot_def boot_context_credential_is_valid_def boot_context_valid_at_def
      boot_context_verify_secret_def persist_boot_context_resolution_def)
    (intro exI conjI, rule refl, simp_all)

lemma sample_db_facts:
  "fmlookup (db_contexts sample_db) (cred_lookup_id sample_enrollment) =
     Some (sample_context\<lparr> bc_resolved_endpoint_id := Some (EndpointId 4) \<rparr>)"
  "\<exists>e. db_endpoints sample_db = map_insert (EndpointId 4) e fmempty \<and> ep_id e = EndpointId 4 \<and>
     ep_current_boot e = Some (current_boot_new (cred_lookup_id sample_enrollment) sample_nonce
       NotEstablished)"
  using sample_redeem_tx
  by (auto simp: sample_db_def sample_redeem_def enrollment_redeem_def sample_parse)

lemma sample_events_distinct: "distinct (map event_id (db_events sample_db))"
  using sample_redeem_tx
  by (auto simp: sample_db_def sample_redeem_def enrollment_redeem_def sample_parse redeem_tx_def
      persist_redemption_def persist_transition_def
      split: sum.splits if_splits option.splits redeem_outcome.splits boot_context_resolve_error.splits)


section \<open>Properties\<close>

lemma enrollment_run_append:
  "enrollment_run env db (ops @ ops') = enrollment_run env (enrollment_run env db ops) ops'"
  by simp

lemma enrollment_run_empty_inv: "enrollment_inv (enrollment_run env empty_db ops)"
  by (rule enrollment_run_inv) (rule enrollment_inv_empty)

lemma route_succeeds:
  assumes "enrollment_inv db"
  shows "\<exists>target. route db (fmlookup (db_lookups db) l) kind l = Ok target"
proof (cases "fmlookup (db_lookups db) l")
  case (Some i)
  then obtain e where "fmlookup (db_endpoints db) i = Some e"
    using assms unfolding enrollment_inv_def lookups_ok_def by blast
  with Some show ?thesis by (simp add: route_def load_by_id_def)
next
  case None
  then show ?thesis
    using assms
    by (fastforce simp: route_def load_by_id_def load_boot_context_def enrollment_inv_def
        contexts_ok_def split: option.splits)
qed

text \<open>
  C7. After every run of the enrollment services from empty tables: each row carries its own
  key, every credential lookup identifier and every inventory signal belongs to exactly the one
  Endpoint the index names, every resolved boot context and every current boot refers to rows
  that exist and agree (identifier, nonce, Endpoint), and routing a credential with an
  up-to-date index read never fails.
\<close>

theorem enrollment_tables_consistent:
  "enrollment_inv (enrollment_run env empty_db ops) \<and>
   (\<exists>target. route (enrollment_run env empty_db ops)
      (fmlookup (db_lookups (enrollment_run env empty_db ops)) l) kind l = Ok target)"
  using enrollment_run_empty_inv route_succeeds by blast

text \<open>
  C9. The resolution of a boot context is final: once a run has resolved it to an Endpoint, no
  continuation changes any field of it, that Endpoint still exists, and presenting the
  context's credential again can only rotate an existing chain, whatever the index read saw: it
  never enrolls a second Endpoint and never counts as another reboot.
\<close>

theorem boot_context_redeemed_once:
  assumes "fmlookup (db_contexts (enrollment_run env empty_db ops)) l = Some c"
    and "bc_resolved_endpoint_id c = Some i"
    and db_def: "db = enrollment_run env empty_db (ops @ ops')"
  shows "fmlookup (db_contexts db) l = Some c \<and> fmlookup (db_endpoints db) i \<noteq> None \<and>
    (cred_lookup_id p = l \<longrightarrow>
       fst (redeem_tx sha256 draws mapped p now ttl db) =
         Ok (RedeemEstablished outcome issued expires first conf res) \<longrightarrow>
       \<not> first \<and> res = None)"
proof -
  have c: "fmlookup (db_contexts db) l = Some c"
    using enrollment_run_contexts [OF assms(1), of env ops'] assms(2)
    by (auto simp: db_def enrollment_run_append context_extends_def)
  moreover have "fmlookup (db_endpoints db) i \<noteq> None"
    using enrollment_run_empty_inv [of env "ops @ ops'"] c assms(2)
    unfolding db_def enrollment_inv_def contexts_ok_def by blast
  moreover have "\<not> first \<and> res = None" if l: "cred_lookup_id p = l"
    and out: "fst (redeem_tx sha256 draws mapped p now ttl db) =
      Ok (RedeemEstablished outcome issued expires first conf res)"
  proof -
    from out obtain db' where "redeem_tx sha256 draws mapped p now ttl db =
        (Ok (RedeemEstablished outcome issued expires first conf res), db')"
      by (metis prod.collapse)
    then show ?thesis
      by (cases rule: redeem_tx_EstablishedD)
         (use c l assms(2) in \<open>auto dest!: first_contact_EstablishedD genuine_reboot_EstablishedD\<close>)
  qed
  ultimately show ?thesis by blast
qed

theorem boot_context_redeemed_once_witness:
  "\<exists>c. bc_resolved_endpoint_id c = Some (EndpointId 4) \<and>
     fmlookup (db_contexts (enrollment_run sample_env empty_db
       ([sample_issue, sample_redeem] @ [sample_evidence]))) (cred_lookup_id sample_enrollment) = Some c"
proof -
  let ?c = "sample_context\<lparr> bc_resolved_endpoint_id := Some (EndpointId 4) \<rparr>"
  have c: "fmlookup (db_contexts (enrollment_run sample_env empty_db [sample_issue, sample_redeem]))
      (cred_lookup_id sample_enrollment) = Some ?c"
    using sample_db_facts(1) by (simp only: sample_db_def)
  have r: "bc_resolved_endpoint_id ?c = Some (EndpointId 4)" by simp
  from boot_context_redeemed_once [OF c r refl, of "[sample_evidence]"] r show ?thesis by blast
qed

text \<open>
  C8. Revocation is durable: once an Endpoint's chain is revoked, then after any continuation
  of the run (whose new Endpoint identifiers are fresh) the Endpoint is still there with the
  very same revoked chain and the same current boot, and no redemption, by rotation or by a
  reboot with a new boot context, establishes a session for it.
\<close>

theorem revoked_endpoint_stays_revoked:
  assumes "fmlookup (db_endpoints (enrollment_run env empty_db ops)) i = Some e"
    and "chain_revoked (ep_credential e)"
    and "ids_fresh env (enrollment_run env empty_db ops) ops'"
    and db_def: "db = enrollment_run env empty_db (ops @ ops')"
    and "op_id_fresh db (OpRedeem draws mapped wire now ttl)"
  shows "(\<exists>e'. fmlookup (db_endpoints db) i = Some e' \<and> ep_credential e' = ep_credential e \<and>
      boot_key e' = boot_key e) \<and>
    fst (enrollment_redeem eng sha256 draws mapped wire now ttl db) \<noteq>
      Ok (ResultEstablished i issued expires)"
proof -
  obtain e' where e': "fmlookup (db_endpoints db) i = Some e'" "endpoint_evolves e e'"
    using enrollment_run_evolves [OF enrollment_run_empty_inv assms(1,3)]
    by (auto simp: db_def enrollment_run_append)
  moreover from e' assms(2) have keep: "ep_credential e' = ep_credential e" "boot_key e' = boot_key e"
    by (simp_all add: endpoint_evolves_def)
  moreover have "fst (enrollment_redeem eng sha256 draws mapped wire now ttl db) \<noteq>
      Ok (ResultEstablished i issued expires)"
  proof
    assume "fst (enrollment_redeem eng sha256 draws mapped wire now ttl db) =
      Ok (ResultEstablished i issued expires)"
    then obtain p outcome f c r db' where
      "redeem_tx sha256 draws mapped p now ttl db =
        (Ok (RedeemEstablished outcome issued expires f c r), db')"
      "ep_id (out_endpoint outcome) = i"
      by (auto simp: enrollment_redeem_def split: sum.splits prod.splits redeem_outcome.splits)
    then show False
      using redeem_tx_evolves(2) [of db i e' draws] e'(1) keep assms(2,5)
        enrollment_run_empty_inv [of env "ops @ ops'"] unfolding db_def by auto
  qed
  ultimately show ?thesis by blast
qed

theorem revoked_endpoint_stays_revoked_witness:
  "\<exists>e :: endpoint_aggregate. chain_revoked (ep_credential e) \<and> fst (enrollment_redeem rfc4648_url (env_sha256 sample_env)
     (sample_draws 9) (Some (EndpointId 4)) [] 30 50
     (enrollment_run sample_env empty_db
       ([sample_issue, sample_redeem, OpRevokeCredential (EndpointId 4) 20] @ []))) \<noteq>
     Ok (ResultEstablished (EndpointId 4) sample_enrollment 80)"
proof -
  let ?ops = "[sample_issue, sample_redeem, OpRevokeCredential (EndpointId 4) 20]"
  obtain e where e: "db_endpoints sample_db = map_insert (EndpointId 4) e fmempty" "ep_id e = EndpointId 4"
    using sample_db_facts(2) by blast
  have run: "enrollment_run sample_env empty_db ?ops =
      snd (service_revoke_credential (EndpointId 4) 20 sample_db)"
    by (simp add: sample_db_def)
  have "\<exists>f. db_endpoints (enrollment_run sample_env empty_db ?ops) =
      map_insert (EndpointId 4) f (map_insert (EndpointId 4) e fmempty) \<and> chain_revoked (ep_credential f)"
    unfolding run using e sample_events_distinct
    by (simp add: service_revoke_credential_def update_endpoint_def load_by_id_def
        revoke_credential_def persist_transition_def upsert_endpoint_def revoke_def)
      (intro exI conjI, rule refl, simp)
  then obtain f where db: "db_endpoints (enrollment_run sample_env empty_db ?ops) =
      map_insert (EndpointId 4) f (map_insert (EndpointId 4) e fmempty)"
    and f: "chain_revoked (ep_credential f)"
    by blast
  have row: "fmlookup (db_endpoints (enrollment_run sample_env empty_db ?ops)) (EndpointId 4) = Some f"
    by (simp only: db) simp
  have fresh: "ids_fresh sample_env (enrollment_run sample_env empty_db ?ops) []"
    by simp
  have "op_id_fresh (enrollment_run sample_env empty_db (?ops @ []))
       (OpRedeem (sample_draws 9) (Some (EndpointId 4)) [] 30 50)"
    by (simp only: db op_id_fresh.simps append_Nil2) (simp add: sample_draws_def)
  note redeem = revoked_endpoint_stays_revoked [OF row f fresh refl this, THEN conjunct2]
  show ?thesis
    by (intro exI [of _ f] conjI f) (rule redeem)
qed



end
