(* ===== verification/Job_Model.thy ===== *)
theory Job_Model
  imports Endpoint_Model
begin

text \<open>
  Jobs, their ordered JobSteps and the Attempts that execute them, with the pure decisions of
  \<open>src/crates/domain/src/job.rs\<close> and \<open>attempt.rs\<close>: workflow creation, destructive intent,
  admission and preliminary eligibility. \<open>linear\<close> is the shape every step list keeps: a prefix
  of succeeded steps, at most one step in another state, and a suffix of pending steps.

  The \<open>i32\<close> order of a step is an integer wrapped by \<open>as_i32\<close>, the cast the code applies to
  the \<open>usize\<close> position.
\<close>

section \<open>Data\<close>

datatype job_state = J_Pending | J_Running | J_Cancelling | J_Succeeded | J_Failed | J_Cancelled

datatype job_step_state =
  S_Pending | S_PreconditionsSatisfied | S_Dispatching | S_Succeeded | S_Failed | S_Cancelled

datatype job_step_failure_reason =
  DispatchRejected | ExecutionFailed | ReconciliationIndeterminate

record destructive_intent =
  authorized_inventory_revision_id :: inventory_revision_id
  authorized_target_fingerprint :: target_fingerprint

record job_step =
  js_id :: job_step_id
  js_job_id :: job_id
  js_order :: int
  js_state :: job_step_state
  js_destructive_intent :: "destructive_intent option"
  js_failure_reason :: "job_step_failure_reason option"

record job =
  jb_id :: job_id
  jb_endpoint_id :: endpoint_id
  jb_state :: job_state
  jb_steps :: "job_step list"

datatype attempt_state =
    A_Dispatched | A_InProgress | A_AwaitingReconciliation
  | A_Succeeded | A_Failed | A_Cancelled | A_Rejected | A_Indeterminate

record attempt =
  at_id :: attempt_id
  at_job_step_id :: job_step_id
  at_action_id :: action_id
  at_state :: attempt_state

datatype empty_workflow = EmptyWorkflow

datatype destructive_intent_error = WrongJob | NotEligible | AlreadyAuthorized

record job_admission_outcome =
  ad_job :: job
  ad_event :: domain_event

datatype job_admission_error = NotPending

datatype job_step_eligibility_error = JobNotRunning | StepNotFound | NotCurrent

section \<open>Decisions\<close>

definition as_i32 :: "nat \<Rightarrow> int" where
  "as_i32 n = (int n + 2 ^ 31) mod 2 ^ 32 - 2 ^ 31"

definition create_workflow ::
  "uuid_source \<Rightarrow> endpoint_id \<Rightarrow> nat \<Rightarrow> empty_workflow + job" where
  "create_workflow new_v4 endpoint_id step_count =
     (if step_count = 0 then Err EmptyWorkflow
      else let job_id = JobId (new_v4 0) in
        Ok \<lparr> jb_id = job_id, jb_endpoint_id = endpoint_id, jb_state = J_Pending,
             jb_steps = map (\<lambda>ord. \<lparr> js_id = JobStepId (new_v4 (Suc ord)), js_job_id = job_id,
               js_order = as_i32 ord, js_state = S_Pending, js_destructive_intent = None,
               js_failure_reason = None \<rparr>) [0..<step_count] \<rparr>)"

definition authorize_destructive_intent ::
  "job_step \<Rightarrow> job_id \<Rightarrow> inventory_revision_id \<Rightarrow> target_fingerprint
    \<Rightarrow> destructive_intent_error + destructive_intent" where
  "authorize_destructive_intent step job revision target =
     (if js_job_id step \<noteq> job then Err WrongJob
      else if js_state step \<noteq> S_Pending then Err NotEligible
      else if js_destructive_intent step \<noteq> None then Err AlreadyAuthorized
      else Ok \<lparr> authorized_inventory_revision_id = revision,
                authorized_target_fingerprint = target \<rparr>)"

definition admit_job ::
  "uuid_source \<Rightarrow> job \<Rightarrow> time \<Rightarrow> job_admission_error + job_admission_outcome" where
  "admit_job new_v4 job now =
     (if jb_state job \<noteq> J_Pending then Err NotPending
      else Ok \<lparr> ad_job = job\<lparr> jb_state := J_Running \<rparr>,
                ad_event = JobStarted (new_v4 0) (jb_id job) (jb_endpoint_id job) now \<rparr>)"

definition earlier_steps_all_succeeded :: "job \<Rightarrow> job_step \<Rightarrow> bool" where
  "earlier_steps_all_succeeded job candidate =
     list_all (\<lambda>step. js_state step = S_Succeeded)
       (filter (\<lambda>step. js_order step < js_order candidate) (jb_steps job))"

definition find_step :: "job_step_id \<Rightarrow> job \<Rightarrow> job_step option" where
  "find_step sid job = find (\<lambda>step. js_id step = sid) (jb_steps job)"

definition satisfy_preliminary_preconditions ::
  "job \<Rightarrow> job_step_id \<Rightarrow> job_step_eligibility_error + job_step" where
  "satisfy_preliminary_preconditions job step_id =
     (if jb_state job \<noteq> J_Running then Err JobNotRunning
      else case find_step step_id job of
        None \<Rightarrow> Err StepNotFound
      | Some candidate \<Rightarrow>
          if js_state candidate \<noteq> S_Pending then Err NotCurrent
          else if \<not> earlier_steps_all_succeeded job candidate then Err NotCurrent
          else Ok (candidate\<lparr> js_state := S_PreconditionsSatisfied \<rparr>))"

text \<open>
  \<open>replace_step\<close> occurs with the same body in \<open>action_evidence.rs\<close>, \<open>cancellation.rs\<close> and
  \<open>reconciliation.rs\<close>.
\<close>

definition replace_step :: "job_step list \<Rightarrow> job_step \<Rightarrow> job_step list" where
  "replace_step steps updated =
     map (\<lambda>s. if js_id s = js_id updated then updated else s) steps"

section \<open>Well-formed jobs\<close>

definition steps_ordered :: "job_step list \<Rightarrow> bool" where
  "steps_ordered ss \<longleftrightarrow> map js_order ss = map int [0..<length ss]"

definition job_wf :: "job \<Rightarrow> bool" where
  "job_wf j \<longleftrightarrow>
     jb_steps j \<noteq> [] \<and> steps_ordered (jb_steps j) \<and> distinct (map js_id (jb_steps j)) \<and>
     (\<forall>s\<in>set (jb_steps j). js_job_id s = jb_id j)"

definition linear :: "job_step list \<Rightarrow> bool" where
  "linear ss \<longleftrightarrow>
     (let rest = dropWhile (\<lambda>s. js_state s = S_Succeeded) ss in
      list_all (\<lambda>s. js_state s = S_Pending) (tl rest))"

definition attempt_active :: "attempt_state \<Rightarrow> bool" where
  "attempt_active s \<longleftrightarrow> s \<in> {A_Dispatched, A_InProgress, A_AwaitingReconciliation}"

definition job_active :: "job_state \<Rightarrow> bool" where
  "job_active s \<longleftrightarrow> s \<in> {J_Running, J_Cancelling}"

definition job_terminal :: "job_state \<Rightarrow> bool" where
  "job_terminal s \<longleftrightarrow> s \<in> {J_Succeeded, J_Failed, J_Cancelled}"

lemma attempt_active_simps [simp]:
  "attempt_active A_Dispatched" "attempt_active A_InProgress"
  "attempt_active A_AwaitingReconciliation" "\<not> attempt_active A_Succeeded"
  "\<not> attempt_active A_Failed" "\<not> attempt_active A_Cancelled" "\<not> attempt_active A_Rejected"
  "\<not> attempt_active A_Indeterminate"
  by (simp_all add: attempt_active_def)

lemma job_active_simps [simp]:
  "job_active J_Running" "job_active J_Cancelling" "\<not> job_active J_Pending"
  "\<not> job_active J_Succeeded" "\<not> job_active J_Failed" "\<not> job_active J_Cancelled"
  by (simp_all add: job_active_def)

lemma job_terminal_simps [simp]:
  "job_terminal J_Succeeded" "job_terminal J_Failed" "job_terminal J_Cancelled"
  "\<not> job_terminal J_Pending" "\<not> job_terminal J_Running" "\<not> job_terminal J_Cancelling"
  by (simp_all add: job_terminal_def)

lemma job_state_trichotomy: "s = J_Pending \<or> job_active s \<or> job_terminal s"
  by (cases s) simp_all

section \<open>Creation\<close>

lemma as_i32_id: "n < 2 ^ 31 \<Longrightarrow> as_i32 n = int n"
  unfolding as_i32_def by (subst mod_pos_pos_trivial) auto

lemma as_i32_wraps: "as_i32 (2 ^ 31) = - (2 ^ 31)"
  by (simp add: as_i32_def)

lemma create_workflow_Ok_wf:
  assumes "create_workflow new_v4 ep n = Ok j" and "n \<le> 2 ^ 31"
    and "inj_on new_v4 {..n}"
  shows "job_wf j"
proof -
  have steps: "jb_steps j = map (\<lambda>ord. \<lparr> js_id = JobStepId (new_v4 (Suc ord)),
        js_job_id = JobId (new_v4 0), js_order = as_i32 ord, js_state = S_Pending,
        js_destructive_intent = None, js_failure_reason = None \<rparr>) [0..<n]"
    and ident: "jb_id j = JobId (new_v4 0)" and pos: "n \<noteq> 0"
    using assms(1) by (auto simp: create_workflow_def Let_def split: if_splits)
  have "map js_order (jb_steps j) = map int [0..<n]"
    using assms(2) by (simp add: steps as_i32_id comp_def)
  moreover have "distinct (map js_id (jb_steps j))"
    using inj_onD [OF assms(3), of "Suc x" "Suc y" for x y]
    by (auto simp: steps comp_def distinct_map intro!: inj_onI)
  ultimately show ?thesis
    using steps ident pos by (simp add: job_wf_def steps_ordered_def)
qed

lemma create_workflow_all_pending:
  "create_workflow new_v4 ep n = Ok j \<Longrightarrow>
     jb_state j = J_Pending \<and> jb_endpoint_id j = ep \<and> length (jb_steps j) = n \<and>
     (\<forall>s\<in>set (jb_steps j). js_state s = S_Pending \<and> js_failure_reason s = None \<and>
        js_destructive_intent s = None \<and> js_job_id s = jb_id j)"
  by (auto simp: create_workflow_def Let_def split: if_splits)

section \<open>Lookup and replacement of steps\<close>

lemma find_step_Some_iff:
  assumes "distinct (map js_id (jb_steps j))"
  shows "find_step sid j = Some s \<longleftrightarrow> s \<in> set (jb_steps j) \<and> js_id s = sid"
proof
  assume "find_step sid j = Some s"
  then show "s \<in> set (jb_steps j) \<and> js_id s = sid"
    by (auto simp: find_step_def find_Some_iff)
next
  assume s: "s \<in> set (jb_steps j) \<and> js_id s = sid"
  then obtain s' where s': "find_step sid j = Some s'"
    by (cases "find_step sid j") (auto simp: find_step_def find_None_iff)
  then have "s' \<in> set (jb_steps j)" "js_id s' = sid"
    by (auto simp: find_step_def find_Some_iff)
  then have "s' = s"
    using s assms by (auto simp: distinct_map inj_on_def)
  then show "find_step sid j = Some s"
    using s' by simp
qed

lemma find_step_SomeD:
  "find_step sid j = Some s \<Longrightarrow> s \<in> set (jb_steps j) \<and> js_id s = sid"
  by (auto simp: find_step_def find_Some_iff)

lemma length_replace_step [simp]: "length (replace_step ss u) = length ss"
  by (simp add: replace_step_def)

lemma replace_step_Nil_iff [simp]: "replace_step ss u = [] \<longleftrightarrow> ss = []"
  by (simp add: replace_step_def)

lemma map_js_id_replace_step [simp]: "map js_id (replace_step ss u) = map js_id ss"
  by (simp add: replace_step_def)

lemma replace_step_append [simp]:
  "replace_step (xs @ ys) u = replace_step xs u @ replace_step ys u"
  by (simp add: replace_step_def)

lemma replace_step_absent: "js_id u \<notin> js_id ` set ss \<Longrightarrow> replace_step ss u = ss"
  unfolding replace_step_def by (rule map_idI) (auto simp: image_iff)

lemma replace_step_split:
  assumes "distinct (map js_id (pre @ s # post))" and "js_id u = js_id s"
  shows "replace_step (pre @ s # post) u = pre @ u # post"
proof -
  have "replace_step pre u = pre" "replace_step post u = post"
    using assms by (simp_all add: replace_step_absent)
  then show ?thesis
    using assms(2) by (simp add: replace_step_def)
qed

lemma replace_step_same:
  "distinct (map js_id ss) \<Longrightarrow> s \<in> set ss \<Longrightarrow> replace_step ss s = ss"
  unfolding replace_step_def by (rule map_idI) (auto simp: distinct_map inj_on_def)

lemma job_wf_replace_step:
  assumes "job_wf j" and "s \<in> set (jb_steps j)"
    and "js_id u = js_id s" "js_order u = js_order s" "js_job_id u = js_job_id s"
  shows "job_wf (j\<lparr> jb_state := st, jb_steps := replace_step (jb_steps j) u \<rparr>)"
proof -
  obtain pre post where split: "jb_steps j = pre @ s # post"
    using assms(2) by (auto simp: in_set_conv_decomp)
  have "replace_step (jb_steps j) u = pre @ u # post"
    unfolding split using assms(1,3) by (intro replace_step_split) (simp_all add: job_wf_def split)
  moreover have "map js_order (pre @ u # post) = map js_order (jb_steps j)"
    using assms(4) by (simp add: split)
  ultimately show ?thesis
    using assms by (auto simp: job_wf_def steps_ordered_def split)
qed

lemma job_wf_state [simp]: "job_wf (j\<lparr> jb_state := st \<rparr>) = job_wf j"
  by (simp add: job_wf_def)

section \<open>The linear shape\<close>

lemma dropWhile_succeeded_append:
  assumes "\<forall>s\<in>set pre. js_state s = S_Succeeded" and "js_state s \<noteq> S_Succeeded"
  shows "dropWhile (\<lambda>s. js_state s = S_Succeeded) (pre @ s # post) = s # post"
  using assms by (simp add: dropWhile_append2)

lemma linear_cases:
  "linear ss \<longleftrightarrow> (\<forall>s\<in>set ss. js_state s = S_Succeeded) \<or>
     (\<exists>pre s post. ss = pre @ s # post \<and> (\<forall>x\<in>set pre. js_state x = S_Succeeded) \<and>
        js_state s \<noteq> S_Succeeded \<and> (\<forall>x\<in>set post. js_state x = S_Pending))"
  (is "?L \<longleftrightarrow> ?A \<or> ?B")
proof
  assume lin: ?L
  let ?P = "\<lambda>s. js_state s = S_Succeeded"
  show "?A \<or> ?B"
  proof (cases "dropWhile ?P ss")
    case Nil
    then show ?thesis by (simp add: dropWhile_eq_Nil_conv)
  next
    case (Cons s post)
    have "ss = takeWhile ?P ss @ s # post"
      using takeWhile_dropWhile_id [of ?P ss] Cons by simp
    moreover have "\<not> ?P s"
      using Cons by (simp add: dropWhile_eq_Cons_conv)
    moreover have "\<forall>x\<in>set (takeWhile ?P ss). ?P x"
      using set_takeWhileD by fast
    moreover have "\<forall>x\<in>set post. js_state x = S_Pending"
      using lin Cons by (simp add: linear_def list_all_iff)
    ultimately show ?thesis by blast
  qed
next
  assume "?A \<or> ?B"
  then show ?L
  proof
    assume ?A
    then have "dropWhile (\<lambda>s. js_state s = S_Succeeded) ss = []"
      by (simp add: dropWhile_eq_Nil_conv)
    then show ?L unfolding linear_def Let_def by (simp only: list.sel list.pred_inject)
  next
    assume ?B
    then show ?L
      by (auto simp: linear_def list_all_iff dropWhile_succeeded_append)
  qed
qed

lemma linear_all_pending: "\<forall>s\<in>set ss. js_state s = S_Pending \<Longrightarrow> linear ss"
  by (cases ss) (auto simp: linear_def list_all_iff)

lemma linear_splitI:
  assumes "\<forall>x\<in>set pre. js_state x = S_Succeeded" and "\<forall>x\<in>set post. js_state x = S_Pending"
  shows "linear (pre @ s # post)"
proof (cases "js_state s = S_Succeeded")
  case True
  then have "linear (pre @ s # post) = linear post"
    using assms(1) by (simp add: linear_def dropWhile_append2)
  then show ?thesis using assms(2) by (simp add: linear_all_pending)
next
  case False
  then show ?thesis using assms by (auto simp: linear_cases)
qed

text \<open>
  In a linear step list the step in the middle (neither succeeded nor pending) determines the
  split.
\<close>

lemma linear_middle_split:
  assumes "linear ss" and "s \<in> set ss" and "js_state s \<noteq> S_Succeeded" "js_state s \<noteq> S_Pending"
  obtains pre post where "ss = pre @ s # post" "\<forall>x\<in>set pre. js_state x = S_Succeeded"
    "\<forall>x\<in>set post. js_state x = S_Pending"
proof -
  from assms(1) show ?thesis
    unfolding linear_cases
  proof (elim disjE exE conjE)
    assume "\<forall>s\<in>set ss. js_state s = S_Succeeded"
    then show ?thesis using assms(2,3) by blast
  next
    fix pre m post
    assume split: "ss = pre @ m # post" "\<forall>x\<in>set pre. js_state x = S_Succeeded"
      "\<forall>x\<in>set post. js_state x = S_Pending"
    then have "s = m" using assms(2-4) by auto
    then show ?thesis using split that by blast
  qed
qed

lemma linear_replace_middle:
  assumes "linear ss" and "distinct (map js_id ss)" and "s \<in> set ss"
    and "js_state s \<noteq> S_Succeeded" "js_state s \<noteq> S_Pending" and "js_id u = js_id s"
  shows "linear (replace_step ss u)"
proof -
  obtain pre post where split: "ss = pre @ s # post" "\<forall>x\<in>set pre. js_state x = S_Succeeded"
    "\<forall>x\<in>set post. js_state x = S_Pending"
    using linear_middle_split assms(1,3,4,5) by blast
  have "replace_step ss u = pre @ u # post"
    using assms(2,6) unfolding split by (rule replace_step_split)
  then show ?thesis using split by (simp add: linear_splitI)
qed

section \<open>Preliminary eligibility\<close>

lemma steps_ordered_nth: "steps_ordered ss \<Longrightarrow> i < length ss \<Longrightarrow> js_order (ss ! i) = int i"
  unfolding steps_ordered_def by (drule arg_cong [where f = "\<lambda>xs. xs ! i"]) simp

lemma earlier_steps_iff_prefix:
  assumes "job_wf j" and "jb_steps j = pre @ s # post"
  shows "earlier_steps_all_succeeded j s \<longleftrightarrow> (\<forall>x\<in>set pre. js_state x = S_Succeeded)"
proof -
  let ?ss = "jb_steps j"
  have ord: "\<And>i. i < length ?ss \<Longrightarrow> js_order (?ss ! i) = int i"
    using assms(1) by (simp add: job_wf_def steps_ordered_nth)
  have s: "js_order s = int (length pre)"
    using ord [of "length pre"] assms(2) by simp
  have "x \<in> set pre \<longleftrightarrow> x \<in> set ?ss \<and> js_order x < js_order s" for x
  proof
    assume "x \<in> set pre"
    then obtain i where "i < length pre" "x = pre ! i" by (auto simp: in_set_conv_nth)
    then show "x \<in> set ?ss \<and> js_order x < js_order s"
      using ord [of i] s assms(2) by (simp add: nth_append)
  next
    assume x: "x \<in> set ?ss \<and> js_order x < js_order s"
    then obtain i where i: "i < length ?ss" "x = ?ss ! i" by (auto simp: in_set_conv_nth)
    then have "i < length pre" using ord x s by auto
    then show "x \<in> set pre" using i assms(2) by (simp add: nth_append)
  qed
  then show ?thesis by (auto simp: earlier_steps_all_succeeded_def list_all_iff)
qed

lemma satisfy_preliminary_Ok_iff:
  assumes "job_wf j"
  shows "satisfy_preliminary_preconditions j sid = Ok u \<longleftrightarrow>
    jb_state j = J_Running \<and>
    (\<exists>pre s post. jb_steps j = pre @ s # post \<and> js_id s = sid \<and> js_state s = S_Pending \<and>
       (\<forall>x\<in>set pre. js_state x = S_Succeeded) \<and> u = s\<lparr> js_state := S_PreconditionsSatisfied \<rparr>)"
    (is "?L \<longleftrightarrow> ?R")
proof
  assume ?L
  then obtain s where s: "find_step sid j = Some s" "js_state s = S_Pending"
    "earlier_steps_all_succeeded j s" "u = s\<lparr> js_state := S_PreconditionsSatisfied \<rparr>"
    "jb_state j = J_Running"
    by (auto simp: satisfy_preliminary_preconditions_def split: if_splits option.splits)
  from find_step_SomeD [OF s(1)] obtain pre post
    where split: "jb_steps j = pre @ s # post" and sid: "js_id s = sid"
    by (auto simp: in_set_conv_decomp)
  have "\<forall>x\<in>set pre. js_state x = S_Succeeded"
    using s(3) earlier_steps_iff_prefix [OF assms split] by simp
  then show ?R
    using s(2,4,5) split sid by auto
next
  assume ?R
  then obtain pre s post where s: "jb_state j = J_Running" "jb_steps j = pre @ s # post"
    "js_id s = sid" "js_state s = S_Pending" "\<forall>x\<in>set pre. js_state x = S_Succeeded"
    "u = s\<lparr> js_state := S_PreconditionsSatisfied \<rparr>" by blast
  have "find_step sid j = Some s"
    using assms s by (subst find_step_Some_iff) (auto simp: job_wf_def)
  then show ?L
    using s earlier_steps_iff_prefix [OF assms s(2)]
    by (simp add: satisfy_preliminary_preconditions_def)
qed

end
