(* ===== verification/Job_Evidence.thy ===== *)
theory Job_Evidence
  imports Job_Model
begin

text \<open>
  The pure decisions that apply what an Agent or an operator reports to an Attempt, its JobStep
  and its Job: \<open>action_evidence.rs\<close>, \<open>cancellation.rs\<close> and \<open>reconciliation.rs\<close> under
  \<open>src/crates/domain/src\<close>. The three source files declare structurally equal result types
  (\<open>ActionEvidenceApplied\<close>, \<open>CancelAckApplied\<close>, \<open>ReconciliationApplied\<close>), here one record.

  The lemmas describe the decisions by one relation, \<open>applied_ok\<close>: what an applied result may
  change, given that the Attempt it concerns is still active. The composed machine of
  \<open>Job_Store\<close> uses nothing else of them.
\<close>

section \<open>Action evidence\<close>

datatype action_evidence = AckAccepted | AckRejected | ResultSucceeded | ResultFailed

record action_evidence_applied =
  ap_attempt :: attempt
  ap_job_step :: job_step
  ap_job :: job
  ap_events :: "domain_event list"
  ap_terminal :: bool

type_synonym cancel_ack_applied = action_evidence_applied
type_synonym reconciliation_applied = action_evidence_applied

datatype action_evidence_outcome =
  EvidenceApplied action_evidence_applied | EvidenceNoOp | EvidenceConflict

definition terminal_failure ::
  "uuid_source \<Rightarrow> job \<Rightarrow> job_step \<Rightarrow> attempt \<Rightarrow> attempt_state \<Rightarrow> job_step_failure_reason \<Rightarrow> time
    \<Rightarrow> action_evidence_applied" where
  "terminal_failure new_v4 job step attempt attempt_state reason now =
     (let failed_step = step\<lparr> js_state := S_Failed, js_failure_reason := Some reason \<rparr>;
          cancelling = (jb_state job = J_Cancelling);
          final_job = job\<lparr> jb_state := (if cancelling then J_Cancelled else J_Failed),
                           jb_steps := replace_step (jb_steps job) failed_step \<rparr>;
          job_step_failed = JobStepFailed (new_v4 0) (jb_id job) (js_id failed_step)
                              (jb_endpoint_id job) now;
          job_terminal_event =
            (if cancelling then JobCancelled (new_v4 1) (jb_id job) (jb_endpoint_id job) now
             else JobFailed (new_v4 1) (jb_id job) (jb_endpoint_id job) now)
      in \<lparr> ap_attempt = attempt\<lparr> at_state := attempt_state \<rparr>, ap_job_step = failed_step,
           ap_job = final_job, ap_events = [job_step_failed, job_terminal_event],
           ap_terminal = True \<rparr>)"

definition terminal_success ::
  "uuid_source \<Rightarrow> job \<Rightarrow> job_step \<Rightarrow> attempt \<Rightarrow> time \<Rightarrow> action_evidence_applied" where
  "terminal_success new_v4 job step attempt now =
     (let succeeded_step = step\<lparr> js_state := S_Succeeded \<rparr>;
          updated_steps = replace_step (jb_steps job) succeeded_step;
          (job_state, events) =
            (if jb_state job = J_Cancelling
             then (J_Cancelled, [JobCancelled (new_v4 0) (jb_id job) (jb_endpoint_id job) now])
             else if list_all (\<lambda>s. js_state s = S_Succeeded) updated_steps
             then (J_Succeeded, [JobSucceeded (new_v4 0) (jb_id job) (jb_endpoint_id job) now])
             else (J_Running, []))
      in \<lparr> ap_attempt = attempt\<lparr> at_state := A_Succeeded \<rparr>, ap_job_step = succeeded_step,
           ap_job = job\<lparr> jb_state := job_state, jb_steps := updated_steps \<rparr>,
           ap_events = events, ap_terminal = True \<rparr>)"

definition apply_action_evidence ::
  "uuid_source \<Rightarrow> job \<Rightarrow> job_step \<Rightarrow> attempt \<Rightarrow> action_evidence \<Rightarrow> time
    \<Rightarrow> action_evidence_outcome" where
  "apply_action_evidence new_v4 job step attempt evidence now =
     (case evidence of
        AckAccepted \<Rightarrow>
          (case at_state attempt of
             A_Dispatched \<Rightarrow> EvidenceApplied
               \<lparr> ap_attempt = attempt\<lparr> at_state := A_InProgress \<rparr>, ap_job_step = step,
                 ap_job = job, ap_events = [], ap_terminal = False \<rparr>
           | _ \<Rightarrow> EvidenceNoOp)
      | AckRejected \<Rightarrow>
          (case at_state attempt of
             A_Dispatched \<Rightarrow> EvidenceApplied
               (terminal_failure new_v4 job step attempt A_Rejected DispatchRejected now)
           | A_Rejected \<Rightarrow> EvidenceNoOp
           | _ \<Rightarrow> EvidenceConflict)
      | ResultSucceeded \<Rightarrow>
          (case at_state attempt of
             A_Dispatched \<Rightarrow> EvidenceApplied (terminal_success new_v4 job step attempt now)
           | A_InProgress \<Rightarrow> EvidenceApplied (terminal_success new_v4 job step attempt now)
           | A_Succeeded \<Rightarrow> EvidenceNoOp
           | _ \<Rightarrow> EvidenceConflict)
      | ResultFailed \<Rightarrow>
          (case at_state attempt of
             A_Dispatched \<Rightarrow> EvidenceApplied
               (terminal_failure new_v4 job step attempt A_Failed ExecutionFailed now)
           | A_InProgress \<Rightarrow> EvidenceApplied
               (terminal_failure new_v4 job step attempt A_Failed ExecutionFailed now)
           | A_Failed \<Rightarrow> EvidenceNoOp
           | _ \<Rightarrow> EvidenceConflict))"

section \<open>Cancellation\<close>

datatype cancellation_request_error = CancellationNotEligible

datatype cancellation_request_outcome =
    EnteredCancelling job attempt_id action_id
  | CompletedImmediately job domain_event
  | AlreadyCancelling
  | AlreadyTerminal

definition request_cancellation ::
  "uuid_source \<Rightarrow> job \<Rightarrow> attempt option \<Rightarrow> time
    \<Rightarrow> cancellation_request_error + cancellation_request_outcome" where
  "request_cancellation new_v4 job active_attempt now =
     (case jb_state job of
        J_Running \<Rightarrow>
          (case active_attempt of
             Some attempt \<Rightarrow> Ok (EnteredCancelling (job\<lparr> jb_state := J_Cancelling \<rparr>)
               (at_id attempt) (at_action_id attempt))
           | None \<Rightarrow> Ok (CompletedImmediately (job\<lparr> jb_state := J_Cancelled \<rparr>)
               (JobCancelled (new_v4 0) (jb_id job) (jb_endpoint_id job) now)))
      | J_Cancelling \<Rightarrow> Ok AlreadyCancelling
      | J_Succeeded \<Rightarrow> Ok AlreadyTerminal
      | J_Failed \<Rightarrow> Ok AlreadyTerminal
      | J_Cancelled \<Rightarrow> Ok AlreadyTerminal
      | J_Pending \<Rightarrow> Err CancellationNotEligible)"

datatype cancel_ack_evidence =
  AckCancelled | AckAlreadyCompleted | AckCannotCancel | AckUnknown

datatype cancel_ack_outcome = CancelAckApplied cancel_ack_applied | CancelAckNoOp

definition cancel_terminal ::
  "uuid_source \<Rightarrow> job \<Rightarrow> job_step \<Rightarrow> attempt \<Rightarrow> time \<Rightarrow> cancel_ack_applied" where
  "cancel_terminal new_v4 job step attempt now =
     (let cancelled_step = step\<lparr> js_state := S_Cancelled \<rparr>
      in \<lparr> ap_attempt = attempt\<lparr> at_state := A_Cancelled \<rparr>, ap_job_step = cancelled_step,
           ap_job = job\<lparr> jb_state := J_Cancelled,
                         jb_steps := replace_step (jb_steps job) cancelled_step \<rparr>,
           ap_events = [JobCancelled (new_v4 0) (jb_id job) (jb_endpoint_id job) now],
           ap_terminal = True \<rparr>)"

definition complete_cancellation_now ::
  "uuid_source \<Rightarrow> job \<Rightarrow> job_step \<Rightarrow> attempt \<Rightarrow> time \<Rightarrow> cancel_ack_applied" where
  "complete_cancellation_now new_v4 job step attempt now =
     \<lparr> ap_attempt = attempt, ap_job_step = step, ap_job = job\<lparr> jb_state := J_Cancelled \<rparr>,
       ap_events = [JobCancelled (new_v4 0) (jb_id job) (jb_endpoint_id job) now],
       ap_terminal = True \<rparr>"

definition now_awaiting_reconciliation :: "job \<Rightarrow> job_step \<Rightarrow> attempt \<Rightarrow> cancel_ack_applied" where
  "now_awaiting_reconciliation job step attempt =
     \<lparr> ap_attempt = attempt\<lparr> at_state := A_AwaitingReconciliation \<rparr>, ap_job_step = step,
       ap_job = job, ap_events = [], ap_terminal = False \<rparr>"

definition apply_cancel_ack ::
  "uuid_source \<Rightarrow> job \<Rightarrow> job_step \<Rightarrow> attempt \<Rightarrow> cancel_ack_evidence \<Rightarrow> time
    \<Rightarrow> cancel_ack_outcome" where
  "apply_cancel_ack new_v4 job step attempt evidence now =
     (if jb_state job \<noteq> J_Cancelling then CancelAckNoOp
      else case evidence of
        AckCancelled \<Rightarrow>
          (if at_state attempt \<in> {A_Dispatched, A_InProgress, A_AwaitingReconciliation}
           then CancelAckApplied (cancel_terminal new_v4 job step attempt now)
           else CancelAckNoOp)
      | AckAlreadyCompleted \<Rightarrow>
          (case at_state attempt of
             A_Dispatched \<Rightarrow> CancelAckApplied (now_awaiting_reconciliation job step attempt)
           | A_InProgress \<Rightarrow> CancelAckApplied (now_awaiting_reconciliation job step attempt)
           | A_AwaitingReconciliation \<Rightarrow> CancelAckNoOp
           | _ \<Rightarrow>
               if jb_state job = J_Cancelling
               then CancelAckApplied (complete_cancellation_now new_v4 job step attempt now)
               else CancelAckNoOp)
      | AckCannotCancel \<Rightarrow> CancelAckNoOp
      | AckUnknown \<Rightarrow>
          (case at_state attempt of
             A_Dispatched \<Rightarrow> CancelAckApplied (now_awaiting_reconciliation job step attempt)
           | A_InProgress \<Rightarrow> CancelAckApplied (now_awaiting_reconciliation job step attempt)
           | _ \<Rightarrow> CancelAckNoOp))"

section \<open>Reconciliation\<close>

definition mark_awaiting_reconciliation :: "attempt \<Rightarrow> attempt option" where
  "mark_awaiting_reconciliation attempt =
     (if at_state attempt = A_Dispatched \<or> at_state attempt = A_InProgress
      then Some (attempt\<lparr> at_state := A_AwaitingReconciliation \<rparr>) else None)"

datatype status_report_evidence =
  ReportAccepted | ReportRunning | ReportSucceeded | ReportFailed | ReportCancelled | ReportUnknown

datatype reconciliation_outcome = ReconciliationApplied reconciliation_applied | ReconciliationNoOp

definition reconciliation_terminal_success ::
  "uuid_source \<Rightarrow> job \<Rightarrow> job_step \<Rightarrow> attempt \<Rightarrow> time \<Rightarrow> reconciliation_applied" where
  "reconciliation_terminal_success new_v4 job step attempt now =
     (let succeeded_step = step\<lparr> js_state := S_Succeeded \<rparr>;
          updated_steps = replace_step (jb_steps job) succeeded_step;
          (job_state, events) =
            (if jb_state job = J_Cancelling
             then (J_Cancelled, [JobCancelled (new_v4 0) (jb_id job) (jb_endpoint_id job) now])
             else if list_all (\<lambda>s. js_state s = S_Succeeded) updated_steps
             then (J_Succeeded, [JobSucceeded (new_v4 0) (jb_id job) (jb_endpoint_id job) now])
             else (J_Running, []))
      in \<lparr> ap_attempt = attempt\<lparr> at_state := A_Succeeded \<rparr>, ap_job_step = succeeded_step,
           ap_job = job\<lparr> jb_state := job_state, jb_steps := updated_steps \<rparr>,
           ap_events = events, ap_terminal = True \<rparr>)"

definition reconciliation_terminal_failure ::
  "uuid_source \<Rightarrow> job \<Rightarrow> job_step \<Rightarrow> attempt \<Rightarrow> time \<Rightarrow> reconciliation_applied" where
  "reconciliation_terminal_failure new_v4 job step attempt now =
     (let failed_step = step\<lparr> js_state := S_Failed,
                              js_failure_reason := Some ExecutionFailed \<rparr>;
          cancelling = (jb_state job = J_Cancelling);
          final_job = job\<lparr> jb_state := (if cancelling then J_Cancelled else J_Failed),
                           jb_steps := replace_step (jb_steps job) failed_step \<rparr>;
          job_step_failed = JobStepFailed (new_v4 0) (jb_id job) (js_id failed_step)
                              (jb_endpoint_id job) now;
          job_terminal_event =
            (if cancelling then JobCancelled (new_v4 1) (jb_id job) (jb_endpoint_id job) now
             else JobFailed (new_v4 1) (jb_id job) (jb_endpoint_id job) now)
      in \<lparr> ap_attempt = attempt\<lparr> at_state := A_Failed \<rparr>, ap_job_step = failed_step,
           ap_job = final_job, ap_events = [job_step_failed, job_terminal_event],
           ap_terminal = True \<rparr>)"

definition terminal_cancelled ::
  "uuid_source \<Rightarrow> job \<Rightarrow> job_step \<Rightarrow> attempt \<Rightarrow> time \<Rightarrow> reconciliation_applied" where
  "terminal_cancelled new_v4 job step attempt now =
     (let cancelled_step = step\<lparr> js_state := S_Cancelled \<rparr>
      in \<lparr> ap_attempt = attempt\<lparr> at_state := A_Cancelled \<rparr>, ap_job_step = cancelled_step,
           ap_job = job\<lparr> jb_state := J_Cancelled,
                         jb_steps := replace_step (jb_steps job) cancelled_step \<rparr>,
           ap_events = [JobCancelled (new_v4 0) (jb_id job) (jb_endpoint_id job) now],
           ap_terminal = True \<rparr>)"

definition apply_status_report ::
  "uuid_source \<Rightarrow> job \<Rightarrow> job_step \<Rightarrow> attempt \<Rightarrow> status_report_evidence \<Rightarrow> time
    \<Rightarrow> reconciliation_outcome" where
  "apply_status_report new_v4 job step attempt evidence now =
     (if at_state attempt \<noteq> A_AwaitingReconciliation then ReconciliationNoOp
      else if evidence = ReportAccepted \<or> evidence = ReportRunning then
        ReconciliationApplied
          \<lparr> ap_attempt = attempt\<lparr> at_state := A_InProgress \<rparr>, ap_job_step = step, ap_job = job,
            ap_events = [], ap_terminal = False \<rparr>
      else if evidence = ReportSucceeded then
        ReconciliationApplied (reconciliation_terminal_success new_v4 job step attempt now)
      else if evidence = ReportFailed then
        ReconciliationApplied (reconciliation_terminal_failure new_v4 job step attempt now)
      else if evidence = ReportCancelled \<and> jb_state job = J_Cancelling then
        ReconciliationApplied (terminal_cancelled new_v4 job step attempt now)
      else ReconciliationNoOp)"

datatype close_indeterminate_outcome =
  CloseApplied reconciliation_applied | AlreadyIndeterminate | CloseNotEligible

definition close_indeterminate ::
  "uuid_source \<Rightarrow> job \<Rightarrow> job_step \<Rightarrow> attempt \<Rightarrow> time \<Rightarrow> close_indeterminate_outcome" where
  "close_indeterminate new_v4 job step attempt now =
     (case at_state attempt of
        A_AwaitingReconciliation \<Rightarrow>
          (let failed_step = step\<lparr> js_state := S_Failed,
                                   js_failure_reason := Some ReconciliationIndeterminate \<rparr>;
               cancelling = (jb_state job = J_Cancelling);
               final_job = job\<lparr> jb_state := (if cancelling then J_Cancelled else J_Failed),
                                jb_steps := replace_step (jb_steps job) failed_step \<rparr>;
               indeterminate_event = AttemptIndeterminate (new_v4 0) (jb_id job)
                 (js_id failed_step) (at_id attempt) (jb_endpoint_id job) now;
               job_step_failed = JobStepFailed (new_v4 1) (jb_id job) (js_id failed_step)
                 (jb_endpoint_id job) now;
               job_terminal_event =
                 (if cancelling then JobCancelled (new_v4 2) (jb_id job) (jb_endpoint_id job) now
                  else JobFailed (new_v4 2) (jb_id job) (jb_endpoint_id job) now)
           in CloseApplied
             \<lparr> ap_attempt = attempt\<lparr> at_state := A_Indeterminate \<rparr>, ap_job_step = failed_step,
               ap_job = final_job,
               ap_events = [indeterminate_event, job_step_failed, job_terminal_event],
               ap_terminal = True \<rparr>)
      | A_Indeterminate \<Rightarrow> AlreadyIndeterminate
      | _ \<Rightarrow> CloseNotEligible)"

section \<open>What an applied result may do\<close>

fun job_outcome_event :: "domain_event \<Rightarrow> (job_id \<times> job_state) option" where
  "job_outcome_event (JobSucceeded _ j _ _) = Some (j, J_Succeeded)"
| "job_outcome_event (JobFailed _ j _ _) = Some (j, J_Failed)"
| "job_outcome_event (JobCancelled _ j _ _) = Some (j, J_Cancelled)"
| "job_outcome_event _ = None"

definition job_outcomes :: "job_id \<Rightarrow> domain_event list \<Rightarrow> job_state list" where
  "job_outcomes j events =
     map snd (filter (\<lambda>p. fst p = j) (List.map_filter job_outcome_event events))"

definition outcome_of :: "job_state \<Rightarrow> job_state list" where
  "outcome_of s = (if job_terminal s then [s] else [])"

definition resulting_job_state :: "job \<Rightarrow> job_step \<Rightarrow> job_state" where
  "resulting_job_state job step =
     (if jb_state job = J_Cancelling then J_Cancelled
      else if js_state step \<noteq> S_Succeeded then J_Failed
      else if list_all (\<lambda>s. js_state s = S_Succeeded) (replace_step (jb_steps job) step)
      then J_Succeeded else J_Running)"

definition applied_ok :: "job \<Rightarrow> job_step \<Rightarrow> attempt \<Rightarrow> action_evidence_applied \<Rightarrow> bool" where
  "applied_ok job step attempt ap \<longleftrightarrow>
     attempt_active (at_state attempt) \<and>
     (\<exists>s. ap_attempt ap = attempt\<lparr> at_state := s \<rparr> \<and> attempt_active s = (\<not> ap_terminal ap)) \<and>
     (if ap_terminal ap
      then (\<exists>s r. ap_job_step ap = step\<lparr> js_state := s, js_failure_reason := r \<rparr> \<and>
              s \<in> {S_Succeeded, S_Failed, S_Cancelled} \<and>
              (s = S_Cancelled \<longrightarrow> jb_state job = J_Cancelling)) \<and>
           ap_job ap = job\<lparr> jb_state := resulting_job_state job (ap_job_step ap),
                            jb_steps := replace_step (jb_steps job) (ap_job_step ap) \<rparr> \<and>
           (\<forall>j. job_outcomes j (ap_events ap) =
              (if j = jb_id job then outcome_of (jb_state (ap_job ap)) else []))
      else ap_job_step ap = step \<and> ap_job ap = job \<and> ap_events ap = [])"

lemma job_outcomes_Nil [simp]: "job_outcomes j [] = []"
  by (simp add: job_outcomes_def List.map_filter_def)

lemma job_outcomes_append [simp]: "job_outcomes j (xs @ ys) = job_outcomes j xs @ job_outcomes j ys"
  by (simp add: job_outcomes_def List.map_filter_def)

lemma job_outcomes_Cons:
  "job_outcomes j (e # es) =
     (case job_outcome_event e of
        Some (k, s) \<Rightarrow> if k = j then s # job_outcomes j es else job_outcomes j es
      | None \<Rightarrow> job_outcomes j es)"
  by (auto simp: job_outcomes_def List.map_filter_def split: option.split)

lemma outcome_of_simps [simp]:
  "outcome_of J_Succeeded = [J_Succeeded]" "outcome_of J_Failed = [J_Failed]"
  "outcome_of J_Cancelled = [J_Cancelled]" "outcome_of J_Pending = []"
  "outcome_of J_Running = []" "outcome_of J_Cancelling = []"
  by (simp_all add: outcome_of_def)

lemma applied_ok_terminalI:
  assumes "attempt_active (at_state a)" and "\<not> attempt_active s"
    and "t \<in> {S_Succeeded, S_Failed, S_Cancelled}"
    and "t = S_Cancelled \<Longrightarrow> jb_state j = J_Cancelling"
    and "u = st\<lparr> js_state := t, js_failure_reason := r \<rparr>"
    and "\<And>k. job_outcomes k evs = (if k = jb_id j then outcome_of (resulting_job_state j u) else [])"
  shows "applied_ok j st a \<lparr> ap_attempt = a\<lparr> at_state := s \<rparr>, ap_job_step = u,
    ap_job = j\<lparr> jb_state := resulting_job_state j u, jb_steps := replace_step (jb_steps j) u \<rparr>,
    ap_events = evs, ap_terminal = True \<rparr>"
proof -
  have "\<exists>s r. u = st\<lparr> js_state := s, js_failure_reason := r \<rparr> \<and>
      s \<in> {S_Succeeded, S_Failed, S_Cancelled} \<and> (s = S_Cancelled \<longrightarrow> jb_state j = J_Cancelling)"
    using assms(3-5) by blast
  then show ?thesis
    using assms(1,2,6) by (auto simp: applied_ok_def)
qed

lemma step_update_failure_reason:
  "st\<lparr> js_state := t \<rparr> = st\<lparr> js_state := t, js_failure_reason := js_failure_reason st \<rparr>"
  for st :: job_step
  by simp

text \<open>The reconciliation decisions are those of direct evidence.\<close>

lemma reconciliation_success_eq: "reconciliation_terminal_success = terminal_success"
  by (intro ext) (simp add: reconciliation_terminal_success_def terminal_success_def)

lemma reconciliation_failure_eq:
  "reconciliation_terminal_failure new_v4 job step attempt now =
     terminal_failure new_v4 job step attempt A_Failed ExecutionFailed now"
  by (simp add: reconciliation_terminal_failure_def terminal_failure_def)

lemma terminal_cancelled_eq: "terminal_cancelled = cancel_terminal"
  by (intro ext) (simp add: terminal_cancelled_def cancel_terminal_def)

lemma terminal_failure_ok:
  assumes "attempt_active (at_state a)" and "\<not> attempt_active s"
  shows "applied_ok j st a (terminal_failure new_v4 j st a s r now)"
proof -
  let ?u = "st\<lparr> js_state := S_Failed, js_failure_reason := Some r \<rparr>"
  have res: "resulting_job_state j ?u = (if jb_state j = J_Cancelling then J_Cancelled else J_Failed)"
    by (simp add: resulting_job_state_def)
  have "applied_ok j st a \<lparr> ap_attempt = a\<lparr> at_state := s \<rparr>, ap_job_step = ?u,
      ap_job = j\<lparr> jb_state := resulting_job_state j ?u, jb_steps := replace_step (jb_steps j) ?u \<rparr>,
      ap_events = ap_events (terminal_failure new_v4 j st a s r now), ap_terminal = True \<rparr>"
    by (rule applied_ok_terminalI [OF assms, where t = S_Failed])
       (simp_all add: res terminal_failure_def Let_def job_outcomes_Cons)
  then show ?thesis by (simp add: res terminal_failure_def Let_def)
qed

lemma terminal_success_ok:
  assumes "attempt_active (at_state a)"
  shows "applied_ok j st a (terminal_success new_v4 j st a now)"
proof -
  let ?u = "st\<lparr> js_state := S_Succeeded \<rparr>"
  have eq: "terminal_success new_v4 j st a now =
      \<lparr> ap_attempt = a\<lparr> at_state := A_Succeeded \<rparr>, ap_job_step = ?u,
        ap_job = j\<lparr> jb_state := resulting_job_state j ?u, jb_steps := replace_step (jb_steps j) ?u \<rparr>,
        ap_events = ap_events (terminal_success new_v4 j st a now), ap_terminal = True \<rparr>"
    by (simp add: resulting_job_state_def terminal_success_def Let_def)
  show ?thesis
    by (subst eq, rule applied_ok_terminalI [OF assms, where t = S_Succeeded])
       (rule step_update_failure_reason | simp add: resulting_job_state_def terminal_success_def
          Let_def job_outcomes_Cons)+
qed

lemma cancel_terminal_ok:
  assumes "attempt_active (at_state a)" and "jb_state j = J_Cancelling"
  shows "applied_ok j st a (cancel_terminal new_v4 j st a now)"
proof -
  let ?u = "st\<lparr> js_state := S_Cancelled \<rparr>"
  have res: "resulting_job_state j ?u = J_Cancelled"
    using assms(2) by (simp add: resulting_job_state_def)
  have "applied_ok j st a \<lparr> ap_attempt = a\<lparr> at_state := A_Cancelled \<rparr>, ap_job_step = ?u,
      ap_job = j\<lparr> jb_state := resulting_job_state j ?u, jb_steps := replace_step (jb_steps j) ?u \<rparr>,
      ap_events = ap_events (cancel_terminal new_v4 j st a now), ap_terminal = True \<rparr>"
    by (rule applied_ok_terminalI [OF assms(1), where t = S_Cancelled])
       (rule step_update_failure_reason | simp add: assms(2) res cancel_terminal_def
          Let_def job_outcomes_Cons)+
  then show ?thesis by (simp add: res cancel_terminal_def Let_def)
qed

lemma nonterminal_ok:
  "attempt_active (at_state a) \<Longrightarrow> attempt_active s \<Longrightarrow>
   applied_ok j st a \<lparr> ap_attempt = a\<lparr> at_state := s \<rparr>, ap_job_step = st, ap_job = j,
     ap_events = [], ap_terminal = False \<rparr>"
  by (auto simp: applied_ok_def)

lemma action_evidence_ok:
  "apply_action_evidence new_v4 j st a ev now = EvidenceApplied ap \<Longrightarrow> applied_ok j st a ap"
  by (auto simp: apply_action_evidence_def terminal_failure_ok terminal_success_ok nonterminal_ok
      split: action_evidence.splits attempt_state.splits)

lemma status_report_ok:
  "apply_status_report new_v4 j st a ev now = ReconciliationApplied ap \<Longrightarrow> applied_ok j st a ap"
  by (auto simp: apply_status_report_def reconciliation_success_eq reconciliation_failure_eq
      terminal_cancelled_eq terminal_failure_ok terminal_success_ok cancel_terminal_ok
      nonterminal_ok split: if_splits)

lemma close_indeterminate_ok:
  assumes "close_indeterminate new_v4 j st a now = CloseApplied ap"
  shows "applied_ok j st a ap \<and> ap_terminal ap"
proof -
  let ?u = "st\<lparr> js_state := S_Failed, js_failure_reason := Some ReconciliationIndeterminate \<rparr>"
  have res: "resulting_job_state j ?u = (if jb_state j = J_Cancelling then J_Cancelled else J_Failed)"
    by (simp add: resulting_job_state_def)
  have st: "at_state a = A_AwaitingReconciliation"
    using assms by (simp add: close_indeterminate_def split: attempt_state.splits)
  have evs: "job_outcomes k (ap_events ap) =
      (if k = jb_id j then outcome_of (resulting_job_state j ?u) else [])" for k
    using assms by (auto simp: close_indeterminate_def st res Let_def job_outcomes_Cons)
  have "applied_ok j st a \<lparr> ap_attempt = a\<lparr> at_state := A_Indeterminate \<rparr>, ap_job_step = ?u,
      ap_job = j\<lparr> jb_state := resulting_job_state j ?u, jb_steps := replace_step (jb_steps j) ?u \<rparr>,
      ap_events = ap_events ap, ap_terminal = True \<rparr>"
    using evs st by (intro applied_ok_terminalI [where t = S_Failed]) simp_all
  then show ?thesis
    using assms by (auto simp: close_indeterminate_def st res Let_def)
qed

lemma cancel_ack_ok:
  "apply_cancel_ack new_v4 j st a ev now = CancelAckApplied ap \<Longrightarrow> attempt_active (at_state a) \<Longrightarrow>
   applied_ok j st a ap"
  by (auto simp: apply_cancel_ack_def cancel_terminal_ok now_awaiting_reconciliation_def
      nonterminal_ok split: cancel_ack_evidence.splits attempt_state.splits if_splits)

lemma cancel_ack_terminal_attempt:
  "apply_cancel_ack new_v4 j st a ev now = CancelAckApplied ap \<Longrightarrow> \<not> attempt_active (at_state a) \<Longrightarrow>
   ev = AckAlreadyCompleted \<and> jb_state j = J_Cancelling \<and>
   ap = complete_cancellation_now new_v4 j st a now"
  by (auto simp: apply_cancel_ack_def
      split: cancel_ack_evidence.splits attempt_state.splits if_splits)

lemma cancel_ack_needs_cancelling:
  "apply_cancel_ack new_v4 j st a ev now = CancelAckApplied ap \<Longrightarrow> jb_state j = J_Cancelling"
  by (auto simp: apply_cancel_ack_def split: if_splits)

end
