(* ===== verification/Transfer_Model.thy ===== *)
theory Transfer_Model
  imports Job_Model Trusted_Bootstrap
begin

text \<open>
  Captured artifacts: the chunk manifest with its expected chunk identities and its sealing, the
  artifact lifecycle, and the transfer that connects an artifact to a JobStep and an Attempt
  (\<open>chunk_manifest.rs\<close>, \<open>artifact.rs\<close>, \<open>transfer.rs\<close> under \<open>src/crates/domain/src\<close>).

  \<open>manifest_wf\<close> is the invariant of a manifest. The lemmas show that recording and sealing keep
  it, that a recorded identity is never rewritten, that a sealed manifest never changes, and that
  the sealed set of indices is exactly \<open>0 .. chunk_count - 1\<close>.
\<close>

section \<open>Digests\<close>

datatype digest_algorithm = Sha256

definition digest_len :: "digest_algorithm \<Rightarrow> nat" where
  "digest_len a = (case a of Sha256 \<Rightarrow> 32)"

datatype digest = Digest (digest_bytes: "byte list")

datatype invalid_digest_length = InvalidDigestLength (digest_expected: nat) (digest_actual: nat)

definition digest_new :: "digest_algorithm \<Rightarrow> byte list \<Rightarrow> invalid_digest_length + digest" where
  "digest_new algorithm bytes =
     (let expected = digest_len algorithm in
      if length bytes \<noteq> expected then Err (InvalidDigestLength expected (length bytes))
      else Ok (Digest bytes))"

definition digest_to_wire_value :: "b64_engine \<Rightarrow> digest \<Rightarrow> string" where
  "digest_to_wire_value eng d = b64_encode eng (digest_bytes d)"

datatype digest_parse_error =
  DigestInvalidEncoding | DigestLength invalid_digest_length | DigestNonCanonical

definition digest_parse_wire_value ::
  "b64_engine \<Rightarrow> digest_algorithm \<Rightarrow> string \<Rightarrow> digest_parse_error + digest" where
  "digest_parse_wire_value eng algorithm s =
     (case b64_decode eng s of
        None \<Rightarrow> Err DigestInvalidEncoding
      | Some decoded \<Rightarrow>
          (case digest_new algorithm decoded of
             Inl e \<Rightarrow> Err (DigestLength e)
           | Inr d \<Rightarrow> if digest_to_wire_value eng d \<noteq> s then Err DigestNonCanonical else Ok d))"

definition wf_digest :: "digest_algorithm \<Rightarrow> digest \<Rightarrow> bool" where
  "wf_digest a d = (length (digest_bytes d) = digest_len a)"

section \<open>Chunk manifests\<close>

datatype artifact_id = ArtifactId uuid

datatype chunk_size = ChunkSize u32

definition chunk_size_get :: "chunk_size \<Rightarrow> u32" where
  "chunk_size_get s = (case s of ChunkSize n \<Rightarrow> n)"

datatype invalid_chunk_size = InvalidChunkSize

definition chunk_size_new :: "u32 \<Rightarrow> invalid_chunk_size + chunk_size" where
  "chunk_size_new bytes = (if bytes = 0 then Err InvalidChunkSize else Ok (ChunkSize bytes))"

datatype chunk_index = ChunkIndex (index_value: u32)

record expected_chunk =
  ec_index :: chunk_index
  ec_size :: u32
  ec_digest :: digest

record chunk_manifest =
  cm_artifact_id :: artifact_id
  cm_digest_algorithm :: digest_algorithm
  cm_chunk_size :: chunk_size
  cm_chunks :: "(u32, expected_chunk) fmap"
  cm_sealed :: bool
  cm_chunk_count :: "u32 option"
  cm_artifact_digest :: "digest option"

definition manifest_new ::
  "artifact_id \<Rightarrow> digest_algorithm \<Rightarrow> chunk_size \<Rightarrow> chunk_manifest" where
  "manifest_new artifact algorithm sz =
     \<lparr> cm_artifact_id = artifact, cm_digest_algorithm = algorithm, cm_chunk_size = sz,
       cm_chunks = fmempty, cm_sealed = False, cm_chunk_count = None,
       cm_artifact_digest = None \<rparr>"

definition chunk_indices :: "chunk_manifest \<Rightarrow> chunk_index fset" where
  "chunk_indices m = ChunkIndex |`| fmdom (cm_chunks m)"

definition manifest_expected_chunk :: "chunk_manifest \<Rightarrow> chunk_index \<Rightarrow> expected_chunk option" where
  "manifest_expected_chunk m i = fmlookup (cm_chunks m) (index_value i)"

definition recorded_chunk_count :: "chunk_manifest \<Rightarrow> nat" where
  "recorded_chunk_count m = map_len (cm_chunks m)"

datatype chunk_record_outcome = ChunkAdded chunk_manifest | ChunkAlreadyRecorded

datatype chunk_record_error =
    ChunkConflict chunk_index
  | NotContinuable
  | RecordInvalidDigestLength invalid_digest_length

definition record_expected_chunk ::
  "chunk_manifest \<Rightarrow> chunk_index \<Rightarrow> u32 \<Rightarrow> byte list \<Rightarrow> chunk_record_error + chunk_record_outcome" where
  "record_expected_chunk m index sz bytes =
     (case digest_new (cm_digest_algorithm m) bytes of
        Inl e \<Rightarrow> Err (RecordInvalidDigestLength e)
      | Inr d \<Rightarrow>
          (case fmlookup (cm_chunks m) (index_value index) of
             Some existing \<Rightarrow>
               if ec_size existing = sz \<and> ec_digest existing = d then Ok ChunkAlreadyRecorded
               else Err (ChunkConflict index)
           | None \<Rightarrow>
               if cm_sealed m then Err NotContinuable
               else Ok (ChunkAdded (m\<lparr> cm_chunks := map_insert (index_value index)
                 \<lparr> ec_index = index, ec_size = sz, ec_digest = d \<rparr> (cm_chunks m) \<rparr>))))"

datatype seal_outcome = ManifestSealed chunk_manifest | AlreadySealed

datatype seal_error =
    IncompleteChunkSet
  | NonContiguousIndices
  | ConflictingReseal
  | SealInvalidDigestLength invalid_digest_length

definition manifest_seal ::
  "chunk_manifest \<Rightarrow> u32 \<Rightarrow> byte list \<Rightarrow> seal_error + seal_outcome" where
  "manifest_seal m count bytes =
     (case digest_new (cm_digest_algorithm m) bytes of
        Inl e \<Rightarrow> Err (SealInvalidDigestLength e)
      | Inr d \<Rightarrow>
          if cm_sealed m then
            if cm_chunk_count m = Some count \<and> cm_artifact_digest m = Some d
            then Ok AlreadySealed else Err ConflictingReseal
          else if map_len (cm_chunks m) \<noteq> unat count then Err IncompleteChunkSet
          else if \<not> list_all (\<lambda>i. fmlookup (cm_chunks m) (word_of_nat i) \<noteq> None) [0..<unat count]
          then Err NonContiguousIndices
          else Ok (ManifestSealed (m\<lparr> cm_sealed := True, cm_chunk_count := Some count,
                                       cm_artifact_digest := Some d \<rparr>)))"

datatype chunk_accept_error = UnknownChunkIndex chunk_index | DigestMismatch chunk_index

definition validate_verified_chunk ::
  "chunk_manifest \<Rightarrow> chunk_index \<Rightarrow> byte list \<Rightarrow> chunk_accept_error + unit" where
  "validate_verified_chunk m index bytes =
     (case manifest_expected_chunk m index of
        None \<Rightarrow> Err (UnknownChunkIndex index)
      | Some expected \<Rightarrow>
          if digest_bytes (ec_digest expected) \<noteq> bytes then Err (DigestMismatch index) else Ok ())"

section \<open>Artifacts\<close>

datatype artifact_state = Ar_Incomplete | Ar_PendingVerification | Ar_Verified | Ar_Failed

datatype capture_consistency = CC_NotApplicable | CC_NotEstablished | CC_Established

record artifact =
  ar_id :: artifact_id
  ar_state :: artifact_state
  ar_capture_consistency :: capture_consistency

definition new_incomplete :: "artifact_id \<Rightarrow> artifact" where
  "new_incomplete i = \<lparr> ar_id = i, ar_state = Ar_Incomplete,
     ar_capture_consistency = CC_NotEstablished \<rparr>"

definition artifact_is_terminal :: "artifact \<Rightarrow> bool" where
  "artifact_is_terminal a = (ar_state a = Ar_Verified \<or> ar_state a = Ar_Failed)"

datatype artifact_transition_error =
    NotIncomplete
  | NotPendingVerification
  | ManifestNotSealed
  | ManifestMismatch
  | IncompleteChunks

definition begin_verification ::
  "artifact \<Rightarrow> chunk_manifest \<Rightarrow> chunk_index fset \<Rightarrow> artifact_transition_error + artifact" where
  "begin_verification a m held =
     (if ar_state a \<noteq> Ar_Incomplete then Err NotIncomplete
      else if cm_artifact_id m \<noteq> ar_id a then Err ManifestMismatch
      else if \<not> cm_sealed m then Err ManifestNotSealed
      else if \<not> chunk_indices m |\<subseteq>| held then Err IncompleteChunks
      else Ok (a\<lparr> ar_state := Ar_PendingVerification \<rparr>))"

definition complete_verification ::
  "artifact \<Rightarrow> bool \<Rightarrow> artifact_transition_error + artifact" where
  "complete_verification a digest_matches =
     (if ar_state a \<noteq> Ar_PendingVerification then Err NotPendingVerification
      else Ok (a\<lparr> ar_state := (if digest_matches then Ar_Verified else Ar_Failed) \<rparr>))"

definition fail_incomplete :: "artifact \<Rightarrow> artifact_transition_error + artifact" where
  "fail_incomplete a =
     (if ar_state a \<noteq> Ar_Incomplete then Err NotIncomplete
      else Ok (a\<lparr> ar_state := Ar_Failed \<rparr>))"

definition set_capture_consistency :: "artifact \<Rightarrow> capture_consistency \<Rightarrow> artifact" where
  "set_capture_consistency a v = a\<lparr> ar_capture_consistency := v \<rparr>"

section \<open>Transfers\<close>

datatype transfer_id = TransferId uuid

datatype transfer_direction = AgentToServer

datatype source_provenance = SourceProvenance string

record transfer =
  tr_id :: transfer_id
  tr_endpoint_id :: endpoint_id
  tr_job_id :: job_id
  tr_job_step_id :: job_step_id
  tr_artifact_id :: artifact_id
  tr_direction :: transfer_direction
  tr_digest_algorithm :: digest_algorithm
  tr_chunk_size :: chunk_size
  tr_source_provenance :: source_provenance
  tr_attempt_id :: "attempt_id option"

definition is_attempt_bound :: "transfer \<Rightarrow> bool" where
  "is_attempt_bound t = (tr_attempt_id t \<noteq> None)"

record transfer_context =
  tc_transfer :: transfer
  tc_artifact :: artifact
  tc_manifest :: chunk_manifest

definition create_transfer_context ::
  "uuid_source \<Rightarrow> endpoint_id \<Rightarrow> job_id \<Rightarrow> job_step_id \<Rightarrow> transfer_direction \<Rightarrow> digest_algorithm
    \<Rightarrow> chunk_size \<Rightarrow> source_provenance \<Rightarrow> transfer_context" where
  "create_transfer_context new_v4 endpoint job step direction algorithm sz provenance =
     (let artifact_id = ArtifactId (new_v4 0) in
      \<lparr> tc_transfer =
          \<lparr> tr_id = TransferId (new_v4 1), tr_endpoint_id = endpoint, tr_job_id = job,
            tr_job_step_id = step, tr_artifact_id = artifact_id, tr_direction = direction,
            tr_digest_algorithm = algorithm, tr_chunk_size = sz,
            tr_source_provenance = provenance, tr_attempt_id = None \<rparr>,
        tc_artifact = new_incomplete artifact_id,
        tc_manifest = manifest_new artifact_id algorithm sz \<rparr>)"

datatype transfer_binding_error = WrongJobStep | ConflictingRebind

definition bind_attempt :: "transfer \<Rightarrow> attempt \<Rightarrow> transfer_binding_error + transfer" where
  "bind_attempt t attempt =
     (if at_job_step_id attempt \<noteq> tr_job_step_id t then Err WrongJobStep
      else case tr_attempt_id t of
        Some existing \<Rightarrow>
          if existing \<noteq> at_id attempt then Err ConflictingRebind
          else Ok (t\<lparr> tr_attempt_id := Some (at_id attempt) \<rparr>)
      | None \<Rightarrow> Ok (t\<lparr> tr_attempt_id := Some (at_id attempt) \<rparr>))"

section \<open>The digest wire form\<close>

lemma digest_new_Ok_iff: "digest_new a bs = Ok d \<longleftrightarrow> d = Digest bs \<and> length bs = digest_len a"
  by (auto simp: digest_new_def Let_def)

context base64url
begin

lemma digest_canonical:
  "canonical_wire (digest_to_wire_value eng) (digest_parse_wire_value eng a) (wf_digest a)"
proof
  fix d assume "wf_digest a d"
  then show "digest_parse_wire_value eng a (digest_to_wire_value eng d) = Inr d"
    by (cases d) (simp add: wf_digest_def digest_parse_wire_value_def digest_to_wire_value_def
        digest_new_def decode_encode)
next
  fix s d assume "digest_parse_wire_value eng a s = Inr d"
  then show "wf_digest a d \<and> digest_to_wire_value eng d = s"
    by (auto simp: wf_digest_def digest_parse_wire_value_def digest_new_def Let_def
        split: if_splits option.splits sum.splits)
qed

end

sublocale base64url \<subseteq> digest_wire: canonical_wire
    "digest_to_wire_value eng" "digest_parse_wire_value eng a" "wf_digest a" for a
  by (rule digest_canonical)

section \<open>Invariant of a manifest\<close>

definition manifest_wf :: "chunk_manifest \<Rightarrow> bool" where
  "manifest_wf m \<longleftrightarrow>
     (\<forall>i c. fmlookup (cm_chunks m) i = Some c \<longrightarrow>
        ec_index c = ChunkIndex i \<and> wf_digest (cm_digest_algorithm m) (ec_digest c)) \<and>
     (if cm_sealed m
      then \<exists>n d. cm_chunk_count m = Some n \<and> cm_artifact_digest m = Some d \<and>
             wf_digest (cm_digest_algorithm m) d \<and>
             fmdom' (cm_chunks m) = {i. i < n}
      else cm_chunk_count m = None \<and> cm_artifact_digest m = None)"

lemma manifest_wf_new: "manifest_wf (manifest_new a alg sz)"
  by (simp add: manifest_wf_def manifest_new_def)

lemma record_expected_chunk_Added:
  assumes "record_expected_chunk m index sz bs = Ok (ChunkAdded m')"
  shows "\<not> cm_sealed m \<and> fmlookup (cm_chunks m) (index_value index) = None \<and>
    length bs = digest_len (cm_digest_algorithm m) \<and>
    m' = m\<lparr> cm_chunks := map_insert (index_value index)
      \<lparr> ec_index = index, ec_size = sz, ec_digest = Digest bs \<rparr> (cm_chunks m) \<rparr>"
  using assms
  by (auto simp: record_expected_chunk_def digest_new_def Let_def
      split: if_splits option.splits sum.splits)

lemma record_expected_chunk_wf:
  assumes "manifest_wf m" and "record_expected_chunk m index sz bs = Ok (ChunkAdded m')"
  shows "manifest_wf m'"
  using record_expected_chunk_Added [OF assms(2)] assms(1)
  by (cases index) (auto simp: manifest_wf_def wf_digest_def split: if_splits)

lemma range_of_contiguous:
  assumes "list_all (\<lambda>i. fmlookup f (word_of_nat i) \<noteq> None) [0..<unat n]"
  shows "{i. i < n} \<subseteq> fmdom' (f :: (u32, 'c) fmap)"
proof
  fix i :: u32 assume "i \<in> {i. i < n}"
  then have "unat i \<in> set [0..<unat n]" by (simp add: word_less_nat_alt)
  with assms have "fmlookup f (word_of_nat (unat i)) \<noteq> None" unfolding list_all_iff by (rule bspec)
  then show "i \<in> fmdom' f" by (auto simp: fmlookup_dom'_iff)
qed

lemma unat_lt2p_u32: "unat (n :: u32) < 4294967296"
proof -
  have "unat n < 2 ^ LENGTH(32)" by (rule unsigned_less)
  then show ?thesis by simp
qed

lemma card_words_below: "card {i :: u32. i < n} = unat n"
proof -
  have bound: "k < 4294967296" if "k < unat n" for k
    using that unat_lt2p_u32 [of n] by simp
  have "bij_betw unat {i :: u32. i < n} {..<unat n}"
  proof (rule bij_betw_byWitness [where f' = word_of_nat])
    show "\<forall>i\<in>{i :: u32. i < n}. word_of_nat (unat i) = i" by simp
    show "\<forall>k\<in>{..<unat n}. unat (word_of_nat k :: u32) = k"
      using bound by (simp add: unat_of_nat)
    show "unat ` {i :: u32. i < n} \<subseteq> {..<unat n}" by (auto simp: word_less_nat_alt)
    show "word_of_nat ` {..<unat n} \<subseteq> {i :: u32. i < n}"
      using bound by (auto simp: word_less_nat_alt unat_of_nat)
  qed
  then show ?thesis by (auto dest: bij_betw_same_card)
qed

lemma sealed_range_exact:
  assumes "map_len f = unat n"
    and "list_all (\<lambda>i. fmlookup f (word_of_nat i) \<noteq> None) [0..<unat n]"
  shows "fmdom' (f :: (u32, 'c) fmap) = {i. i < n}"
proof (rule sym, rule card_subset_eq)
  show "finite (fmdom' f)" by simp
  show "{i. i < n} \<subseteq> fmdom' f" using assms(2) by (rule range_of_contiguous)
  have "card (fmdom' f) = map_len f"
    by (simp add: map_len_def fcard.rep_eq fmdom'_alt_def)
  then show "card {i. i < n} = card (fmdom' f)"
    using assms(1) by (simp add: card_words_below)
qed

lemma manifest_seal_Sealed:
  assumes "manifest_seal m n bs = Ok (ManifestSealed m')"
  shows "\<not> cm_sealed m \<and> length bs = digest_len (cm_digest_algorithm m) \<and>
    fmdom' (cm_chunks m) = {i. i < n} \<and>
    m' = m\<lparr> cm_sealed := True, cm_chunk_count := Some n, cm_artifact_digest := Some (Digest bs) \<rparr>"
  using assms sealed_range_exact [of "cm_chunks m" n]
  by (auto simp: manifest_seal_def digest_new_def Let_def split: if_splits sum.splits)

lemma manifest_seal_wf:
  assumes "manifest_wf m" and "manifest_seal m n bs = Ok (ManifestSealed m')"
  shows "manifest_wf m'"
  using manifest_seal_Sealed [OF assms(2)] assms(1)
  by (auto simp: manifest_wf_def wf_digest_def)

section \<open>Artifact transitions\<close>

lemma begin_verification_Ok_iff:
  "begin_verification a m held = Ok b \<longleftrightarrow>
     ar_state a = Ar_Incomplete \<and> cm_artifact_id m = ar_id a \<and> cm_sealed m \<and>
     chunk_indices m |\<subseteq>| held \<and> b = a\<lparr> ar_state := Ar_PendingVerification \<rparr>"
  by (auto simp: begin_verification_def)

lemma complete_verification_Ok_iff:
  "complete_verification a ok = Ok b \<longleftrightarrow>
     ar_state a = Ar_PendingVerification \<and>
     b = a\<lparr> ar_state := (if ok then Ar_Verified else Ar_Failed) \<rparr>"
  by (auto simp: complete_verification_def)

lemma fail_incomplete_Ok_iff:
  "fail_incomplete a = Ok b \<longleftrightarrow> ar_state a = Ar_Incomplete \<and> b = a\<lparr> ar_state := Ar_Failed \<rparr>"
  by (auto simp: fail_incomplete_def)

lemma bind_attempt_Ok_iff:
  "bind_attempt t a = Ok u \<longleftrightarrow>
     at_job_step_id a = tr_job_step_id t \<and> (tr_attempt_id t = None \<or> tr_attempt_id t = Some (at_id a)) \<and>
     u = t\<lparr> tr_attempt_id := Some (at_id a) \<rparr>"
  by (auto simp: bind_attempt_def split: option.splits)

end
