(* ===== verification/Dispatch.thy ===== *)
theory Dispatch
  imports Transfer_Model
begin

text \<open>
  The two gates that turn a JobStep into an executing Attempt: the destructive gate
  (\<open>final_dispatch.rs\<close>) with the facts the application resolves for it from the locked Endpoint
  (\<open>FinalDispatchService\<close> of \<open>application/mod.rs\<close>), and the gate of the non-destructive
  transfer action (\<open>transfer_dispatch.rs\<close>).

  The lemmas characterise success exactly, and show that a denial either changes nothing or
  returns the step to pending.
\<close>

section \<open>The destructive gate\<close>

record final_dispatch_inputs =
  fd_job :: job
  fd_step_id :: job_step_id
  fd_existing_active_attempt :: bool
  fd_identity_enrolled :: bool
  fd_credential_active :: bool
  fd_agent_present :: bool
  fd_current_inventory_revision_id :: "inventory_revision_id option"
  fd_current_target_fingerprint :: "target_fingerprint option"
  fd_hardware_confidence :: hardware_confidence
  fd_trusted_bootstrap_established :: bool

record final_dispatch_outcome =
  fo_job_step :: job_step
  fo_attempt :: attempt

datatype final_dispatch_rejection =
    FD_StepNotFound
  | FD_NotPreconditionsSatisfied
  | FD_JobNotRunning
  | FD_NotCurrentStep
  | FD_ExistingActiveAttempt
  | FD_NoDestructiveIntent
  | FD_IdentityNotEnrolled
  | FD_CredentialNotActive
  | FD_AgentNotPresent
  | FD_StaleInventory
  | FD_TargetMismatch
  | FD_HardwareConfidenceNotConsistent
  | FD_TrustedBootstrapNotEstablished

record final_dispatch_denial =
  fx_rejection :: final_dispatch_rejection
  fx_pending_job_step :: "job_step option"

definition fd_structural :: "final_dispatch_rejection \<Rightarrow> final_dispatch_denial" where
  "fd_structural r = \<lparr> fx_rejection = r, fx_pending_job_step = None \<rparr>"

definition fd_revalidation_failure ::
  "final_dispatch_rejection \<Rightarrow> job_step \<Rightarrow> final_dispatch_denial" where
  "fd_revalidation_failure r step =
     \<lparr> fx_rejection = r, fx_pending_job_step = Some (step\<lparr> js_state := S_Pending \<rparr>) \<rparr>"

definition evaluate_final_destructive_dispatch ::
  "uuid_source \<Rightarrow> final_dispatch_inputs \<Rightarrow> final_dispatch_denial + final_dispatch_outcome" where
  "evaluate_final_destructive_dispatch new_v4 inputs =
     (case find_step (fd_step_id inputs) (fd_job inputs) of
        None \<Rightarrow> Err (fd_structural FD_StepNotFound)
      | Some step \<Rightarrow>
          if js_state step \<noteq> S_PreconditionsSatisfied
          then Err (fd_structural FD_NotPreconditionsSatisfied)
          else let deny = (\<lambda>r. Err (fd_revalidation_failure r step)) in
            if jb_state (fd_job inputs) \<noteq> J_Running then deny FD_JobNotRunning
            else if \<not> earlier_steps_all_succeeded (fd_job inputs) step then deny FD_NotCurrentStep
            else if fd_existing_active_attempt inputs then deny FD_ExistingActiveAttempt
            else (case js_destructive_intent step of
                None \<Rightarrow> deny FD_NoDestructiveIntent
              | Some intent \<Rightarrow>
                  if \<not> fd_identity_enrolled inputs then deny FD_IdentityNotEnrolled
                  else if \<not> fd_credential_active inputs then deny FD_CredentialNotActive
                  else if \<not> fd_agent_present inputs then deny FD_AgentNotPresent
                  else if fd_current_inventory_revision_id inputs
                            \<noteq> Some (authorized_inventory_revision_id intent)
                  then deny FD_StaleInventory
                  else if fd_current_target_fingerprint inputs
                            \<noteq> Some (authorized_target_fingerprint intent)
                  then deny FD_TargetMismatch
                  else if fd_hardware_confidence inputs \<noteq> Consistent
                  then deny FD_HardwareConfidenceNotConsistent
                  else if \<not> fd_trusted_bootstrap_established inputs
                  then deny FD_TrustedBootstrapNotEstablished
                  else Ok
                    \<lparr> fo_job_step = step\<lparr> js_state := S_Dispatching \<rparr>,
                      fo_attempt = \<lparr> at_id = AttemptId (new_v4 0), at_job_step_id = js_id step,
                        at_action_id = ActionId (new_v4 1), at_state = A_Dispatched \<rparr> \<rparr>))"

text \<open>
  The inputs as \<open>FinalDispatchService\<close> resolves them: \<open>present\<close> and \<open>target\<close> are what the
  presence registry and the target revalidation port answer for the Endpoint.
\<close>

definition resolve_dispatch_inputs ::
  "job \<Rightarrow> job_step_id \<Rightarrow> bool \<Rightarrow> endpoint_aggregate \<Rightarrow> inventory_revision_id option
    \<Rightarrow> bool \<Rightarrow> target_fingerprint option \<Rightarrow> time \<Rightarrow> final_dispatch_inputs" where
  "resolve_dispatch_inputs job step_id existing endpoint inventory present target now =
     \<lparr> fd_job = job, fd_step_id = step_id, fd_existing_active_attempt = existing,
       fd_identity_enrolled = (ep_identity endpoint = Enrolled),
       fd_credential_active = (chain_dimension (ep_credential endpoint) now = CredentialActive),
       fd_agent_present = present,
       fd_current_inventory_revision_id = inventory,
       fd_current_target_fingerprint = target,
       fd_hardware_confidence = ep_hardware_confidence endpoint,
       fd_trusted_bootstrap_established =
         (case ep_current_boot endpoint of
            None \<Rightarrow> False
          | Some cb \<Rightarrow> cb_trusted_bootstrap cb = Established) \<rparr>"

section \<open>The transfer gate\<close>

record transfer_dispatch_inputs =
  td_job :: job
  td_step_id :: job_step_id
  td_existing_active_attempt :: bool
  td_transfer :: transfer

record transfer_dispatch_outcome =
  to_job_step :: job_step
  to_attempt :: attempt
  to_transfer :: transfer

datatype transfer_dispatch_rejection =
    TD_StepNotFound
  | TD_NotPreconditionsSatisfied
  | TD_StepIsDestructive
  | TD_TransferCorrelationMismatch
  | TD_JobNotRunning
  | TD_NotCurrentStep
  | TD_ExistingActiveAttempt
  | TD_TransferAlreadyBound

record transfer_dispatch_denial =
  tx_rejection :: transfer_dispatch_rejection
  tx_pending_job_step :: "job_step option"

definition td_structural :: "transfer_dispatch_rejection \<Rightarrow> transfer_dispatch_denial" where
  "td_structural r = \<lparr> tx_rejection = r, tx_pending_job_step = None \<rparr>"

definition td_revalidation_failure ::
  "transfer_dispatch_rejection \<Rightarrow> job_step \<Rightarrow> transfer_dispatch_denial" where
  "td_revalidation_failure r step =
     \<lparr> tx_rejection = r, tx_pending_job_step = Some (step\<lparr> js_state := S_Pending \<rparr>) \<rparr>"

definition evaluate_transfer_dispatch ::
  "uuid_source \<Rightarrow> transfer_dispatch_inputs \<Rightarrow> transfer_dispatch_denial + transfer_dispatch_outcome" where
  "evaluate_transfer_dispatch new_v4 inputs =
     (case find_step (td_step_id inputs) (td_job inputs) of
        None \<Rightarrow> Err (td_structural TD_StepNotFound)
      | Some step \<Rightarrow>
          if js_state step \<noteq> S_PreconditionsSatisfied
          then Err (td_structural TD_NotPreconditionsSatisfied)
          else if js_destructive_intent step \<noteq> None
          then Err (td_structural TD_StepIsDestructive)
          else let t = td_transfer inputs in
            if tr_job_id t \<noteq> jb_id (td_job inputs) \<or> tr_job_step_id t \<noteq> td_step_id inputs
                 \<or> tr_endpoint_id t \<noteq> jb_endpoint_id (td_job inputs)
            then Err (td_structural TD_TransferCorrelationMismatch)
            else let deny = (\<lambda>r. Err (td_revalidation_failure r step)) in
              if jb_state (td_job inputs) \<noteq> J_Running then deny TD_JobNotRunning
              else if \<not> earlier_steps_all_succeeded (td_job inputs) step then deny TD_NotCurrentStep
              else if td_existing_active_attempt inputs then deny TD_ExistingActiveAttempt
              else let attempt = \<lparr> at_id = AttemptId (new_v4 0), at_job_step_id = js_id step,
                                   at_action_id = ActionId (new_v4 1), at_state = A_Dispatched \<rparr> in
                (case bind_attempt t attempt of
                   Inr bound \<Rightarrow> Ok \<lparr> to_job_step = step\<lparr> js_state := S_Dispatching \<rparr>,
                                      to_attempt = attempt, to_transfer = bound \<rparr>
                 | Inl ConflictingRebind \<Rightarrow> deny TD_TransferAlreadyBound
                 | Inl WrongJobStep \<Rightarrow> Err (td_structural TD_TransferCorrelationMismatch)))"

section \<open>What the gates decide\<close>

definition dispatched_attempt :: "uuid_source \<Rightarrow> job_step_id \<Rightarrow> attempt" where
  "dispatched_attempt new_v4 sid =
     \<lparr> at_id = AttemptId (new_v4 0), at_job_step_id = sid,
       at_action_id = ActionId (new_v4 1), at_state = A_Dispatched \<rparr>"

lemma final_dispatch_Ok_iff:
  "evaluate_final_destructive_dispatch new_v4 i = Ok out \<longleftrightarrow>
     (\<exists>step intent. find_step (fd_step_id i) (fd_job i) = Some step \<and>
        js_state step = S_PreconditionsSatisfied \<and> jb_state (fd_job i) = J_Running \<and>
        earlier_steps_all_succeeded (fd_job i) step \<and> \<not> fd_existing_active_attempt i \<and>
        js_destructive_intent step = Some intent \<and>
        fd_identity_enrolled i \<and> fd_credential_active i \<and> fd_agent_present i \<and>
        fd_current_inventory_revision_id i = Some (authorized_inventory_revision_id intent) \<and>
        fd_current_target_fingerprint i = Some (authorized_target_fingerprint intent) \<and>
        fd_hardware_confidence i = Consistent \<and> fd_trusted_bootstrap_established i \<and>
        out = \<lparr> fo_job_step = step\<lparr> js_state := S_Dispatching \<rparr>,
                fo_attempt = dispatched_attempt new_v4 (js_id step) \<rparr>)"
  unfolding evaluate_final_destructive_dispatch_def Let_def dispatched_attempt_def
  by (auto split: option.split)

lemma final_dispatch_denial_cases:
  assumes "evaluate_final_destructive_dispatch new_v4 i = Err d"
  shows "fx_pending_job_step d = None \<or>
    (\<exists>step. find_step (fd_step_id i) (fd_job i) = Some step \<and>
       js_state step = S_PreconditionsSatisfied \<and>
       fx_pending_job_step d = Some (step\<lparr> js_state := S_Pending \<rparr>))"
  using assms
  by (auto simp: evaluate_final_destructive_dispatch_def Let_def fd_structural_def
      fd_revalidation_failure_def split: option.splits if_splits)

lemma transfer_dispatch_Ok_iff:
  "evaluate_transfer_dispatch new_v4 i = Ok out \<longleftrightarrow>
     (\<exists>step. find_step (td_step_id i) (td_job i) = Some step \<and>
        js_state step = S_PreconditionsSatisfied \<and> js_destructive_intent step = None \<and>
        tr_job_id (td_transfer i) = jb_id (td_job i) \<and>
        tr_job_step_id (td_transfer i) = td_step_id i \<and>
        tr_endpoint_id (td_transfer i) = jb_endpoint_id (td_job i) \<and>
        jb_state (td_job i) = J_Running \<and> earlier_steps_all_succeeded (td_job i) step \<and>
        \<not> td_existing_active_attempt i \<and>
        tr_attempt_id (td_transfer i) \<in> {None, Some (AttemptId (new_v4 0))} \<and>
        out = \<lparr> to_job_step = step\<lparr> js_state := S_Dispatching \<rparr>,
                to_attempt = dispatched_attempt new_v4 (js_id step),
                to_transfer = (td_transfer i)\<lparr> tr_attempt_id := Some (AttemptId (new_v4 0)) \<rparr> \<rparr>)"
  unfolding evaluate_transfer_dispatch_def Let_def dispatched_attempt_def
  by (auto simp: bind_attempt_def find_step_SomeD
      split: option.splits sum.splits if_splits transfer_binding_error.splits)

lemma transfer_dispatch_denial_cases:
  assumes "evaluate_transfer_dispatch new_v4 i = Err d"
  shows "tx_pending_job_step d = None \<or>
    (\<exists>step. find_step (td_step_id i) (td_job i) = Some step \<and>
       js_state step = S_PreconditionsSatisfied \<and>
       tx_pending_job_step d = Some (step\<lparr> js_state := S_Pending \<rparr>))"
  using assms
  by (auto simp: evaluate_transfer_dispatch_def Let_def td_structural_def
      td_revalidation_failure_def
      split: option.splits if_splits sum.splits transfer_binding_error.splits)

end
