(* ===== verification/Job_Store.thy ===== *)
theory Job_Store
  imports Job_Evidence Dispatch
begin

text \<open>
  Jobs as the server keeps them: the durable tables behind the job services and the transactions
  of \<open>src/crates/server/src/adapters/postgres/job_repository.rs\<close>, each with the decision that
  the services of \<open>application/mod.rs\<close> pass to it (\<open>JobService\<close>, \<open>JobSchedulingService\<close>,
  \<open>DestructiveIntentService\<close>, \<open>FinalDispatchService\<close>, \<open>TransferDispatchService\<close>,
  \<open>ActionEvidenceService\<close>, \<open>CancellationService\<close>, \<open>ReconciliationService\<close>).

  A table is the list of its rows, and a statement is the corresponding list operation. A
  transaction is one atomic step, because every row it decides on is locked until it commits.
  Where a transaction first scans without locks and then locks the rows found, the result of the
  scan is an argument: it may stem from an earlier state. Facts of other tables (the Endpoint,
  its inventory) and of runtime registries are arguments too. A violated constraint is an error
  that leaves the tables unchanged. The text of an audit record, which nothing reads, is an
  argument.
\<close>

section \<open>Tables\<close>

record job_row =
  jr_id :: job_id
  jr_endpoint_id :: endpoint_id
  jr_state :: job_state

record job_db =
  jd_jobs :: "job_row list"
  jd_steps :: "job_step list"
  jd_attempts :: "attempt list"
  jd_transfers :: "transfer list"
  jd_events :: "domain_event list"
  jd_audit :: "audit_record list"

definition empty_jobs :: job_db where
  "empty_jobs = \<lparr> jd_jobs = [], jd_steps = [], jd_attempts = [], jd_transfers = [],
     jd_events = [], jd_audit = [] \<rparr>"

datatype job_store_error =
    StoreEmptyWorkflow
  | StoreEndpointNotFound
  | StoreEndpointNotEnrolled
  | StoreJobNotFound
  | StoreJobStepNotFound
  | StoreJobEndpointMismatch
  | StoreNotEligible
  | StoreAlreadyAuthorized
  | StoreNoCurrentInventory
  | StoreNoCurrentTarget
  | StoreEndpointNotAvailable
  | StoreJobNotRunning
  | StoreNotCurrent
  | StoreTransferNotFound
  | StoreDispatchRejected final_dispatch_rejection
  | StoreTransferRejected transfer_dispatch_rejection
  | StoreUnknownAction
  | StoreNoUncertainAttempt
  | StoreBackend

type_synonym 'a job_tx = "job_db \<times> (job_store_error + 'a)"

definition fetch_job_steps :: "job_db \<Rightarrow> job_id \<Rightarrow> job_step list" where
  "fetch_job_steps db jid = sort_key js_order (filter (\<lambda>s. js_job_id s = jid) (jd_steps db))"

definition find_job_row :: "job_db \<Rightarrow> job_id \<Rightarrow> job_row option" where
  "find_job_row db jid = find (\<lambda>r. jr_id r = jid) (jd_jobs db)"

definition find_job :: "job_db \<Rightarrow> job_id \<Rightarrow> job option" where
  "find_job db jid =
     (case find_job_row db jid of
        None \<Rightarrow> None
      | Some r \<Rightarrow> Some \<lparr> jb_id = jid, jb_endpoint_id = jr_endpoint_id r, jb_state = jr_state r,
                         jb_steps = fetch_job_steps db jid \<rparr>)"

definition find_step_row :: "job_db \<Rightarrow> job_step_id \<Rightarrow> job_step option" where
  "find_step_row db sid = find (\<lambda>s. js_id s = sid) (jd_steps db)"

definition find_attempt :: "job_db \<Rightarrow> attempt_id \<Rightarrow> attempt option" where
  "find_attempt db aid = find (\<lambda>a. at_id a = aid) (jd_attempts db)"

definition find_attempt_by_action :: "job_db \<Rightarrow> action_id \<Rightarrow> attempt option" where
  "find_attempt_by_action db act = find (\<lambda>a. at_action_id a = act) (jd_attempts db)"

definition existing_active_attempt :: "job_db \<Rightarrow> job_step_id \<Rightarrow> bool" where
  "existing_active_attempt db sid =
     list_ex (\<lambda>a. at_job_step_id a = sid \<and> attempt_active (at_state a)) (jd_attempts db)"

section \<open>Statements\<close>

text \<open>The partial unique index \<open>jobs_active_endpoint_exclusivity\<close>.\<close>

definition exclusivity_violated :: "job_db \<Rightarrow> job_id \<Rightarrow> job_state \<Rightarrow> bool" where
  "exclusivity_violated db jid st =
     (job_active st \<and>
      list_ex (\<lambda>r. jr_id r = jid \<and>
        list_ex (\<lambda>q. jr_id q \<noteq> jid \<and> jr_endpoint_id q = jr_endpoint_id r \<and> job_active (jr_state q))
          (jd_jobs db)) (jd_jobs db))"

definition set_job_state :: "job_id \<Rightarrow> job_state \<Rightarrow> job_db \<Rightarrow> job_db" where
  "set_job_state jid st db =
     db\<lparr> jd_jobs := map (\<lambda>r. if jr_id r = jid then r\<lparr> jr_state := st \<rparr> else r) (jd_jobs db) \<rparr>"

definition update_job_state :: "job_id \<Rightarrow> job_state \<Rightarrow> job_db \<Rightarrow> job_db option" where
  "update_job_state jid st db =
     (if exclusivity_violated db jid st then None else Some (set_job_state jid st db))"

definition update_step :: "job_step_id \<Rightarrow> (job_step \<Rightarrow> job_step) \<Rightarrow> job_db \<Rightarrow> job_db" where
  "update_step sid f db =
     db\<lparr> jd_steps := map (\<lambda>s. if js_id s = sid then f s else s) (jd_steps db) \<rparr>"

definition update_attempt_state :: "attempt_id \<Rightarrow> attempt_state \<Rightarrow> job_db \<Rightarrow> job_db" where
  "update_attempt_state aid st db =
     db\<lparr> jd_attempts := map (\<lambda>a. if at_id a = aid then a\<lparr> at_state := st \<rparr> else a) (jd_attempts db) \<rparr>"

definition insert_attempt :: "attempt \<Rightarrow> job_db \<Rightarrow> job_db option" where
  "insert_attempt a db =
     (if at_id a \<in> at_id ` set (jd_attempts db) \<or> at_action_id a \<in> at_action_id ` set (jd_attempts db)
      then None else Some (db\<lparr> jd_attempts := jd_attempts db @ [a] \<rparr>))"

definition insert_events :: "domain_event list \<Rightarrow> job_db \<Rightarrow> job_db option" where
  "insert_events evs db =
     (if distinct (map event_id (jd_events db @ evs))
      then Some (db\<lparr> jd_events := jd_events db @ evs \<rparr>) else None)"

definition insert_audit_record :: "audit_record \<Rightarrow> job_db \<Rightarrow> job_db option" where
  "insert_audit_record a db =
     (if audit_id a \<in> audit_id ` set (jd_audit db) then None
      else Some (db\<lparr> jd_audit := jd_audit db @ [a] \<rparr>))"

definition insert_workflow :: "job \<Rightarrow> job_db \<Rightarrow> job_db option" where
  "insert_workflow j db =
     (if jb_id j \<in> jr_id ` set (jd_jobs db) then None
      else if \<not> distinct (map js_id (jd_steps db @ jb_steps j)) then None
      else if \<not> list_all (\<lambda>s. 0 \<le> js_order s) (jb_steps j) then None
      else if \<not> distinct (map js_order (jb_steps j)) then None
      else Some (db\<lparr> jd_jobs := jd_jobs db @ [\<lparr> jr_id = jb_id j, jr_endpoint_id = jb_endpoint_id j,
                                                jr_state = jb_state j \<rparr>],
                     jd_steps := jd_steps db @ jb_steps j \<rparr>))"

definition persist_attempt_binding :: "transfer_id \<Rightarrow> attempt_id \<Rightarrow> job_db \<Rightarrow> job_db option" where
  "persist_attempt_binding tid aid db =
     (if list_ex (\<lambda>t. tr_id t \<noteq> tid \<and> tr_attempt_id t = Some aid) (jd_transfers db) then None
      else Some (db\<lparr> jd_transfers := map (\<lambda>t. if tr_id t = tid
                        then t\<lparr> tr_attempt_id := Some aid \<rparr> else t) (jd_transfers db) \<rparr>))"

section \<open>Creation, authorization and scheduling\<close>

definition create_workflow_tx ::
  "job_db \<Rightarrow> uuid_source \<Rightarrow> identity_state option \<Rightarrow> endpoint_id \<Rightarrow> nat \<Rightarrow> job job_tx" where
  "create_workflow_tx db new_v4 identity endpoint step_count =
     (case create_workflow new_v4 endpoint step_count of
        Inl _ \<Rightarrow> (db, Err StoreEmptyWorkflow)
      | Inr j \<Rightarrow>
          (case identity of
             None \<Rightarrow> (db, Err StoreEndpointNotFound)
           | Some st \<Rightarrow>
               if st \<noteq> Enrolled then (db, Err StoreEndpointNotEnrolled)
               else (case insert_workflow j db of
                   None \<Rightarrow> (db, Err StoreBackend)
                 | Some db' \<Rightarrow> (db', Ok j))))"

text \<open>\<open>read\<close> is the unlocked read of the Job that precedes the transaction.\<close>

definition authorize_intent_tx ::
  "job_db \<Rightarrow> job option \<Rightarrow> job_id \<Rightarrow> job_step_id \<Rightarrow> inventory_revision_id option
    \<Rightarrow> target_fingerprint option \<Rightarrow> destructive_intent job_tx" where
  "authorize_intent_tx db read jid sid inventory target =
     (case read of
        None \<Rightarrow> (db, Err StoreJobNotFound)
      | Some job \<Rightarrow>
          if \<not> list_ex (\<lambda>s. js_id s = sid) (jb_steps job) then (db, Err StoreJobStepNotFound)
          else (case inventory of
              None \<Rightarrow> (db, Err StoreNoCurrentInventory)
            | Some revision \<Rightarrow>
                (case target of
                   None \<Rightarrow> (db, Err StoreNoCurrentTarget)
                 | Some fingerprint \<Rightarrow>
                     (case find (\<lambda>s. js_id s = sid \<and> js_job_id s = jid) (jd_steps db) of
                        None \<Rightarrow> (db, Err StoreJobStepNotFound)
                      | Some step \<Rightarrow>
                          (case authorize_destructive_intent step jid revision fingerprint of
                             Inl WrongJob \<Rightarrow> (db, Err StoreJobStepNotFound)
                           | Inl NotEligible \<Rightarrow> (db, Err StoreNotEligible)
                           | Inl AlreadyAuthorized \<Rightarrow> (db, Err StoreAlreadyAuthorized)
                           | Inr intent \<Rightarrow>
                               (update_step sid (\<lambda>s. s\<lparr> js_destructive_intent := Some intent \<rparr>) db,
                                Ok intent))))))"

definition admit_job_tx :: "job_db \<Rightarrow> uuid_source \<Rightarrow> job_id \<Rightarrow> time \<Rightarrow> job job_tx" where
  "admit_job_tx db new_v4 jid now =
     (case find_job db jid of
        None \<Rightarrow> (db, Err StoreJobNotFound)
      | Some job \<Rightarrow>
          (case admit_job new_v4 job now of
             Inl NotPending \<Rightarrow> (db, Err StoreNotEligible)
           | Inr outcome \<Rightarrow>
               (case update_job_state jid (jb_state (ad_job outcome)) db of
                  None \<Rightarrow> (db, Err StoreEndpointNotAvailable)
                | Some db1 \<Rightarrow>
                    (case insert_events [ad_event outcome] db1 of
                       None \<Rightarrow> (db, Err StoreBackend)
                     | Some db2 \<Rightarrow> (db2, Ok (ad_job outcome))))))"

definition satisfy_preconditions_tx :: "job_db \<Rightarrow> job_id \<Rightarrow> job_step_id \<Rightarrow> job_step job_tx" where
  "satisfy_preconditions_tx db jid sid =
     (case find_job db jid of
        None \<Rightarrow> (db, Err StoreJobNotFound)
      | Some job \<Rightarrow>
          (case satisfy_preliminary_preconditions job sid of
             Inl JobNotRunning \<Rightarrow> (db, Err StoreJobNotRunning)
           | Inl StepNotFound \<Rightarrow> (db, Err StoreJobStepNotFound)
           | Inl NotCurrent \<Rightarrow> (db, Err StoreNotCurrent)
           | Inr step \<Rightarrow> (update_step sid (\<lambda>s. s\<lparr> js_state := js_state step \<rparr>) db, Ok step)))"

section \<open>Dispatch\<close>

record dispatch_facts =
  df_endpoint :: "endpoint_aggregate option"
  df_inventory :: "inventory_revision_id option"
  df_present :: bool
  df_target :: "target_fingerprint option"
  df_now :: time
  df_detail :: string

definition commit_destructive_dispatch_tx ::
  "job_db \<Rightarrow> uuid_source \<Rightarrow> job_id \<Rightarrow> job_step_id \<Rightarrow> dispatch_facts
    \<Rightarrow> final_dispatch_outcome job_tx" where
  "commit_destructive_dispatch_tx db new_v4 jid sid facts =
     (case find_job db jid of
        None \<Rightarrow> (db, Err StoreJobNotFound)
      | Some job \<Rightarrow>
          (case df_endpoint facts of
             None \<Rightarrow> (db, Err StoreBackend)
           | Some endpoint \<Rightarrow>
               (case evaluate_final_destructive_dispatch new_v4
                       (resolve_dispatch_inputs job sid (existing_active_attempt db sid) endpoint
                          (df_inventory facts) (df_present facts) (df_target facts) (df_now facts)) of
                  Inl denial \<Rightarrow>
                    ((case fx_pending_job_step denial of
                        Some pending \<Rightarrow> update_step sid (\<lambda>s. s\<lparr> js_state := js_state pending \<rparr>) db
                      | None \<Rightarrow> db), Err (StoreDispatchRejected (fx_rejection denial)))
                | Inr outcome \<Rightarrow>
                    (let db1 = update_step sid (\<lambda>s. s\<lparr> js_state := js_state (fo_job_step outcome) \<rparr>) db;
                         audit = \<lparr> audit_id = new_v4 2, audit_endpoint_id = ep_id endpoint,
                           audit_actor = System, audit_occurred_at = df_now facts,
                           audit_detail = df_detail facts, audit_job_id = Some jid,
                           audit_job_step_id = Some sid,
                           audit_attempt_id = Some (at_id (fo_attempt outcome)),
                           audit_action_id = Some (at_action_id (fo_attempt outcome)) \<rparr>
                     in case Option.bind (insert_attempt ((fo_attempt outcome)\<lparr> at_job_step_id := sid \<rparr>) db1)
                               (insert_audit_record audit) of
                          None \<Rightarrow> (db, Err StoreBackend)
                        | Some db2 \<Rightarrow> (db2, Ok outcome)))))"

definition find_transfer :: "job_db \<Rightarrow> transfer_id \<Rightarrow> transfer option" where
  "find_transfer db tid = find (\<lambda>t. tr_id t = tid) (jd_transfers db)"

definition commit_transfer_dispatch_tx ::
  "job_db \<Rightarrow> uuid_source \<Rightarrow> job_id \<Rightarrow> job_step_id \<Rightarrow> transfer_id
    \<Rightarrow> transfer_dispatch_outcome job_tx" where
  "commit_transfer_dispatch_tx db new_v4 jid sid tid =
     (case find_job db jid of
        None \<Rightarrow> (db, Err StoreJobNotFound)
      | Some job \<Rightarrow>
          (case find_transfer db tid of
             None \<Rightarrow> (db, Err StoreTransferNotFound)
           | Some t \<Rightarrow>
               (case evaluate_transfer_dispatch new_v4
                       \<lparr> td_job = job, td_step_id = sid,
                         td_existing_active_attempt = existing_active_attempt db sid,
                         td_transfer = t \<rparr> of
                  Inl denial \<Rightarrow>
                    ((case tx_pending_job_step denial of
                        Some pending \<Rightarrow> update_step sid (\<lambda>s. s\<lparr> js_state := js_state pending \<rparr>) db
                      | None \<Rightarrow> db), Err (StoreTransferRejected (tx_rejection denial)))
                | Inr outcome \<Rightarrow>
                    (let db1 = update_step sid (\<lambda>s. s\<lparr> js_state := js_state (to_job_step outcome) \<rparr>) db
                     in case Option.bind (insert_attempt ((to_attempt outcome)\<lparr> at_job_step_id := sid \<rparr>) db1)
                               (persist_attempt_binding tid (at_id (to_attempt outcome))) of
                          None \<Rightarrow> (db, Err StoreBackend)
                        | Some db2 \<Rightarrow> (db2, Ok outcome)))))"

text \<open>\<open>endpoint_exists\<close> is the check against the endpoints table.\<close>

definition create_transfer_tx :: "job_db \<Rightarrow> bool \<Rightarrow> transfer \<Rightarrow> unit job_tx" where
  "create_transfer_tx db endpoint_exists t =
     (if \<not> endpoint_exists then (db, Err StoreEndpointNotFound)
      else case find_job_row db (tr_job_id t) of
        None \<Rightarrow> (db, Err StoreJobNotFound)
      | Some r \<Rightarrow>
          if jr_endpoint_id r \<noteq> tr_endpoint_id t then (db, Err StoreJobEndpointMismatch)
          else if \<not> list_ex (\<lambda>s. js_id s = tr_job_step_id t \<and> js_job_id s = tr_job_id t) (jd_steps db)
          then (db, Err StoreJobStepNotFound)
          else if list_ex (\<lambda>u. tr_id u = tr_id t \<or> tr_artifact_id u = tr_artifact_id t \<or>
                    (tr_attempt_id t \<noteq> None \<and> tr_attempt_id u = tr_attempt_id t)) (jd_transfers db)
          then (db, Err StoreBackend)
          else if u32_as_i32 (chunk_size_get (tr_chunk_size t)) \<le> 0 then (db, Err StoreBackend)
          else (db\<lparr> jd_transfers := jd_transfers db @ [t] \<rparr>, Ok ()))"

section \<open>Evidence\<close>

definition locked_facts ::
  "job_db \<Rightarrow> action_id \<Rightarrow> endpoint_id \<Rightarrow> job_store_error + (job \<times> job_step \<times> attempt)" where
  "locked_facts db act endpoint =
     (case find_attempt_by_action db act of
        None \<Rightarrow> Err StoreUnknownAction
      | Some attempt \<Rightarrow>
          (case find_step_row db (at_job_step_id attempt) of
             None \<Rightarrow> Err StoreBackend
           | Some step \<Rightarrow>
               (case find_job db (js_job_id step) of
                  None \<Rightarrow> Err StoreBackend
                | Some job \<Rightarrow>
                    if jb_endpoint_id job \<noteq> endpoint then Err StoreUnknownAction
                    else Ok (job, step, attempt))))"

definition persist_applied :: "action_evidence_applied \<Rightarrow> job_db \<Rightarrow> job_db option" where
  "persist_applied ap db =
     Option.bind
       (update_job_state (jb_id (ap_job ap)) (jb_state (ap_job ap))
          (update_step (js_id (ap_job_step ap))
             (\<lambda>s. s\<lparr> js_state := js_state (ap_job_step ap),
                     js_failure_reason := js_failure_reason (ap_job_step ap) \<rparr>)
             (update_attempt_state (at_id (ap_attempt ap)) (at_state (ap_attempt ap)) db)))
       (insert_events (ap_events ap))"

definition terminal_audit ::
  "uuid \<Rightarrow> actor \<Rightarrow> job \<Rightarrow> action_evidence_applied \<Rightarrow> time \<Rightarrow> string \<Rightarrow> audit_record" where
  "terminal_audit ident actor job ap now detail =
     \<lparr> audit_id = ident, audit_endpoint_id = jb_endpoint_id job, audit_actor = actor,
       audit_occurred_at = now, audit_detail = detail, audit_job_id = Some (jb_id job),
       audit_job_step_id = Some (js_id (ap_job_step ap)),
       audit_attempt_id = Some (at_id (ap_attempt ap)),
       audit_action_id = Some (at_action_id (ap_attempt ap)) \<rparr>"

text \<open>
  Persisting an applied result with its audit record, which is written exactly for a terminal
  outcome. The identifier of the audit record is drawn after those of the events.
\<close>

definition commit_applied ::
  "job_db \<Rightarrow> uuid_source \<Rightarrow> actor \<Rightarrow> job \<Rightarrow> action_evidence_applied \<Rightarrow> time \<Rightarrow> string
    \<Rightarrow> action_evidence_applied option job_tx" where
  "commit_applied db new_v4 actor job ap now detail =
     (case Option.bind (persist_applied ap db)
             (\<lambda>db1. if ap_terminal ap
                    then insert_audit_record (terminal_audit (new_v4 (length (ap_events ap))) actor job ap
                           now detail) db1
                    else Some db1) of
        None \<Rightarrow> (db, Err StoreBackend)
      | Some db2 \<Rightarrow> (db2, Ok (Some ap)))"

definition apply_action_evidence_tx ::
  "job_db \<Rightarrow> uuid_source \<Rightarrow> action_id \<Rightarrow> endpoint_id \<Rightarrow> action_evidence \<Rightarrow> time \<Rightarrow> string
    \<Rightarrow> action_evidence_applied option job_tx" where
  "apply_action_evidence_tx db new_v4 act endpoint evidence now detail =
     (case locked_facts db act endpoint of
        Inl e \<Rightarrow> (db, Err e)
      | Inr (job, step, attempt) \<Rightarrow>
          (case apply_action_evidence new_v4 job step attempt evidence now of
             EvidenceApplied ap \<Rightarrow> commit_applied db new_v4 System job ap now detail
           | _ \<Rightarrow> (db, Ok None)))"

definition apply_cancel_ack_tx ::
  "job_db \<Rightarrow> uuid_source \<Rightarrow> action_id \<Rightarrow> endpoint_id \<Rightarrow> cancel_ack_evidence \<Rightarrow> time \<Rightarrow> string
    \<Rightarrow> action_evidence_applied option job_tx" where
  "apply_cancel_ack_tx db new_v4 act endpoint evidence now detail =
     (case locked_facts db act endpoint of
        Inl e \<Rightarrow> (db, Err e)
      | Inr (job, step, attempt) \<Rightarrow>
          (case apply_cancel_ack new_v4 job step attempt evidence now of
             CancelAckApplied ap \<Rightarrow> commit_applied db new_v4 System job ap now detail
           | CancelAckNoOp \<Rightarrow> (db, Ok None)))"

definition apply_status_report_tx ::
  "job_db \<Rightarrow> uuid_source \<Rightarrow> action_id \<Rightarrow> endpoint_id \<Rightarrow> status_report_evidence \<Rightarrow> time \<Rightarrow> string
    \<Rightarrow> action_evidence_applied option job_tx" where
  "apply_status_report_tx db new_v4 act endpoint evidence now detail =
     (case locked_facts db act endpoint of
        Inl e \<Rightarrow> (db, Err e)
      | Inr (job, step, attempt) \<Rightarrow>
          (case apply_status_report new_v4 job step attempt evidence now of
             ReconciliationApplied ap \<Rightarrow> commit_applied db new_v4 System job ap now detail
           | ReconciliationNoOp \<Rightarrow> (db, Ok None)))"

section \<open>Scans\<close>

definition step_of :: "job_db \<Rightarrow> attempt \<Rightarrow> job_step option" where
  "step_of db a = find_step_row db (at_job_step_id a)"

definition dispatching_step_of_job :: "job_db \<Rightarrow> job_id \<Rightarrow> attempt \<Rightarrow> bool" where
  "dispatching_step_of_job db jid a =
     (case step_of db a of
        None \<Rightarrow> False
      | Some s \<Rightarrow> js_job_id s = jid \<and> js_state s = S_Dispatching)"

definition attempt_endpoint :: "job_db \<Rightarrow> attempt \<Rightarrow> endpoint_id option" where
  "attempt_endpoint db a =
     (case step_of db a of
        None \<Rightarrow> None
      | Some s \<Rightarrow> map_option jr_endpoint_id (find_job_row db (js_job_id s)))"

definition active_attempt_candidate_rows :: "job_db \<Rightarrow> job_id \<Rightarrow> attempt_id list" where
  "active_attempt_candidate_rows db jid =
     map at_id (filter (\<lambda>a. dispatching_step_of_job db jid a \<and> attempt_active (at_state a))
       (jd_attempts db))"

definition uncertain_candidate_rows :: "job_db \<Rightarrow> endpoint_id \<Rightarrow> attempt_id list" where
  "uncertain_candidate_rows db endpoint =
     map at_id (filter (\<lambda>a. attempt_endpoint db a = Some endpoint \<and>
       (case step_of db a of None \<Rightarrow> False | Some s \<Rightarrow> js_state s = S_Dispatching) \<and>
       (at_state a = A_Dispatched \<or> at_state a = A_InProgress)) (jd_attempts db))"

definition reconciliation_candidate_rows :: "job_db \<Rightarrow> endpoint_id \<Rightarrow> action_id list" where
  "reconciliation_candidate_rows db endpoint =
     map at_action_id (filter (\<lambda>a. attempt_endpoint db a = Some endpoint \<and>
       at_state a = A_AwaitingReconciliation) (jd_attempts db))"

definition find_reconciliation_candidate ::
  "job_db \<Rightarrow> endpoint_id \<Rightarrow> job_store_error + action_id option" where
  "find_reconciliation_candidate db endpoint =
     (case reconciliation_candidate_rows db endpoint of
        [] \<Rightarrow> Ok None
      | [act] \<Rightarrow> Ok (Some act)
      | _ \<Rightarrow> Err StoreBackend)"

definition close_candidate_rows :: "job_db \<Rightarrow> job_id \<Rightarrow> attempt_id list" where
  "close_candidate_rows db jid =
     map at_id (filter (\<lambda>a. dispatching_step_of_job db jid a \<and>
       at_state a = A_AwaitingReconciliation) (jd_attempts db))"

section \<open>Cancellation requests\<close>

datatype 'a cancellation_pass = PassRetry | PassDone 'a

datatype request_cancellation_result =
    RequestEnteredCancelling attempt_id action_id endpoint_id
  | RequestCompletedImmediately
  | RequestAlreadyCancelling
  | RequestAlreadyTerminal

definition decide_cancellation ::
  "job_db \<Rightarrow> uuid_source \<Rightarrow> actor \<Rightarrow> job \<Rightarrow> attempt option \<Rightarrow> time \<Rightarrow> string
    \<Rightarrow> request_cancellation_result job_tx" where
  "decide_cancellation db new_v4 operator job active now detail =
     (case request_cancellation new_v4 job active now of
        Inl CancellationNotEligible \<Rightarrow> (db, Err StoreNotEligible)
      | Inr (EnteredCancelling job' aid act) \<Rightarrow>
          (let audit = \<lparr> audit_id = new_v4 0, audit_endpoint_id = jb_endpoint_id job',
                 audit_actor = operator, audit_occurred_at = now, audit_detail = detail,
                 audit_job_id = Some (jb_id job'), audit_job_step_id = None,
                 audit_attempt_id = Some aid, audit_action_id = Some act \<rparr>
           in case Option.bind (update_job_state (jb_id job) (jb_state job') db)
                     (insert_audit_record audit) of
                None \<Rightarrow> (db, Err StoreBackend)
              | Some db' \<Rightarrow> (db', Ok (RequestEnteredCancelling aid act (jb_endpoint_id job'))))
      | Inr (CompletedImmediately job' event) \<Rightarrow>
          (let audit = \<lparr> audit_id = new_v4 1, audit_endpoint_id = jb_endpoint_id job',
                 audit_actor = operator, audit_occurred_at = now, audit_detail = detail,
                 audit_job_id = Some (jb_id job'), audit_job_step_id = None,
                 audit_attempt_id = None, audit_action_id = None \<rparr>
           in case Option.bind (Option.bind (update_job_state (jb_id job) (jb_state job') db)
                     (insert_events [event])) (insert_audit_record audit) of
                None \<Rightarrow> (db, Err StoreBackend)
              | Some db' \<Rightarrow> (db', Ok RequestCompletedImmediately))
      | Inr AlreadyCancelling \<Rightarrow> (db, Ok RequestAlreadyCancelling)
      | Inr AlreadyTerminal \<Rightarrow> (db, Ok RequestAlreadyTerminal))"

text \<open>
  One pass of the retry loop of \<open>request_cancellation\<close>: \<open>rows\<close> is the result of the unlocked
  scan of this pass.
\<close>

definition request_cancellation_pass ::
  "job_db \<Rightarrow> attempt_id list \<Rightarrow> uuid_source \<Rightarrow> actor \<Rightarrow> job_id \<Rightarrow> time \<Rightarrow> string
    \<Rightarrow> (request_cancellation_result job_tx) cancellation_pass" where
  "request_cancellation_pass db rows new_v4 operator jid now detail =
     (case rows of
        [] \<Rightarrow>
          (case find_job db jid of
             None \<Rightarrow> PassDone (db, Err StoreJobNotFound)
           | Some job \<Rightarrow>
               if length (active_attempt_candidate_rows db jid) > 1 then PassDone (db, Err StoreBackend)
               else if active_attempt_candidate_rows db jid \<noteq> [] then PassRetry
               else PassDone (decide_cancellation db new_v4 operator job None now detail))
      | [aid] \<Rightarrow>
          (case find_attempt db aid of
             None \<Rightarrow> PassDone (db, Err StoreBackend)
           | Some attempt \<Rightarrow>
               if attempt_active (at_state attempt) then
                 (case find_job db jid of
                    None \<Rightarrow> PassDone (db, Err StoreJobNotFound)
                  | Some job \<Rightarrow>
                      PassDone (decide_cancellation db new_v4 operator job (Some attempt) now detail))
               else PassRetry)
      | _ \<Rightarrow> PassDone (db, Err StoreBackend))"

definition MAX_PASSES :: nat where
  "MAX_PASSES = 8"

text \<open>
  The loop over the states and scan results that the successive passes meet. The counter is
  decremented before the first pass, so the loop makes at most \<open>MAX_PASSES - 1\<close> passes.
\<close>

fun request_cancellation_loop ::
  "nat \<Rightarrow> (job_db \<times> attempt_id list) list \<Rightarrow> uuid_source \<Rightarrow> actor \<Rightarrow> job_id \<Rightarrow> time \<Rightarrow> string
    \<Rightarrow> request_cancellation_result job_tx option" where
  "request_cancellation_loop _ [] new_v4 operator jid now detail = None"
| "request_cancellation_loop 0 ((db, rows) # seen) new_v4 operator jid now detail =
     Some (db, Err StoreBackend)"
| "request_cancellation_loop (Suc passes) ((db, rows) # seen) new_v4 operator jid now detail =
     (if passes = 0 then Some (db, Err StoreBackend)
      else case request_cancellation_pass db rows new_v4 operator jid now detail of
        PassRetry \<Rightarrow> request_cancellation_loop passes seen new_v4 operator jid now detail
      | PassDone r \<Rightarrow> Some r)"

section \<open>Uncertainty and its closure\<close>

definition mark_endpoint_uncertain_tx ::
  "job_db \<Rightarrow> attempt_id list \<Rightarrow> action_id \<Rightarrow> attempt_id option job_tx" where
  "mark_endpoint_uncertain_tx db rows expected =
     (case rows of
        [] \<Rightarrow> (db, Ok None)
      | [aid] \<Rightarrow>
          (case find_attempt db aid of
             None \<Rightarrow> (db, Ok None)
           | Some attempt \<Rightarrow>
               if at_action_id attempt \<noteq> expected then (db, Ok None)
               else (case mark_awaiting_reconciliation attempt of
                   None \<Rightarrow> (db, Ok None)
                 | Some updated \<Rightarrow>
                     (update_attempt_state (at_id updated) (at_state updated) db, Ok (Some (at_id updated)))))
      | _ \<Rightarrow> (db, Err StoreBackend))"

fun reconcile_attempts :: "attempt_id list \<Rightarrow> job_db \<Rightarrow> job_db \<times> attempt_id list" where
  "reconcile_attempts [] db = (db, [])"
| "reconcile_attempts (aid # aids) db =
     (case Option.bind (find_attempt db aid) mark_awaiting_reconciliation of
        None \<Rightarrow> reconcile_attempts aids db
      | Some updated \<Rightarrow>
          (let (db', reconciled) =
                 reconcile_attempts aids (update_attempt_state (at_id updated) (at_state updated) db)
           in (db', at_id updated # reconciled)))"

definition reconcile_on_startup_tx :: "job_db \<Rightarrow> job_db \<times> attempt_id list" where
  "reconcile_on_startup_tx db =
     reconcile_attempts
       (map at_id (filter (\<lambda>a. at_state a = A_Dispatched \<or> at_state a = A_InProgress) (jd_attempts db)))
       db"

definition close_indeterminate_tx ::
  "job_db \<Rightarrow> attempt_id list \<Rightarrow> uuid_source \<Rightarrow> actor \<Rightarrow> job_id \<Rightarrow> time \<Rightarrow> string
    \<Rightarrow> action_evidence_applied option job_tx" where
  "close_indeterminate_tx db rows new_v4 operator jid now detail =
     (case rows of
        [] \<Rightarrow> (db, Err StoreNoUncertainAttempt)
      | [aid] \<Rightarrow>
          (case find_attempt db aid of
             None \<Rightarrow> (db, Err StoreBackend)
           | Some attempt \<Rightarrow>
               (case find_step_row db (at_job_step_id attempt) of
                  None \<Rightarrow> (db, Err StoreBackend)
                | Some step \<Rightarrow>
                    (case find_job db jid of
                       None \<Rightarrow> (db, Err StoreJobNotFound)
                     | Some job \<Rightarrow>
                         (case close_indeterminate new_v4 job step attempt now of
                            CloseApplied ap \<Rightarrow> commit_applied db new_v4 operator job ap now detail
                          | _ \<Rightarrow> (db, Ok None)))))
      | _ \<Rightarrow> (db, Err StoreBackend))"

section \<open>The machine\<close>

datatype job_op =
    OpCreateWorkflow uuid_source "identity_state option" endpoint_id nat
  | OpAuthorizeIntent "job option" job_id job_step_id "inventory_revision_id option"
      "target_fingerprint option"
  | OpAdmitJob uuid_source job_id time
  | OpSatisfyPreconditions job_id job_step_id
  | OpCommitDestructive uuid_source job_id job_step_id dispatch_facts
  | OpCreateTransfer bool transfer
  | OpCommitTransfer uuid_source job_id job_step_id transfer_id
  | OpActionEvidence uuid_source action_id endpoint_id action_evidence time string
  | OpCancelAck uuid_source action_id endpoint_id cancel_ack_evidence time string
  | OpStatusReport uuid_source action_id endpoint_id status_report_evidence time string
  | OpRequestCancellation "attempt_id list" uuid_source actor job_id time string
  | OpMarkUncertain "attempt_id list" action_id
  | OpReconcileOnStartup
  | OpCloseIndeterminate "attempt_id list" uuid_source actor job_id time string

fun job_store_step :: "job_db \<Rightarrow> job_op \<Rightarrow> job_db" where
  "job_store_step db (OpCreateWorkflow u identity ep n) = fst (create_workflow_tx db u identity ep n)"
| "job_store_step db (OpAuthorizeIntent read jid sid inventory target) =
     fst (authorize_intent_tx db read jid sid inventory target)"
| "job_store_step db (OpAdmitJob u jid now) = fst (admit_job_tx db u jid now)"
| "job_store_step db (OpSatisfyPreconditions jid sid) = fst (satisfy_preconditions_tx db jid sid)"
| "job_store_step db (OpCommitDestructive u jid sid facts) =
     fst (commit_destructive_dispatch_tx db u jid sid facts)"
| "job_store_step db (OpCreateTransfer exists t) = fst (create_transfer_tx db exists t)"
| "job_store_step db (OpCommitTransfer u jid sid tid) =
     fst (commit_transfer_dispatch_tx db u jid sid tid)"
| "job_store_step db (OpActionEvidence u act ep ev now detail) =
     fst (apply_action_evidence_tx db u act ep ev now detail)"
| "job_store_step db (OpCancelAck u act ep ev now detail) =
     fst (apply_cancel_ack_tx db u act ep ev now detail)"
| "job_store_step db (OpStatusReport u act ep ev now detail) =
     fst (apply_status_report_tx db u act ep ev now detail)"
| "job_store_step db (OpRequestCancellation rows u operator jid now detail) =
     (case request_cancellation_pass db rows u operator jid now detail of
        PassRetry \<Rightarrow> db
      | PassDone r \<Rightarrow> fst r)"
| "job_store_step db (OpMarkUncertain rows act) = fst (mark_endpoint_uncertain_tx db rows act)"
| "job_store_step db OpReconcileOnStartup = fst (reconcile_on_startup_tx db)"
| "job_store_step db (OpCloseIndeterminate rows u operator jid now detail) =
     fst (close_indeterminate_tx db rows u operator jid now detail)"

definition job_store_run :: "job_db \<Rightarrow> job_op list \<Rightarrow> job_db" where
  "job_store_run = foldl job_store_step"

end
