(* ===== verification/Job_Inv.thy ===== *)
theory Job_Inv
  imports Job_Store
begin

text \<open>
  The invariant of the job tables and its preservation by every transaction. \<open>job_tables_ok\<close> is
  the structural part (keys, references, ordered steps) and \<open>exclusive\<close> the partial unique
  index: every run keeps them. \<open>job_inv\<close> adds the lifecycle: every Job has the shape its state
  promises, a step is dispatching exactly when it has one active Attempt, and the event log
  holds exactly the outcome of every finished Job. It is kept by every operation that
  \<open>op_conforms\<close> admits; the one excluded case is a \<open>CancelAck{AlreadyCompleted}\<close> for an
  Attempt that is no longer active while its Job is being cancelled.

  Every effect on the tables is an instance of \<open>patched\<close>, a change of one Job's state and one
  of its steps; its preservation lemma is proved once.
\<close>

section \<open>The invariant\<close>

definition job_shape :: "job \<Rightarrow> bool" where
  "job_shape j \<longleftrightarrow>
     linear (jb_steps j) \<and>
     (case jb_state j of
        J_Pending \<Rightarrow> \<forall>s\<in>set (jb_steps j). js_state s = S_Pending
      | J_Running \<Rightarrow> (\<exists>s\<in>set (jb_steps j). js_state s \<noteq> S_Succeeded) \<and>
          (\<forall>s\<in>set (jb_steps j). js_state s \<notin> {S_Failed, S_Cancelled})
      | J_Cancelling \<Rightarrow> (\<exists>s\<in>set (jb_steps j). js_state s = S_Dispatching)
      | J_Succeeded \<Rightarrow> \<forall>s\<in>set (jb_steps j). js_state s = S_Succeeded
      | J_Failed \<Rightarrow> \<exists>s\<in>set (jb_steps j). js_state s = S_Failed
      | J_Cancelled \<Rightarrow> \<forall>s\<in>set (jb_steps j). js_state s \<noteq> S_Dispatching)"

definition active_attempts :: "attempt list \<Rightarrow> job_step_id \<Rightarrow> attempt list" where
  "active_attempts atts sid =
     filter (\<lambda>a. at_job_step_id a = sid \<and> attempt_active (at_state a)) atts"

definition job_tables_ok :: "job_db \<Rightarrow> bool" where
  "job_tables_ok db \<longleftrightarrow>
     distinct (map jr_id (jd_jobs db)) \<and> distinct (map js_id (jd_steps db)) \<and>
     distinct (map at_id (jd_attempts db)) \<and> distinct (map at_action_id (jd_attempts db)) \<and>
     (\<forall>s\<in>set (jd_steps db). js_job_id s \<in> jr_id ` set (jd_jobs db)) \<and>
     (\<forall>a\<in>set (jd_attempts db). at_job_step_id a \<in> js_id ` set (jd_steps db)) \<and>
     (\<forall>jid j. find_job db jid = Some j \<longrightarrow> job_wf j)"

definition exclusive :: "job_db \<Rightarrow> bool" where
  "exclusive db \<longleftrightarrow>
     (\<forall>r\<in>set (jd_jobs db). \<forall>q\<in>set (jd_jobs db).
        job_active (jr_state r) \<and> job_active (jr_state q) \<and> jr_endpoint_id r = jr_endpoint_id q \<longrightarrow>
        jr_id r = jr_id q)"

definition expected_outcome :: "job_db \<Rightarrow> job_id \<Rightarrow> job_state list" where
  "expected_outcome db jid =
     (case find_job_row db jid of None \<Rightarrow> [] | Some r \<Rightarrow> outcome_of (jr_state r))"

definition job_inv :: "job_db \<Rightarrow> bool" where
  "job_inv db \<longleftrightarrow>
     job_tables_ok db \<and> exclusive db \<and>
     (\<forall>jid j. find_job db jid = Some j \<longrightarrow> job_shape j) \<and>
     (\<forall>s\<in>set (jd_steps db). length (active_attempts (jd_attempts db) (js_id s)) =
        (if js_state s = S_Dispatching then 1 else 0)) \<and>
     (\<forall>jid. job_outcomes jid (jd_events db) = expected_outcome db jid)"

lemma job_invI:
  assumes "job_tables_ok db" "exclusive db"
    and "\<And>jid j. find_job db jid = Some j \<Longrightarrow> job_shape j"
    and "\<And>s. s \<in> set (jd_steps db) \<Longrightarrow> length (active_attempts (jd_attempts db) (js_id s)) =
        (if js_state s = S_Dispatching then 1 else 0)"
    and "\<And>jid. job_outcomes jid (jd_events db) = expected_outcome db jid"
  shows "job_inv db"
  unfolding job_inv_def by (intro conjI allI ballI impI) (rule assms; assumption?)+

lemma job_invD:
  assumes "job_inv db"
  shows "job_tables_ok db" "exclusive db"
    "find_job db jid = Some j \<Longrightarrow> job_shape j"
    "s \<in> set (jd_steps db) \<Longrightarrow> length (active_attempts (jd_attempts db) (js_id s)) =
        (if js_state s = S_Dispatching then 1 else 0)"
    "job_outcomes jid (jd_events db) = expected_outcome db jid"
proof -
  note inv = assms [unfolded job_inv_def]
  show "job_tables_ok db" "exclusive db" using inv by simp_all
  show "find_job db jid = Some j \<Longrightarrow> job_shape j" using inv by simp
  show "s \<in> set (jd_steps db) \<Longrightarrow> length (active_attempts (jd_attempts db) (js_id s)) =
        (if js_state s = S_Dispatching then 1 else 0)" by (rule inv [THEN conjunct2, THEN conjunct2,
      THEN conjunct2, THEN conjunct1, THEN bspec])
  show "job_outcomes jid (jd_events db) = expected_outcome db jid"
    by (rule inv [THEN conjunct2, THEN conjunct2, THEN conjunct2, THEN conjunct2, THEN spec])
qed

section \<open>Reading the tables\<close>

lemma find_distinct_iff:
  assumes "distinct (map f xs)"
  shows "find (\<lambda>x. f x = k) xs = Some x \<longleftrightarrow> x \<in> set xs \<and> f x = k"
proof
  assume "x \<in> set xs \<and> f x = k"
  then obtain y where y: "find (\<lambda>x. f x = k) xs = Some y"
    by (cases "find (\<lambda>x. f x = k) xs") (auto simp: find_None_iff)
  from find_SomeD [OF y] have "y = x"
    using assms \<open>x \<in> set xs \<and> f x = k\<close> by (auto simp: distinct_map inj_on_def)
  then show "find (\<lambda>x. f x = k) xs = Some x" using y by simp
qed (auto dest: find_SomeD)

lemma sort_key_map:
  assumes "\<And>x. k (g x) = k x"
  shows "sort_key k (map g xs) = map g (sort_key k xs)"
proof -
  have ins: "insort_key k (g x) (map g ys) = map g (insort_key k x ys)" for x ys
    by (induction ys) (simp_all add: assms)
  show ?thesis by (induction xs) (simp_all add: ins)
qed

lemma find_job_SomeD:
  assumes "find_job db jid = Some j"
  shows "jb_id j = jid" "set (jb_steps j) = {s \<in> set (jd_steps db). js_job_id s = jid}"
    "\<exists>r\<in>set (jd_jobs db). jr_id r = jid \<and> jr_endpoint_id r = jb_endpoint_id j \<and> jr_state r = jb_state j"
    "find_job_row db jid = Some \<lparr> jr_id = jid, jr_endpoint_id = jb_endpoint_id j, jr_state = jb_state j \<rparr>"
proof -
  obtain r where r: "find_job_row db jid = Some r" "jb_endpoint_id j = jr_endpoint_id r"
    "jb_state j = jr_state r" and j: "jb_id j = jid" "jb_steps j = fetch_job_steps db jid"
    using assms by (auto simp: find_job_def split: option.splits)
  have "r \<in> set (jd_jobs db) \<and> jr_id r = jid"
    using r(1) by (auto simp: find_job_row_def dest: find_SomeD)
  then show "\<exists>r\<in>set (jd_jobs db). jr_id r = jid \<and> jr_endpoint_id r = jb_endpoint_id j \<and>
      jr_state r = jb_state j"
    and "find_job_row db jid = Some \<lparr> jr_id = jid, jr_endpoint_id = jb_endpoint_id j,
      jr_state = jb_state j \<rparr>"
    using r by auto
  show "jb_id j = jid" "set (jb_steps j) = {s \<in> set (jd_steps db). js_job_id s = jid}"
    using j by (auto simp: fetch_job_steps_def)
qed

lemma find_job_exists:
  assumes "s \<in> set (jd_steps db)" and "job_tables_ok db"
  obtains j where "find_job db (js_job_id s) = Some j" "s \<in> set (jb_steps j)"
proof -
  have "js_job_id s \<in> jr_id ` set (jd_jobs db)"
    using assms by (auto simp: job_tables_ok_def)
  then obtain j where j: "find_job db (js_job_id s) = Some j"
    by (cases "find_job_row db (js_job_id s)")
       (auto simp: find_job_def find_job_row_def find_None_iff)
  then have "s \<in> set (jb_steps j)"
    using assms(1) by (simp add: find_job_SomeD)
  with j that show ?thesis by blast
qed

lemma find_job_step:
  assumes "job_tables_ok db" and "find_job db jid = Some j" and "find_step sid j = Some s"
  shows "s \<in> set (jd_steps db)" "js_id s = sid" "js_job_id s = jid" "s \<in> set (jb_steps j)"
  using find_step_SomeD [OF assms(3)] find_job_SomeD(2) [OF assms(2)] by auto

lemma find_step_row_Some_iff:
  "job_tables_ok db \<Longrightarrow> find_step_row db sid = Some s \<longleftrightarrow> s \<in> set (jd_steps db) \<and> js_id s = sid"
  unfolding find_step_row_def job_tables_ok_def by (rule find_distinct_iff) simp

lemma find_attempt_Some_iff:
  "job_tables_ok db \<Longrightarrow> find_attempt db aid = Some a \<longleftrightarrow> a \<in> set (jd_attempts db) \<and> at_id a = aid"
  unfolding find_attempt_def job_tables_ok_def by (rule find_distinct_iff) simp

lemma find_attempt_by_action_Some_iff:
  "job_tables_ok db \<Longrightarrow>
   find_attempt_by_action db act = Some a \<longleftrightarrow> a \<in> set (jd_attempts db) \<and> at_action_id a = act"
  unfolding find_attempt_by_action_def job_tables_ok_def by (rule find_distinct_iff) simp

lemma locked_facts_OkD:
  assumes "locked_facts db act ep = Ok (j, s, a)" and "job_tables_ok db"
  shows "a \<in> set (jd_attempts db)" "at_action_id a = act" "s \<in> set (jd_steps db)"
    "js_id s = at_job_step_id a" "find_job db (js_job_id s) = Some j" "jb_endpoint_id j = ep"
    "s \<in> set (jb_steps j)"
proof -
  have *: "find_attempt_by_action db act = Some a" "find_step_row db (at_job_step_id a) = Some s"
    "find_job db (js_job_id s) = Some j" "jb_endpoint_id j = ep"
    using assms(1) by (auto simp: locked_facts_def split: option.splits if_splits)
  then show "a \<in> set (jd_attempts db)" "at_action_id a = act" "s \<in> set (jd_steps db)"
    "js_id s = at_job_step_id a" "find_job db (js_job_id s) = Some j" "jb_endpoint_id j = ep"
    using assms(2) by (simp_all add: find_attempt_by_action_Some_iff find_step_row_Some_iff)
  then show "s \<in> set (jb_steps j)" by (simp add: find_job_SomeD(2) [OF *(3)])
qed

section \<open>Tables that do not matter\<close>

lemma find_job_row_cong: "jd_jobs db = jd_jobs db' \<Longrightarrow> find_job_row db = find_job_row db'"
  by (simp add: find_job_row_def fun_eq_iff)

lemma find_job_cong:
  assumes "jd_jobs db = jd_jobs db'" and "jd_steps db = jd_steps db'"
  shows "find_job db = find_job db'"
proof -
  have "fetch_job_steps db = fetch_job_steps db'" by (simp add: fetch_job_steps_def fun_eq_iff assms(2))
  then show ?thesis by (intro ext) (simp only: find_job_def find_job_row_cong [OF assms(1)])
qed

lemma job_tables_ok_cong:
  assumes "jd_jobs db = jd_jobs db'" "jd_steps db = jd_steps db'" "jd_attempts db = jd_attempts db'"
  shows "job_tables_ok db = job_tables_ok db'"
  using assms by (simp add: job_tables_ok_def find_job_cong [OF assms(1,2)])

lemma job_inv_cong:
  assumes "jd_jobs db = jd_jobs db'" "jd_steps db = jd_steps db'" "jd_attempts db = jd_attempts db'"
    "jd_events db = jd_events db'"
  shows "job_inv db = job_inv db'"
  using assms by (simp add: job_inv_def exclusive_def expected_outcome_def job_tables_ok_cong [OF assms(1-3)]
      find_job_cong [OF assms(1,2)] find_job_row_cong [OF assms(1)])

lemma frame_other_tables [simp]:
  "job_inv (db\<lparr> jd_audit := x \<rparr>) = job_inv db" "job_inv (db\<lparr> jd_transfers := y \<rparr>) = job_inv db"
  "job_tables_ok (db\<lparr> jd_audit := x \<rparr>) = job_tables_ok db"
  "job_tables_ok (db\<lparr> jd_transfers := y \<rparr>) = job_tables_ok db"
  "exclusive (db\<lparr> jd_audit := x \<rparr>) = exclusive db" "exclusive (db\<lparr> jd_transfers := y \<rparr>) = exclusive db"
  by (rule job_inv_cong job_tables_ok_cong; simp | simp add: exclusive_def)+

section \<open>A change of one Job and one step\<close>

definition patched ::
  "job_db \<Rightarrow> job_id \<Rightarrow> job_state \<Rightarrow> job_step \<Rightarrow> attempt list \<Rightarrow> domain_event list \<Rightarrow> job_db" where
  "patched db jid st u atts evs =
     (set_job_state jid st db)\<lparr> jd_steps := replace_step (jd_steps db) u, jd_attempts := atts,
        jd_events := evs \<rparr>"

lemma find_set_job_state:
  "find_job_row (set_job_state jid st db) k =
     map_option (\<lambda>r. if k = jid then r\<lparr> jr_state := st \<rparr> else r) (find_job_row db k)"
proof -
  have "find (\<lambda>r. jr_id r = k) (map (\<lambda>r. if jr_id r = jid then r\<lparr> jr_state := st \<rparr> else r) rs) =
      map_option (\<lambda>r. if k = jid then r\<lparr> jr_state := st \<rparr> else r) (find (\<lambda>r. jr_id r = k) rs)" for rs
    by (induction rs) auto
  then show ?thesis by (simp add: find_job_row_def set_job_state_def)
qed

lemma fetch_replaced:
  assumes "distinct (map js_id (jd_steps db))" and "s \<in> set (jd_steps db)"
    and "js_id u = js_id s" "js_order u = js_order s" "js_job_id u = js_job_id s"
  shows "fetch_job_steps (db\<lparr> jd_steps := replace_step (jd_steps db) u \<rparr>) k =
    replace_step (fetch_job_steps db k) u"
proof -
  define g where "g x = (if js_id x = js_id u then x\<lparr> js_state := js_state u,
      js_destructive_intent := js_destructive_intent u, js_failure_reason := js_failure_reason u \<rparr>
      else x)" for x :: job_step
  have g: "g x = (if js_id x = js_id u then u else x)" if "x \<in> set (jd_steps db)" for x
  proof (cases "js_id x = js_id u")
    case True
    then have "x = s" using that assms(1-3) by (auto simp: distinct_map inj_on_def)
    then show ?thesis using True assms(3-5) by (simp add: g_def)
  qed (simp add: g_def)
  have rep: "replace_step ys u = map g ys" if "set ys \<subseteq> set (jd_steps db)" for ys
    using that g unfolding replace_step_def by (intro map_cong) auto
  have pres: "js_job_id (g x) = js_job_id x" "js_order (g x) = js_order x" for x
    by (simp_all add: g_def)
  have "fetch_job_steps (db\<lparr> jd_steps := replace_step (jd_steps db) u \<rparr>) k = map g (fetch_job_steps db k)"
    by (simp add: fetch_job_steps_def rep filter_map comp_def pres sort_key_map)
  also have "\<dots> = replace_step (fetch_job_steps db k) u"
    by (rule rep [symmetric]) (auto simp: fetch_job_steps_def)
  finally show ?thesis .
qed

lemma find_job_patched:
  assumes "job_tables_ok db" and "find_job db jid = Some j" and "s \<in> set (jb_steps j)"
    and "js_id u = js_id s" "js_order u = js_order s" "js_job_id u = js_job_id s"
  shows "find_job (patched db jid st u atts evs) k =
    (if k = jid then Some (j\<lparr> jb_state := st, jb_steps := replace_step (jb_steps j) u \<rparr>)
     else find_job db k)"
proof -
  have s: "s \<in> set (jd_steps db)" "js_job_id s = jid"
    using assms(3) find_job_SomeD(2) [OF assms(2)] by auto
  have dist: "distinct (map js_id (jd_steps db))"
    using assms(1) by (simp add: job_tables_ok_def)
  have steps: "fetch_job_steps (patched db jid st u atts evs) k = replace_step (fetch_job_steps db k) u"
    using fetch_replaced [OF dist s(1) assms(4-6), of k]
    by (simp add: patched_def fetch_job_steps_def set_job_state_def)
  have row: "find_job_row (patched db jid st u atts evs) k =
      map_option (\<lambda>r. if k = jid then r\<lparr> jr_state := st \<rparr> else r) (find_job_row db k)"
    using find_set_job_state by (simp add: patched_def find_job_row_def)
  show ?thesis
  proof (cases "k = jid")
    case True
    obtain r where r: "find_job_row db jid = Some r" "j = \<lparr> jb_id = jid,
        jb_endpoint_id = jr_endpoint_id r, jb_state = jr_state r, jb_steps = fetch_job_steps db jid \<rparr>"
      using assms(2) by (auto simp: find_job_def split: option.splits)
    then show ?thesis
      unfolding find_job_def row steps using True by simp
  next
    case False
    have "js_id u \<notin> js_id ` set (fetch_job_steps db k)"
    proof
      assume "js_id u \<in> js_id ` set (fetch_job_steps db k)"
      then obtain x where "x \<in> set (jd_steps db)" "js_job_id x = k" "js_id x = js_id s"
        using assms(4) by (auto simp: fetch_job_steps_def)
      then have "x = s" using dist s(1) by (auto simp: distinct_map inj_on_def)
      then show False using False s(2) \<open>js_job_id x = k\<close> by simp
    qed
    then show ?thesis
      unfolding find_job_def row steps using False
      by (simp add: replace_step_absent split: option.split)
  qed
qed

lemma map_jr_id_set_state [simp]:
  "map jr_id (jd_jobs (set_job_state jid st db)) = map jr_id (jd_jobs db)"
  by (simp add: set_job_state_def)

lemma set_jr_id_set_state [simp]:
  "jr_id ` set (jd_jobs (set_job_state jid st db)) = jr_id ` set (jd_jobs db)"
  by (simp only: set_map [symmetric] map_jr_id_set_state)

lemma set_js_id_replace [simp]: "js_id ` set (replace_step ss u) = js_id ` set ss"
  by (simp only: set_map [symmetric] map_js_id_replace_step)

lemma patched_tables:
  assumes "job_tables_ok db" and "find_job db jid = Some j" and "s \<in> set (jb_steps j)"
    and "js_id u = js_id s" "js_order u = js_order s" "js_job_id u = js_job_id s"
    and "distinct (map at_id atts)" "distinct (map at_action_id atts)"
    and "\<forall>a\<in>set atts. at_job_step_id a \<in> js_id ` set (jd_steps db)"
  shows "job_tables_ok (patched db jid st u atts evs)"
proof -
  note fj = find_job_patched [OF assms(1-6)]
  have jobs: "js_job_id x \<in> jr_id ` set (jd_jobs db)" if "x \<in> set (replace_step (jd_steps db) u)" for x
  proof -
    have "js_job_id u = js_job_id s" "s \<in> set (jd_steps db)"
      using assms(3,6) find_job_SomeD(2) [OF assms(2)] by auto
    then show ?thesis
      using that assms(1) by (auto simp: replace_step_def job_tables_ok_def split: if_splits)
  qed
  have wf: "job_wf j'" if "find_job (patched db jid st u atts evs) k = Some j'" for k j'
  proof (cases "k = jid")
    case True
    have "job_wf j" using assms(1,2) by (simp add: job_tables_ok_def)
    moreover have "j' = j\<lparr> jb_state := st, jb_steps := replace_step (jb_steps j) u \<rparr>"
      using that True by (simp add: fj)
    ultimately show ?thesis using job_wf_replace_step [OF _ assms(3-6)] by blast
  next
    case False
    then show ?thesis using that assms(1) by (simp add: fj job_tables_ok_def)
  qed
  show ?thesis
    using assms(1,7,8,9) jobs wf
    by (simp add: job_tables_ok_def patched_def)
qed

lemma patched_inv:
  assumes inv: "job_inv db" and j: "find_job db jid = Some j" and s: "s \<in> set (jb_steps j)"
    and u: "js_id u = js_id s" "js_order u = js_order s" "js_job_id u = js_job_id s"
    and atts: "distinct (map at_id atts)" "distinct (map at_action_id atts)"
      "\<forall>a\<in>set atts. at_job_step_id a \<in> js_id ` set (jd_steps db)"
    and shape: "job_shape (j\<lparr> jb_state := st, jb_steps := replace_step (jb_steps j) u \<rparr>)"
    and excl: "exclusive (set_job_state jid st db)"
    and active: "length (active_attempts atts (js_id s)) = (if js_state u = S_Dispatching then 1 else 0)"
      "\<And>sid. sid \<noteq> js_id s \<Longrightarrow>
         length (active_attempts atts sid) = length (active_attempts (jd_attempts db) sid)"
    and out: "\<And>k. job_outcomes k evs =
      (if k = jid then outcome_of st else job_outcomes k (jd_events db))"
  shows "job_inv (patched db jid st u atts evs)"
proof -
  let ?db = "patched db jid st u atts evs"
  note ok = job_invD(1) [OF inv] and shapes = job_invD(3) [OF inv]
    and counts = job_invD(4) [OF inv] and outs = job_invD(5) [OF inv]
  note fj = find_job_patched [OF ok j s u]
  have jobs: "jd_jobs ?db = jd_jobs (set_job_state jid st db)" by (simp add: patched_def)
  have 1: "exclusive ?db"
    using excl unfolding exclusive_def jobs .
  have 2: "job_shape j'" if "find_job ?db k = Some j'" for k j'
  proof (cases "k = jid")
    case True
    then have "j' = j\<lparr> jb_state := st, jb_steps := replace_step (jb_steps j) u \<rparr>"
      using that by (simp add: fj)
    then show ?thesis using shape by simp
  next
    case False
    then show ?thesis using that shapes by (simp add: fj)
  qed
  have 3: "length (active_attempts (jd_attempts ?db) (js_id x)) =
      (if js_state x = S_Dispatching then 1 else 0)" if x: "x \<in> set (jd_steps ?db)" for x
  proof (cases "js_id x = js_id s")
    case True
    then have "x = u"
      using x u(1) by (auto simp: patched_def replace_step_def split: if_splits)
    then show ?thesis using active(1) u(1) by (simp add: patched_def)
  next
    case False
    then have "x \<in> set (jd_steps db)"
      using x u(1) by (auto simp: patched_def replace_step_def split: if_splits)
    from counts [OF this] active(2) [OF False] show ?thesis by (simp add: patched_def)
  qed
  have 4: "job_outcomes k (jd_events ?db) = expected_outcome ?db k" for k
  proof -
    have row: "find_job_row ?db k =
        map_option (\<lambda>r. if k = jid then r\<lparr> jr_state := st \<rparr> else r) (find_job_row db k)"
      using find_set_job_state by (simp add: patched_def find_job_row_def)
    have "job_outcomes k evs = expected_outcome ?db k"
      unfolding out [of k] expected_outcome_def row outs
      using find_job_SomeD(4) [OF j] by (cases "k = jid"; cases "find_job_row db k") simp_all
    then show ?thesis by (simp add: patched_def)
  qed
  show ?thesis
    by (rule job_invI [OF patched_tables [OF ok j s u atts] 1 2 3 4])
qed

section \<open>Shapes\<close>

lemma job_shape_cong:
  assumes "map js_state ss = map js_state (jb_steps j)" and "job_shape j"
  shows "job_shape (j\<lparr> jb_state := jb_state j, jb_steps := ss \<rparr>)"
proof -
  have all: "list_all P (map js_state ss) = list_all P (map js_state (jb_steps j))" for P
    using assms(1) by simp
  have lin: "linear xs \<longleftrightarrow>
      list_all (\<lambda>st. st = S_Pending) (tl (dropWhile (\<lambda>st. st = S_Succeeded) (map js_state xs)))" for xs
    by (simp add: linear_def Let_def dropWhile_map comp_def list_all_iff map_tl [symmetric])
  have "set (map js_state ss) = set (map js_state (jb_steps j))" using assms(1) by simp
  then have img: "js_state ` set ss = js_state ` set (jb_steps j)" by simp
  have ex: "(\<exists>s\<in>set ss. P (js_state s)) = (\<exists>s\<in>set (jb_steps j). P (js_state s))" for P
    using img by (metis (no_types, lifting) image_iff)
  have al: "(\<forall>s\<in>set ss. P (js_state s)) = (\<forall>s\<in>set (jb_steps j). P (js_state s))" for P
    using ex [of "\<lambda>x. \<not> P x"] by blast
  show ?thesis
    using assms(2) unfolding job_shape_def
    by (simp add: lin assms(1) ex [of "\<lambda>x. x \<noteq> S_Succeeded"] ex [of "\<lambda>x. x = S_Dispatching"]
        ex [of "\<lambda>x. x = S_Failed"] al [of "\<lambda>x. x = S_Pending"] al [of "\<lambda>x. x = S_Succeeded"]
        al [of "\<lambda>x. x \<noteq> S_Failed \<and> x \<noteq> S_Cancelled"] al [of "\<lambda>x. x \<noteq> S_Dispatching"]
        split: job_state.splits)
qed

lemma shape_middle_split:
  assumes "job_shape j" and "s \<in> set (jb_steps j)"
    and "js_state s \<noteq> S_Succeeded" "js_state s \<noteq> S_Pending"
  obtains pre post where "jb_steps j = pre @ s # post" "\<forall>x\<in>set pre. js_state x = S_Succeeded"
    "\<forall>x\<in>set post. js_state x = S_Pending"
  using linear_middle_split [of "jb_steps j" s] assms by (auto simp: job_shape_def)

lemma shape_replace_middle:
  assumes "job_wf j" "job_shape j" and "s \<in> set (jb_steps j)"
    and "js_state s \<noteq> S_Succeeded" "js_state s \<noteq> S_Pending" and "js_id u = js_id s"
  obtains pre post where "jb_steps j = pre @ s # post" "replace_step (jb_steps j) u = pre @ u # post"
    "\<forall>x\<in>set pre. js_state x = S_Succeeded" "\<forall>x\<in>set post. js_state x = S_Pending"
proof -
  obtain pre post where split: "jb_steps j = pre @ s # post" "\<forall>x\<in>set pre. js_state x = S_Succeeded"
    "\<forall>x\<in>set post. js_state x = S_Pending"
    using shape_middle_split [OF assms(2-5)] by blast
  have "replace_step (jb_steps j) u = pre @ u # post"
    unfolding split(1) by (rule replace_step_split) (use assms(1,6) split(1) in \<open>auto simp: job_wf_def\<close>)
  with split that show ?thesis by blast
qed

lemma shape_dispatching_job:
  assumes "job_shape j" and "s \<in> set (jb_steps j)" and "js_state s = S_Dispatching"
  shows "job_active (jb_state j)"
proof (rule shape_middle_split [OF assms(1,2)])
  fix pre post
  assume "jb_steps j = pre @ s # post" "\<forall>x\<in>set pre. js_state x = S_Succeeded"
    "\<forall>x\<in>set post. js_state x = S_Pending"
  then show ?thesis
    using assms(1,3) by (cases "jb_state j") (auto simp: job_shape_def)
qed (use assms(3) in simp_all)

lemma shape_dispatch:
  assumes "job_wf j" "job_shape j" and "s \<in> set (jb_steps j)" and "js_state s = S_PreconditionsSatisfied"
    and "jb_state j = J_Running" and "js_id u = js_id s" "js_state u = S_Dispatching"
  shows "job_shape (j\<lparr> jb_state := J_Running, jb_steps := replace_step (jb_steps j) u \<rparr>)"
proof (rule shape_replace_middle [OF assms(1-3) _ _ assms(6)])
  fix pre post
  assume "jb_steps j = pre @ s # post" "replace_step (jb_steps j) u = pre @ u # post"
    "\<forall>x\<in>set pre. js_state x = S_Succeeded" "\<forall>x\<in>set post. js_state x = S_Pending"
  then show ?thesis using assms(7) by (auto simp: job_shape_def intro!: linear_splitI)
qed (use assms(4) in simp_all)

lemma shape_denial:
  assumes "job_wf j" "job_shape j" and "s \<in> set (jb_steps j)" and "js_state s = S_PreconditionsSatisfied"
    and "js_id u = js_id s" "js_state u = S_Pending"
  shows "job_shape (j\<lparr> jb_state := jb_state j, jb_steps := replace_step (jb_steps j) u \<rparr>)"
proof (rule shape_replace_middle [OF assms(1-3) _ _ assms(5)])
  fix pre post
  assume *: "jb_steps j = pre @ s # post" "replace_step (jb_steps j) u = pre @ u # post"
    "\<forall>x\<in>set pre. js_state x = S_Succeeded" "\<forall>x\<in>set post. js_state x = S_Pending"
  then have "linear (pre @ u # post)" by (simp add: linear_splitI)
  then show ?thesis
    using * assms(2,4,6) by (cases "jb_state j") (auto simp: job_shape_def)
qed (use assms(4) in simp_all)

lemma shape_satisfy:
  assumes "job_wf j" "job_shape j" and "satisfy_preliminary_preconditions j sid = Ok u"
  shows "jb_state j = J_Running" "\<exists>s\<in>set (jb_steps j). js_id s = sid \<and> js_state s = S_Pending \<and>
      u = s\<lparr> js_state := S_PreconditionsSatisfied \<rparr>"
    "job_shape (j\<lparr> jb_state := J_Running, jb_steps := replace_step (jb_steps j) u \<rparr>)"
proof -
  obtain pre s post where s: "jb_state j = J_Running" "jb_steps j = pre @ s # post" "js_id s = sid"
    "js_state s = S_Pending" "\<forall>x\<in>set pre. js_state x = S_Succeeded"
    "u = s\<lparr> js_state := S_PreconditionsSatisfied \<rparr>"
    using assms(3) unfolding satisfy_preliminary_Ok_iff [OF assms(1)] by blast
  have post: "\<forall>x\<in>set post. js_state x = S_Pending"
    using assms(2) dropWhile_succeeded_append [of pre s post] s(2,4,5)
    by (simp add: job_shape_def linear_def Let_def list_all_iff)
  have rep: "replace_step (jb_steps j) u = pre @ u # post"
    unfolding s(2) by (rule replace_step_split) (use assms(1) s in \<open>auto simp: job_wf_def\<close>)
  show "jb_state j = J_Running" by fact
  show "\<exists>s\<in>set (jb_steps j). js_id s = sid \<and> js_state s = S_Pending \<and>
      u = s\<lparr> js_state := S_PreconditionsSatisfied \<rparr>" using s by auto
  show "job_shape (j\<lparr> jb_state := J_Running, jb_steps := replace_step (jb_steps j) u \<rparr>)"
    unfolding rep using s(5,6) post by (auto simp: job_shape_def intro!: linear_splitI)
qed

lemma shape_applied:
  assumes "job_wf j" "job_shape j" and "s \<in> set (jb_steps j)" and "js_state s = S_Dispatching"
    and "js_id u = js_id s" "js_state u \<in> {S_Succeeded, S_Failed, S_Cancelled}"
  shows "job_shape (j\<lparr> jb_state := resulting_job_state j u,
      jb_steps := replace_step (jb_steps j) u \<rparr>) \<or>
    (js_state u = S_Cancelled \<and> jb_state j \<noteq> J_Cancelling)"
proof (rule shape_replace_middle [OF assms(1-3) _ _ assms(5)])
  fix pre post
  assume *: "jb_steps j = pre @ s # post" "replace_step (jb_steps j) u = pre @ u # post"
    "\<forall>x\<in>set pre. js_state x = S_Succeeded" "\<forall>x\<in>set post. js_state x = S_Pending"
  have lin: "linear (pre @ u # post)" using * by (simp add: linear_splitI)
  have "jb_state j = J_Running \<or> jb_state j = J_Cancelling"
    using shape_dispatching_job [OF assms(2-4)] by (cases "jb_state j") simp_all
  then show ?thesis
    using * lin assms(6) by (auto simp: job_shape_def resulting_job_state_def list_all_iff)
qed (use assms(4) in simp_all)

end
