(* ===== verification/Job_Preserve.thy ===== *)
theory Job_Preserve
  imports Job_Inv
begin

text \<open>
  Every transaction of \<open>Job_Store\<close> keeps the invariant of \<open>Job_Inv\<close>. Each proof shows that
  the new tables are a \<open>patched\<close> form of the old ones and names the step that changed.
\<close>

section \<open>Statements as patches\<close>

lemma set_job_state_same:
  assumes "job_tables_ok db" and "find_job db jid = Some j"
  shows "set_job_state jid (jb_state j) db = db"
proof -
  have "(if jr_id r = jid then r\<lparr> jr_state := jb_state j \<rparr> else r) = r" if r: "r \<in> set (jd_jobs db)" for r
  proof (cases "jr_id r = jid")
    case True
    obtain q where "q \<in> set (jd_jobs db)" "jr_id q = jid" "jr_state q = jb_state j"
      using find_job_SomeD(3) [OF assms(2)] by blast
    then have "q = r"
      using r True assms(1) by (auto simp: job_tables_ok_def distinct_map inj_on_def)
    then show ?thesis using \<open>jr_state q = jb_state j\<close> by simp
  qed simp
  then show ?thesis by (simp add: set_job_state_def map_idI)
qed

lemma patched_same_step:
  assumes "job_tables_ok db" and "s \<in> set (jd_steps db)"
  shows "patched db jid st s atts evs =
    (set_job_state jid st db)\<lparr> jd_attempts := atts, jd_events := evs \<rparr>"
  using assms by (simp add: patched_def replace_step_same job_tables_ok_def set_job_state_def)

lemma update_step_patched:
  assumes "job_tables_ok db" and "find_job db jid = Some j" and "s \<in> set (jb_steps j)"
    and "js_id (f s) = js_id s"
  shows "update_step (js_id s) f db =
    patched db jid (jb_state j) (f s) (jd_attempts db) (jd_events db)"
proof -
  have s: "s \<in> set (jd_steps db)" using assms(3) find_job_SomeD(2) [OF assms(2)] by auto
  have "map (\<lambda>x. if js_id x = js_id s then f x else x) (jd_steps db) = replace_step (jd_steps db) (f s)"
    unfolding replace_step_def assms(4)
    using s assms(1) by (intro map_cong) (auto simp: job_tables_ok_def distinct_map inj_on_def)
  then show ?thesis
    by (simp add: patched_def update_step_def set_job_state_same [OF assms(1,2)])
qed

lemma exclusive_set_job_state:
  assumes "exclusive db" and "job_tables_ok db" and "\<not> exclusivity_violated db jid st"
  shows "exclusive (set_job_state jid st db)"
  unfolding exclusive_def
proof (intro ballI impI)
  fix r q
  assume rq: "r \<in> set (jd_jobs (set_job_state jid st db))" "q \<in> set (jd_jobs (set_job_state jid st db))"
    and act: "job_active (jr_state r) \<and> job_active (jr_state q) \<and> jr_endpoint_id r = jr_endpoint_id q"
  obtain r0 where r0: "r0 \<in> set (jd_jobs db)" "r = (if jr_id r0 = jid then r0\<lparr> jr_state := st \<rparr> else r0)"
    using rq(1) by (auto simp: set_job_state_def)
  obtain q0 where q0: "q0 \<in> set (jd_jobs db)" "q = (if jr_id q0 = jid then q0\<lparr> jr_state := st \<rparr> else q0)"
    using rq(2) by (auto simp: set_job_state_def)
  have ids: "jr_id r = jr_id r0" "jr_id q = jr_id q0" "jr_endpoint_id r0 = jr_endpoint_id q0"
    using r0(2) q0(2) act by (auto split: if_splits)
  show "jr_id r = jr_id q"
  proof (cases "jr_id r0 = jid \<or> jr_id q0 = jid")
    case False
    then have "r = r0" "q = q0" using r0(2) q0(2) by auto
    then show ?thesis using act r0(1) q0(1) assms(1) unfolding exclusive_def by blast
  next
    case True
    show ?thesis
    proof (rule ccontr)
      assume ne: "jr_id r \<noteq> jr_id q"
      then have "job_active st"
        using True r0(2) q0(2) act ids by (auto split: if_splits)
      moreover from True ne ids have "(jr_id r0 = jid \<and> q = q0 \<and> jr_id q0 \<noteq> jid) \<or>
          (jr_id q0 = jid \<and> r = r0 \<and> jr_id r0 \<noteq> jid)"
        using r0(2) q0(2) by auto
      ultimately have "exclusivity_violated db jid st"
        using r0(1) q0(1) act ids unfolding exclusivity_violated_def list_ex_iff by metis
      then show False using assms(3) by simp
    qed
  qed
qed

lemma update_job_state_SomeD:
  "update_job_state jid st db = Some db' \<Longrightarrow>
     \<not> exclusivity_violated db jid st \<and> db' = set_job_state jid st db"
  by (auto simp: update_job_state_def split: if_splits)

lemma exclusive_same_state:
  assumes "job_inv db" and "find_job db jid = Some j"
  shows "exclusive (set_job_state jid (jb_state j) db)"
  using job_invD(1,2) [OF assms(1)] set_job_state_same [OF _ assms(2)] by simp

section \<open>Attempts\<close>

definition upd_attempt :: "attempt_id \<Rightarrow> attempt_state \<Rightarrow> attempt list \<Rightarrow> attempt list" where
  "upd_attempt aid st atts = map (\<lambda>a. if at_id a = aid then a\<lparr> at_state := st \<rparr> else a) atts"

lemma upd_attempt_ids [simp]:
  "map at_id (upd_attempt aid st atts) = map at_id atts"
  "map at_action_id (upd_attempt aid st atts) = map at_action_id atts"
  by (simp_all add: upd_attempt_def)

lemma active_attempts_upd_other:
  assumes "a \<in> set atts" "distinct (map at_id atts)" "sid \<noteq> at_job_step_id a"
  shows "length (active_attempts (upd_attempt (at_id a) st atts) sid) = length (active_attempts atts sid)"
proof -
  have "filter ((\<lambda>a. at_job_step_id a = sid \<and> attempt_active (at_state a)) \<circ>
        (\<lambda>x. if at_id x = at_id a then x\<lparr> at_state := st \<rparr> else x)) atts = active_attempts atts sid"
    unfolding active_attempts_def
    using assms by (intro filter_cong) (auto simp: distinct_map inj_on_def)
  then show ?thesis by (simp add: active_attempts_def upd_attempt_def filter_map)
qed

lemma active_attempts_upd_active:
  assumes "a \<in> set atts" "distinct (map at_id atts)" "attempt_active (at_state a)" "attempt_active st"
  shows "length (active_attempts (upd_attempt (at_id a) st atts) sid) = length (active_attempts atts sid)"
proof -
  have "filter ((\<lambda>a. at_job_step_id a = sid \<and> attempt_active (at_state a)) \<circ>
        (\<lambda>x. if at_id x = at_id a then x\<lparr> at_state := st \<rparr> else x)) atts = active_attempts atts sid"
    unfolding active_attempts_def
    using assms by (intro filter_cong) (auto simp: distinct_map inj_on_def)
  then show ?thesis by (simp add: active_attempts_def upd_attempt_def filter_map)
qed

lemma active_attempts_upd_terminal:
  assumes "active_attempts atts sid = [a]" and "distinct (map at_id atts)" and "\<not> attempt_active st"
  shows "active_attempts (upd_attempt (at_id a) st atts) sid = []"
proof -
  have "x = a" if "x \<in> set atts" "at_job_step_id x = sid" "attempt_active (at_state x)" for x
  proof -
    have "x \<in> set (active_attempts atts sid)" using that by (simp add: active_attempts_def)
    then show ?thesis using assms(1) by simp
  qed
  then show ?thesis
    using assms(3) by (auto simp: active_attempts_def upd_attempt_def filter_empty_conv)
qed

lemma active_attempts_single:
  assumes "job_inv db" and "a \<in> set (jd_attempts db)" and "attempt_active (at_state a)"
    and "s \<in> set (jd_steps db)" "js_id s = at_job_step_id a"
  shows "active_attempts (jd_attempts db) (js_id s) = [a]" "js_state s = S_Dispatching"
proof -
  have a: "a \<in> set (active_attempts (jd_attempts db) (js_id s))"
    using assms(2,3,5) by (simp add: active_attempts_def)
  have len: "length (active_attempts (jd_attempts db) (js_id s)) =
      (if js_state s = S_Dispatching then 1 else 0)"
    using job_invD(4) [OF assms(1,4)] .
  show "js_state s = S_Dispatching"
    using a len by (cases "js_state s = S_Dispatching") auto
  with len obtain b where "active_attempts (jd_attempts db) (js_id s) = [b]"
    by (auto simp: length_Suc_conv)
  with a show "active_attempts (jd_attempts db) (js_id s) = [a]" by simp
qed

lemma attempt_step_exists:
  assumes "job_tables_ok db" and "a \<in> set (jd_attempts db)"
  obtains s where "s \<in> set (jd_steps db)" "js_id s = at_job_step_id a"
proof -
  have "at_job_step_id a \<in> js_id ` set (jd_steps db)" using assms by (simp add: job_tables_ok_def)
  then show ?thesis using that by auto
qed

lemma attempts_ok:
  assumes "job_tables_ok db"
  shows "distinct (map at_id (jd_attempts db))" "distinct (map at_action_id (jd_attempts db))"
    "\<forall>a\<in>set (jd_attempts db). at_job_step_id a \<in> js_id ` set (jd_steps db)"
  using assms by (simp_all add: job_tables_ok_def)

lemma upd_attempts_ok:
  assumes "job_tables_ok db"
  shows "distinct (map at_id (upd_attempt aid st (jd_attempts db)))"
    "distinct (map at_action_id (upd_attempt aid st (jd_attempts db)))"
    "\<forall>a\<in>set (upd_attempt aid st (jd_attempts db)). at_job_step_id a \<in> js_id ` set (jd_steps db)"
proof -
  show "\<forall>a\<in>set (upd_attempt aid st (jd_attempts db)). at_job_step_id a \<in> js_id ` set (jd_steps db)"
    using attempts_ok(3) [OF assms] by (auto simp: upd_attempt_def)
qed (use attempts_ok [OF assms] in simp_all)

lemma update_attempt_active_inv:
  assumes inv: "job_inv db" and a: "a \<in> set (jd_attempts db)"
    and "attempt_active (at_state a)" "attempt_active st"
  shows "job_inv (update_attempt_state (at_id a) st db)"
proof -
  note ok = job_invD(1) [OF inv]
  obtain s where s: "s \<in> set (jd_steps db)" "js_id s = at_job_step_id a"
    using attempt_step_exists [OF ok a] by blast
  obtain j where j: "find_job db (js_job_id s) = Some j" "s \<in> set (jb_steps j)"
    using find_job_exists [OF s(1) ok] by blast
  have dist: "distinct (map js_id (jb_steps j))"
    using ok j(1) by (auto simp: job_tables_ok_def job_wf_def)
  have same: "replace_step (jb_steps j) s = jb_steps j"
    by (rule replace_step_same [OF dist j(2)])
  let ?atts = "upd_attempt (at_id a) st (jd_attempts db)"
  have cnt: "length (active_attempts ?atts sid) = length (active_attempts (jd_attempts db) sid)" for sid
    by (rule active_attempts_upd_active [OF a attempts_ok(1) [OF ok] assms(3,4)])
  have "job_inv (patched db (js_job_id s) (jb_state j) s ?atts (jd_events db))"
  proof (rule patched_inv [OF inv j refl refl refl upd_attempts_ok [OF ok]])
    show "job_shape (j\<lparr> jb_state := jb_state j, jb_steps := replace_step (jb_steps j) s \<rparr>)"
      using job_invD(3) [OF inv j(1)] by (simp add: same)
    show "length (active_attempts ?atts (js_id s)) = (if js_state s = S_Dispatching then 1 else 0)"
      using cnt [of "js_id s"] job_invD(4) [OF inv s(1)] by simp
    show "job_outcomes k (jd_events db) = (if k = js_job_id s then outcome_of (jb_state j)
        else job_outcomes k (jd_events db))" for k
      using job_invD(5) [OF inv, of k] find_job_SomeD(4) [OF j(1)]
      by (simp add: expected_outcome_def)
  qed (use exclusive_same_state [OF inv j(1)] cnt in simp_all)
  moreover have "patched db (js_job_id s) (jb_state j) s ?atts (jd_events db) =
      update_attempt_state (at_id a) st db"
    using patched_same_step [OF ok s(1)] set_job_state_same [OF ok j(1)]
    by (simp add: update_attempt_state_def upd_attempt_def)
  ultimately show ?thesis by simp
qed

section \<open>Applied evidence\<close>

lemma insert_events_SomeD:
  "insert_events evs db = Some db' \<Longrightarrow> db' = db\<lparr> jd_events := jd_events db @ evs \<rparr>"
  by (auto simp: insert_events_def split: if_splits)

lemma insert_audit_SomeD:
  "insert_audit_record a db = Some db' \<Longrightarrow> db' = db\<lparr> jd_audit := jd_audit db @ [a] \<rparr>"
  by (auto simp: insert_audit_record_def split: if_splits)

lemma exclusivity_violated_cong:
  "jd_jobs db = jd_jobs db' \<Longrightarrow> exclusivity_violated db = exclusivity_violated db'"
  by (simp add: exclusivity_violated_def fun_eq_iff)

lemma persist_applied_patched:
  assumes ok: "job_tables_ok db" and j: "find_job db jid = Some j" and s: "s \<in> set (jb_steps j)"
    and ap: "jb_id (ap_job ap) = jid" "ap_attempt ap = a\<lparr> at_state := ats \<rparr>"
    and u: "js_id (ap_job_step ap) = js_id s"
      "ap_job_step ap = s\<lparr> js_state := js_state (ap_job_step ap),
         js_failure_reason := js_failure_reason (ap_job_step ap) \<rparr>"
    and per: "persist_applied ap db = Some db'"
  shows "\<not> exclusivity_violated db jid (jb_state (ap_job ap))"
    "db' = patched db jid (jb_state (ap_job ap)) (ap_job_step ap)
       (upd_attempt (at_id a) ats (jd_attempts db)) (jd_events db @ ap_events ap)"
proof -
  let ?f = "\<lambda>s. s\<lparr> js_state := js_state (ap_job_step ap),
      js_failure_reason := js_failure_reason (ap_job_step ap) \<rparr>"
  let ?db1 = "update_attempt_state (at_id a) ats db"
  let ?db2 = "update_step (js_id s) ?f ?db1"
  have att: "at_id (ap_attempt ap) = at_id a" "at_state (ap_attempt ap) = ats"
    using ap(2) by simp_all
  have jobs: "jd_jobs ?db2 = jd_jobs db" by (simp add: update_step_def update_attempt_state_def)
  obtain db3 where db3: "update_job_state jid (jb_state (ap_job ap)) ?db2 = Some db3"
    "insert_events (ap_events ap) db3 = Some db'"
    using per by (auto simp: persist_applied_def ap(1) att u(1) split: Option.bind_splits)
  show "\<not> exclusivity_violated db jid (jb_state (ap_job ap))"
    using update_job_state_SomeD [OF db3(1)] exclusivity_violated_cong [OF jobs] by simp
  have "jd_steps ?db2 = replace_step (jd_steps db) (ap_job_step ap)"
    using arg_cong [OF update_step_patched [OF ok j s, of ?f], of jd_steps] u
    by (simp add: update_step_def update_attempt_state_def patched_def)
  then show "db' = patched db jid (jb_state (ap_job ap)) (ap_job_step ap)
       (upd_attempt (at_id a) ats (jd_attempts db)) (jd_events db @ ap_events ap)"
    using update_job_state_SomeD [OF db3(1)] insert_events_SomeD [OF db3(2)]
    by (simp add: patched_def set_job_state_def update_step_def update_attempt_state_def upd_attempt_def)
qed

lemma applied_terminal_inv:
  assumes inv: "job_inv db" and a: "a \<in> set (jd_attempts db)" and s: "s \<in> set (jd_steps db)"
    and sa: "js_id s = at_job_step_id a" and j: "find_job db (js_job_id s) = Some j"
    and ap: "applied_ok j s a ap" and isterm: "ap_terminal ap"
    and per: "persist_applied ap db = Some db'"
  shows "job_inv db'"
proof -
  note ok = job_invD(1) [OF inv]
  have sj: "s \<in> set (jb_steps j)" using s find_job_SomeD(2) [OF j] by simp
  have wf: "job_wf j" using ok j by (simp add: job_tables_ok_def)
  let ?u = "ap_job_step ap"
  obtain st r where u: "?u = s\<lparr> js_state := st, js_failure_reason := r \<rparr>"
    "st \<in> {S_Succeeded, S_Failed, S_Cancelled}" "st = S_Cancelled \<longrightarrow> jb_state j = J_Cancelling"
    using ap isterm by (auto simp: applied_ok_def)
  obtain ats where ats: "ap_attempt ap = a\<lparr> at_state := ats \<rparr>" "\<not> attempt_active ats"
    using ap isterm by (auto simp: applied_ok_def)
  have act: "attempt_active (at_state a)" using ap by (simp add: applied_ok_def)
  have job: "ap_job ap = j\<lparr> jb_state := resulting_job_state j ?u, jb_steps := replace_step (jb_steps j) ?u \<rparr>"
    and outc: "\<And>k. job_outcomes k (ap_events ap) =
      (if k = jb_id j then outcome_of (jb_state (ap_job ap)) else [])"
    using ap isterm by (simp_all add: applied_ok_def)
  note single = active_attempts_single [OF inv a act s sa]
  have shape: "job_shape (j\<lparr> jb_state := resulting_job_state j ?u, jb_steps := replace_step (jb_steps j) ?u \<rparr>)"
    using shape_applied [OF wf job_invD(3) [OF inv j] sj single(2), of ?u] u by auto
  have jact: "job_active (jb_state j)"
    by (rule shape_dispatching_job [OF job_invD(3) [OF inv j] sj single(2)])
  have "jb_id (ap_job ap) = js_job_id s" using job find_job_SomeD(1) [OF j] by simp
  note pp = persist_applied_patched [OF ok j sj this ats(1) _ _ per]
  have db': "db' = patched db (js_job_id s) (jb_state (ap_job ap)) ?u
      (upd_attempt (at_id a) ats (jd_attempts db)) (jd_events db @ ap_events ap)"
    and noviol: "\<not> exclusivity_violated db (js_job_id s) (jb_state (ap_job ap))"
    using pp u(1) by simp_all
  show ?thesis
    unfolding db'
  proof (rule patched_inv [OF inv j sj _ _ _ upd_attempts_ok [OF ok]])
    show "job_shape (j\<lparr> jb_state := jb_state (ap_job ap), jb_steps := replace_step (jb_steps j) ?u \<rparr>)"
      using shape job by simp
    show "exclusive (set_job_state (js_job_id s) (jb_state (ap_job ap)) db)"
      by (rule exclusive_set_job_state [OF job_invD(2) [OF inv] ok noviol])
    have "active_attempts (upd_attempt (at_id a) ats (jd_attempts db)) (js_id s) = []"
      by (rule active_attempts_upd_terminal [OF single(1) attempts_ok(1) [OF ok] ats(2)])
    then show "length (active_attempts (upd_attempt (at_id a) ats (jd_attempts db)) (js_id s)) =
        (if js_state ?u = S_Dispatching then 1 else 0)"
      using u by auto
    show "length (active_attempts (upd_attempt (at_id a) ats (jd_attempts db)) sid) =
        length (active_attempts (jd_attempts db) sid)" if "sid \<noteq> js_id s" for sid
      using active_attempts_upd_other [OF a attempts_ok(1) [OF ok]] that sa by simp
    have "job_outcomes (js_job_id s) (jd_events db) = []"
      using job_invD(5) [OF inv, of "js_job_id s"] find_job_SomeD(4) [OF j] jact
      by (cases "jb_state j") (simp_all add: expected_outcome_def)
    then show "job_outcomes k (jd_events db @ ap_events ap) =
        (if k = js_job_id s then outcome_of (jb_state (ap_job ap)) else job_outcomes k (jd_events db))" for k
      using outc find_job_SomeD(1) [OF j] by simp
  qed (simp_all add: u(1))
qed

lemma applied_nonterminal_inv:
  assumes inv: "job_inv db" and a: "a \<in> set (jd_attempts db)" and s: "s \<in> set (jd_steps db)"
    and j: "find_job db (js_job_id s) = Some j"
    and ap: "applied_ok j s a ap" and isterm: "\<not> ap_terminal ap"
    and per: "persist_applied ap db = Some db'"
  shows "job_inv db'"
proof -
  note ok = job_invD(1) [OF inv]
  have sj: "s \<in> set (jb_steps j)" using s find_job_SomeD(2) [OF j] by simp
  obtain ats where ats: "ap_attempt ap = a\<lparr> at_state := ats \<rparr>" "attempt_active ats"
    using ap isterm by (auto simp: applied_ok_def)
  have rest: "ap_job_step ap = s" "ap_job ap = j" "ap_events ap = []" "attempt_active (at_state a)"
    using ap isterm by (simp_all add: applied_ok_def)
  have "jb_id (ap_job ap) = js_job_id s" using rest find_job_SomeD(1) [OF j] by simp
  from persist_applied_patched(2) [OF ok j sj this ats(1) _ _ per]
  have "db' = patched db (js_job_id s) (jb_state j) s (upd_attempt (at_id a) ats (jd_attempts db))
      (jd_events db)"
    using rest by simp
  also have "\<dots> = update_attempt_state (at_id a) ats db"
    using patched_same_step [OF ok s] set_job_state_same [OF ok j]
    by (simp add: update_attempt_state_def upd_attempt_def)
  finally show ?thesis
    using update_attempt_active_inv [OF inv a rest(4) ats(2)] by simp
qed

lemma commit_applied_inv:
  assumes "job_inv db" and "a \<in> set (jd_attempts db)" and "s \<in> set (jd_steps db)"
    and "js_id s = at_job_step_id a" and "find_job db (js_job_id s) = Some j" and "applied_ok j s a ap"
  shows "job_inv (fst (commit_applied db new_v4 actor j ap now detail))"
proof -
  have "job_inv db'" if "persist_applied ap db = Some db'" for db'
    using applied_terminal_inv [OF assms _ that] applied_nonterminal_inv [OF assms(1,2,3,5,6) _ that]
    by (cases "ap_terminal ap") simp_all
  then show ?thesis
    using assms(1)
    by (auto simp: commit_applied_def split: option.splits Option.bind_splits if_splits
        dest!: insert_audit_SomeD)
qed

lemma action_evidence_tx_inv:
  assumes "job_inv db"
  shows "job_inv (fst (apply_action_evidence_tx db new_v4 act ep ev now detail))"
proof (cases "locked_facts db act ep")
  case (Inr f)
  obtain j s a where f: "f = (j, s, a)" by (cases f)
  note facts = locked_facts_OkD [OF Inr [unfolded f] job_invD(1) [OF assms]]
  show ?thesis
    using Inr f assms commit_applied_inv [OF assms facts(1,3,4,5)] action_evidence_ok
    by (auto simp: apply_action_evidence_tx_def split: action_evidence_outcome.split)
qed (simp add: apply_action_evidence_tx_def assms)

lemma status_report_tx_inv:
  assumes "job_inv db"
  shows "job_inv (fst (apply_status_report_tx db new_v4 act ep ev now detail))"
proof (cases "locked_facts db act ep")
  case (Inr f)
  obtain j s a where f: "f = (j, s, a)" by (cases f)
  note facts = locked_facts_OkD [OF Inr [unfolded f] job_invD(1) [OF assms]]
  show ?thesis
    using Inr f assms commit_applied_inv [OF assms facts(1,3,4,5)] status_report_ok
    by (auto simp: apply_status_report_tx_def split: reconciliation_outcome.split)
qed (simp add: apply_status_report_tx_def assms)

section \<open>Conforming operations\<close>

definition attempt_of_job :: "job_db \<Rightarrow> job_id \<Rightarrow> attempt_id \<Rightarrow> bool" where
  "attempt_of_job db jid aid =
     list_ex (\<lambda>a. at_id a = aid \<and>
       list_ex (\<lambda>s. js_id s = at_job_step_id a \<and> js_job_id s = jid) (jd_steps db)) (jd_attempts db)"

text \<open>
  A scan reports Attempts of the Job it was run for. A \<open>CancelAck{AlreadyCompleted}\<close> conforms
  unless it concerns an Attempt that already has its final state while the Job is being cancelled.
\<close>

fun op_conforms :: "job_db \<Rightarrow> job_op \<Rightarrow> bool" where
  "op_conforms db (OpCancelAck u act ep ev now detail) =
     (case locked_facts db act ep of
        Inl _ \<Rightarrow> True
      | Inr (job, step, attempt) \<Rightarrow>
          \<not> (ev = AckAlreadyCompleted \<and> jb_state job = J_Cancelling \<and>
             \<not> attempt_active (at_state attempt)))"
| "op_conforms db (OpRequestCancellation rows u operator jid now detail) =
     list_all (attempt_of_job db jid) rows"
| "op_conforms db (OpCloseIndeterminate rows u operator jid now detail) =
     list_all (attempt_of_job db jid) rows"
| "op_conforms db _ = True"

lemma cancel_ack_tx_inv:
  assumes "job_inv db" and "op_conforms db (OpCancelAck new_v4 act ep ev now detail)"
  shows "job_inv (fst (apply_cancel_ack_tx db new_v4 act ep ev now detail))"
proof (cases "locked_facts db act ep")
  case (Inr f)
  obtain j s a where f: "f = (j, s, a)" by (cases f)
  note facts = locked_facts_OkD [OF Inr [unfolded f] job_invD(1) [OF assms(1)]]
  have "applied_ok j s a ap" if "apply_cancel_ack new_v4 j s a ev now = CancelAckApplied ap" for ap
    using cancel_ack_ok [OF that] cancel_ack_terminal_attempt [OF that] assms(2) Inr f
    by (cases "attempt_active (at_state a)") auto
  then show ?thesis
    using Inr f assms commit_applied_inv [OF assms(1) facts(1,3,4,5)]
    by (auto simp: apply_cancel_ack_tx_def split: cancel_ack_outcome.split)
qed (simp add: apply_cancel_ack_tx_def assms)

section \<open>Changes of a Job's state alone\<close>

lemma job_has_step:
  assumes "job_tables_ok db" and "find_job db jid = Some j"
  obtains s where "s \<in> set (jb_steps j)" "s \<in> set (jd_steps db)"
proof -
  have "jb_steps j \<noteq> []" using assms by (auto simp: job_tables_ok_def job_wf_def)
  then have "hd (jb_steps j) \<in> set (jb_steps j)" by simp
  then show ?thesis using that find_job_SomeD(2) [OF assms(2)] by blast
qed

lemma job_state_change_inv:
  assumes inv: "job_inv db" and j: "find_job db jid = Some j"
    and upd: "update_job_state jid st db = Some db1"
    and shape: "job_shape (j\<lparr> jb_state := st \<rparr>)" and "\<not> job_terminal (jb_state j)"
    and evs: "\<And>k. job_outcomes k evs = (if k = jid then outcome_of st else [])"
  shows "job_inv (db1\<lparr> jd_events := jd_events db @ evs \<rparr>)"
proof -
  note ok = job_invD(1) [OF inv]
  obtain s where s: "s \<in> set (jb_steps j)" "s \<in> set (jd_steps db)"
    by (rule job_has_step [OF ok j])
  have dist: "distinct (map js_id (jb_steps j))"
    using ok j by (auto simp: job_tables_ok_def job_wf_def)
  note db1 = update_job_state_SomeD [OF upd]
  have "job_inv (patched db jid st s (jd_attempts db) (jd_events db @ evs))"
  proof (rule patched_inv [OF inv j s(1) refl refl refl attempts_ok [OF ok]])
    show "job_shape (j\<lparr> jb_state := st, jb_steps := replace_step (jb_steps j) s \<rparr>)"
      using shape by (simp add: replace_step_same [OF dist s(1)])
    show "exclusive (set_job_state jid st db)"
      using exclusive_set_job_state [OF job_invD(2) [OF inv] ok] db1 by simp
    have "job_outcomes jid (jd_events db) = []"
      using job_invD(5) [OF inv, of jid] find_job_SomeD(4) [OF j] assms(5)
      by (simp add: expected_outcome_def outcome_of_def)
    then show "job_outcomes k (jd_events db @ evs) =
        (if k = jid then outcome_of st else job_outcomes k (jd_events db))" for k
      using evs by simp
  qed (use job_invD(4) [OF inv s(2)] in simp_all)
  then show ?thesis
    using patched_same_step [OF ok s(2)] db1 by (simp add: set_job_state_def)
qed

lemma admit_job_tx_inv:
  assumes inv: "job_inv db"
  shows "job_inv (fst (admit_job_tx db new_v4 jid now))"
proof (cases "find_job db jid")
  case (Some j)
  show ?thesis
  proof (cases "jb_state j = J_Pending")
    case True
    have wf: "job_wf j" using job_invD(1) [OF inv] Some by (simp add: job_tables_ok_def)
    have pend: "\<forall>s\<in>set (jb_steps j). js_state s = S_Pending" and lin: "linear (jb_steps j)"
      using job_invD(3) [OF inv Some] True by (simp_all add: job_shape_def)
    then have shape: "job_shape (j\<lparr> jb_state := J_Running \<rparr>)"
      using wf by (cases "jb_steps j") (simp_all add: job_shape_def job_wf_def)
    have "job_inv (db1\<lparr> jd_events := jd_events db @ [JobStarted u (jb_id j) e t] \<rparr>)"
      if "update_job_state jid J_Running db = Some db1" for db1 u e t
      by (rule job_state_change_inv [OF inv Some that shape]) (simp_all add: True job_outcomes_Cons)
    then show ?thesis
      using inv True Some
      by (auto simp: admit_job_tx_def admit_job_def update_job_state_def set_job_state_def
          split: option.splits if_splits dest!: insert_events_SomeD)
  qed (use inv Some in \<open>simp add: admit_job_tx_def admit_job_def\<close>)
qed (use inv in \<open>simp add: admit_job_tx_def\<close>)

section \<open>Changes of a step alone\<close>

lemma step_change_inv:
  assumes inv: "job_inv db" and j: "find_job db jid = Some j" and s: "s \<in> set (jb_steps j)"
    and f: "js_id (f s) = js_id s" "js_order (f s) = js_order s" "js_job_id (f s) = js_job_id s"
    and "js_state (f s) = S_Dispatching \<longleftrightarrow> js_state s = S_Dispatching"
    and shape: "job_shape (j\<lparr> jb_state := jb_state j, jb_steps := replace_step (jb_steps j) (f s) \<rparr>)"
  shows "job_inv (update_step (js_id s) f db)"
proof -
  note ok = job_invD(1) [OF inv]
  have sd: "s \<in> set (jd_steps db)" using s find_job_SomeD(2) [OF j] by simp
  show ?thesis
    unfolding update_step_patched [where f = f, OF ok j s f(1)]
  proof (rule patched_inv [OF inv j s f attempts_ok [OF ok] shape exclusive_same_state [OF inv j]])
    show "length (active_attempts (jd_attempts db) (js_id s)) =
        (if js_state (f s) = S_Dispatching then 1 else 0)"
      using job_invD(4) [OF inv sd] assms(7) by simp
    show "job_outcomes k (jd_events db) =
        (if k = jid then outcome_of (jb_state j) else job_outcomes k (jd_events db))" for k
      using job_invD(5) [OF inv, of k] find_job_SomeD(4) [OF j] by (simp add: expected_outcome_def)
  qed simp
qed

lemma satisfy_tx_inv:
  assumes inv: "job_inv db"
  shows "job_inv (fst (satisfy_preconditions_tx db jid sid))"
proof (cases "find_job db jid")
  case (Some j)
  have wf: "job_wf j" using job_invD(1) [OF inv] Some by (simp add: job_tables_ok_def)
  show ?thesis
  proof (cases "satisfy_preliminary_preconditions j sid")
    case (Inr u)
    note sat = shape_satisfy [OF wf job_invD(3) [OF inv Some] Inr]
    obtain s where s: "s \<in> set (jb_steps j)" "js_id s = sid" "js_state s = S_Pending"
      "u = s\<lparr> js_state := S_PreconditionsSatisfied \<rparr>"
      using sat(2) by blast
    have "job_inv (update_step (js_id s) (\<lambda>s. s\<lparr> js_state := S_PreconditionsSatisfied \<rparr>) db)"
      by (rule step_change_inv [OF inv Some s(1)]) (use sat(1,3) s in simp_all)
    then show ?thesis using Some Inr s by (simp add: satisfy_preconditions_tx_def)
  next
    case (Inl e)
    then show ?thesis using Some inv
      by (cases e) (simp_all add: satisfy_preconditions_tx_def)
  qed
qed (use inv in \<open>simp add: satisfy_preconditions_tx_def\<close>)

lemma denial_inv:
  assumes inv: "job_inv db" and j: "find_job db jid = Some j" and s: "find_step sid j = Some s"
    and "js_state s = S_PreconditionsSatisfied"
  shows "job_inv (update_step sid (\<lambda>s. s\<lparr> js_state := S_Pending \<rparr>) db)"
proof -
  have wf: "job_wf j" using job_invD(1) [OF inv] j by (simp add: job_tables_ok_def)
  note step = find_job_step [OF job_invD(1) [OF inv] j s]
  have "job_inv (update_step (js_id s) (\<lambda>s. s\<lparr> js_state := S_Pending \<rparr>) db)"
  proof (rule step_change_inv [OF inv j step(4)])
    show "job_shape (j\<lparr> jb_state := jb_state j,
        jb_steps := replace_step (jb_steps j) (s\<lparr> js_state := S_Pending \<rparr>) \<rparr>)"
      by (rule shape_denial [OF wf job_invD(3) [OF inv j] step(4) assms(4)]) simp_all
  qed (use assms(4) in simp_all)
  then show ?thesis using step(2) by simp
qed

lemma authorize_intent_tx_inv:
  assumes inv: "job_inv db"
  shows "job_inv (fst (authorize_intent_tx db read jid sid inventory target))"
proof -
  note ok = job_invD(1) [OF inv]
  have "job_inv (update_step sid (\<lambda>s. s\<lparr> js_destructive_intent := Some i \<rparr>) db)"
    if found: "find (\<lambda>s. js_id s = sid \<and> js_job_id s = jid) (jd_steps db) = Some s" for s i
  proof -
    have s: "s \<in> set (jd_steps db)" "js_id s = sid" "js_job_id s = jid"
      using find_SomeD [OF found] by simp_all
    obtain j where j: "find_job db jid = Some j" "s \<in> set (jb_steps j)"
      using find_job_exists [OF s(1) ok] s(3) by blast
    have dist: "distinct (map js_id (jb_steps j))"
      using ok j(1) by (auto simp: job_tables_ok_def job_wf_def)
    have "map js_state (replace_step (jb_steps j) (s\<lparr> js_destructive_intent := Some i \<rparr>)) =
        map js_state (jb_steps j)"
      unfolding replace_step_def using dist j(2) by (auto simp: distinct_map inj_on_def)
    from job_shape_cong [OF this job_invD(3) [OF inv j(1)]]
    have "job_inv (update_step (js_id s) (\<lambda>s. s\<lparr> js_destructive_intent := Some i \<rparr>) db)"
      by (intro step_change_inv [OF inv j]) simp_all
    then show ?thesis using s(2) by simp
  qed
  then show ?thesis
    using inv
    by (auto simp: authorize_intent_tx_def split: option.split sum.split destructive_intent_error.split)
qed

section \<open>Dispatch\<close>

lemma active_attempts_snoc:
  "active_attempts (atts @ [a]) sid =
     active_attempts atts sid @ (if at_job_step_id a = sid \<and> attempt_active (at_state a) then [a] else [])"
  by (simp add: active_attempts_def)

lemma dispatch_inv:
  assumes inv: "job_inv db" and j: "find_job db jid = Some j" and found: "find_step sid j = Some s"
    and st: "js_state s = S_PreconditionsSatisfied" "jb_state j = J_Running"
    and ins: "insert_attempt a (update_step sid (\<lambda>s. s\<lparr> js_state := S_Dispatching \<rparr>) db) = Some db'"
    and a: "at_job_step_id a = sid" "attempt_active (at_state a)"
  shows "job_inv db'"
proof -
  note ok = job_invD(1) [OF inv]
  note step = find_job_step [OF ok j found]
  let ?f = "\<lambda>s. s\<lparr> js_state := S_Dispatching \<rparr>"
  have wf: "job_wf j" using ok j by (simp add: job_tables_ok_def)
  have upd: "update_step sid ?f db = patched db jid (jb_state j) (?f s) (jd_attempts db) (jd_events db)"
    using update_step_patched [where f = ?f, OF ok j step(4)] step(2) by simp
  have fresh: "at_id a \<notin> at_id ` set (jd_attempts db)" "at_action_id a \<notin> at_action_id ` set (jd_attempts db)"
    and db': "db' = patched db jid (jb_state j) (?f s) (jd_attempts db @ [a]) (jd_events db)"
    using ins by (auto simp: insert_attempt_def upd patched_def set_job_state_def split: if_splits)
  have shape: "job_shape (j\<lparr> jb_state := jb_state j, jb_steps := replace_step (jb_steps j) (?f s) \<rparr>)"
    using shape_dispatch [OF wf job_invD(3) [OF inv j] step(4) st(1,2), of "?f s"] st(2) by simp
  show ?thesis
    unfolding db'
  proof (rule patched_inv [OF inv j step(4) _ _ _ _ _ _ shape exclusive_same_state [OF inv j]])
    show "distinct (map at_id (jd_attempts db @ [a]))" "distinct (map at_action_id (jd_attempts db @ [a]))"
      using fresh attempts_ok(1,2) [OF ok] by auto
    show "\<forall>b\<in>set (jd_attempts db @ [a]). at_job_step_id b \<in> js_id ` set (jd_steps db)"
      using attempts_ok(3) [OF ok] a(1) imageI [OF step(1), of js_id] step(2) by simp
    show "length (active_attempts (jd_attempts db @ [a]) (js_id s)) =
        (if js_state (?f s) = S_Dispatching then 1 else 0)"
      using job_invD(4) [OF inv step(1)] st(1) a step(2) by (simp add: active_attempts_snoc)
    show "length (active_attempts (jd_attempts db @ [a]) sid') =
        length (active_attempts (jd_attempts db) sid')" if "sid' \<noteq> js_id s" for sid'
      using that a(1) step(2) by (simp add: active_attempts_snoc)
    show "job_outcomes k (jd_events db) =
        (if k = jid then outcome_of (jb_state j) else job_outcomes k (jd_events db))" for k
      using job_invD(5) [OF inv, of k] find_job_SomeD(4) [OF j] by (simp add: expected_outcome_def)
  qed simp_all
qed

lemma destructive_dispatch_tx_inv:
  assumes inv: "job_inv db"
  shows "job_inv (fst (commit_destructive_dispatch_tx db new_v4 jid sid facts))"
proof (cases "find_job db jid")
  case (Some j)
  show ?thesis
  proof (cases "df_endpoint facts")
    case (Some e)
    note e = Some
    let ?i = "resolve_dispatch_inputs j sid (existing_active_attempt db sid) e
      (df_inventory facts) (df_present facts) (df_target facts) (df_now facts)"
    have i: "fd_job ?i = j" "fd_step_id ?i = sid" by (simp_all add: resolve_dispatch_inputs_def)
    show ?thesis
    proof (cases "evaluate_final_destructive_dispatch new_v4 ?i")
      case (Inl d)
      have "job_inv (case fx_pending_job_step d of
          Some p \<Rightarrow> update_step sid (\<lambda>s. s\<lparr> js_state := js_state p \<rparr>) db | None \<Rightarrow> db)"
        using final_dispatch_denial_cases [OF Inl] inv denial_inv [OF inv \<open>find_job db jid = Some j\<close>]
        by (auto simp: i)
      then show ?thesis
        using \<open>find_job db jid = Some j\<close> e Inl by (simp add: commit_destructive_dispatch_tx_def)
    next
      case (Inr out)
      obtain s where s: "find_step sid j = Some s" "js_state s = S_PreconditionsSatisfied"
        "jb_state j = J_Running" "js_state (fo_job_step out) = S_Dispatching"
        "at_state (fo_attempt out) = A_Dispatched"
        using Inr unfolding final_dispatch_Ok_iff i by (auto simp: dispatched_attempt_def)
      have "job_inv db1" if "insert_attempt ((fo_attempt out)\<lparr> at_job_step_id := sid \<rparr>)
          (update_step sid (\<lambda>s. s\<lparr> js_state := S_Dispatching \<rparr>) db) = Some db1" for db1
        by (rule dispatch_inv [OF inv \<open>find_job db jid = Some j\<close> s(1-3) that]) (simp_all add: s(5))
      then show ?thesis
        using \<open>find_job db jid = Some j\<close> e Inr s(4) inv
        by (auto simp: commit_destructive_dispatch_tx_def Let_def
            split: option.splits Option.bind_splits dest!: insert_audit_SomeD)
    qed
  qed (use Some inv in \<open>simp add: commit_destructive_dispatch_tx_def\<close>)
qed (use inv in \<open>simp add: commit_destructive_dispatch_tx_def\<close>)

lemma persist_binding_inv:
  "persist_attempt_binding tid aid db = Some db' \<Longrightarrow> job_inv db' = job_inv db"
  by (auto simp: persist_attempt_binding_def split: if_splits)

lemma transfer_dispatch_tx_inv:
  assumes inv: "job_inv db"
  shows "job_inv (fst (commit_transfer_dispatch_tx db new_v4 jid sid tid))"
proof (cases "find_job db jid")
  case (Some j)
  show ?thesis
  proof (cases "find_transfer db tid")
    case (Some t)
    note t = Some
    let ?i = "\<lparr> td_job = j, td_step_id = sid,
      td_existing_active_attempt = existing_active_attempt db sid, td_transfer = t \<rparr>"
    show ?thesis
    proof (cases "evaluate_transfer_dispatch new_v4 ?i")
      case (Inl d)
      have "job_inv (case tx_pending_job_step d of
          Some p \<Rightarrow> update_step sid (\<lambda>s. s\<lparr> js_state := js_state p \<rparr>) db | None \<Rightarrow> db)"
        using transfer_dispatch_denial_cases [OF Inl] inv denial_inv [OF inv \<open>find_job db jid = Some j\<close>]
        by auto
      then show ?thesis
        using \<open>find_job db jid = Some j\<close> t Inl by (simp add: commit_transfer_dispatch_tx_def)
    next
      case (Inr out)
      obtain s where s: "find_step sid j = Some s" "js_state s = S_PreconditionsSatisfied"
        "jb_state j = J_Running" "js_state (to_job_step out) = S_Dispatching"
        "at_state (to_attempt out) = A_Dispatched"
        using Inr unfolding transfer_dispatch_Ok_iff by (auto simp: dispatched_attempt_def)
      have "job_inv db1" if "insert_attempt ((to_attempt out)\<lparr> at_job_step_id := sid \<rparr>)
          (update_step sid (\<lambda>s. s\<lparr> js_state := S_Dispatching \<rparr>) db) = Some db1" for db1
        by (rule dispatch_inv [OF inv \<open>find_job db jid = Some j\<close> s(1-3) that]) (simp_all add: s(5))
      then show ?thesis
        using \<open>find_job db jid = Some j\<close> t Inr s(4) inv
        by (auto simp: commit_transfer_dispatch_tx_def Let_def persist_binding_inv
            split: option.splits Option.bind_splits)
    qed
  qed (use Some inv in \<open>simp add: commit_transfer_dispatch_tx_def\<close>)
qed (use inv in \<open>simp add: commit_transfer_dispatch_tx_def\<close>)

lemma create_transfer_tx_inv: "job_inv db \<Longrightarrow> job_inv (fst (create_transfer_tx db exists t))"
  by (auto simp: create_transfer_tx_def split: option.split)

section \<open>Uncertainty\<close>

lemma mark_awaiting_SomeD:
  "mark_awaiting_reconciliation a = Some b \<Longrightarrow>
     attempt_active (at_state a) \<and> b = a\<lparr> at_state := A_AwaitingReconciliation \<rparr>"
  by (auto simp: mark_awaiting_reconciliation_def split: if_splits)

lemma mark_one_inv:
  assumes "job_inv db" and "find_attempt db aid = Some a" and "mark_awaiting_reconciliation a = Some b"
  shows "job_inv (update_attempt_state (at_id b) (at_state b) db)"
  using update_attempt_active_inv [OF assms(1), of a A_AwaitingReconciliation] assms(2)
    mark_awaiting_SomeD [OF assms(3)]
  by (simp add: find_attempt_Some_iff [OF job_invD(1) [OF assms(1)]])

lemma mark_uncertain_tx_inv:
  "job_inv db \<Longrightarrow> job_inv (fst (mark_endpoint_uncertain_tx db rows act))"
  by (auto simp: mark_endpoint_uncertain_tx_def mark_one_inv split: list.split option.split)

lemma reconcile_attempts_inv: "job_inv db \<Longrightarrow> job_inv (fst (reconcile_attempts aids db))"
proof (induction aids arbitrary: db)
  case (Cons aid aids)
  have step: "job_inv (update_attempt_state (at_id b) (at_state b) db)"
    if "Option.bind (find_attempt db aid) mark_awaiting_reconciliation = Some b" for b
    using that mark_one_inv [OF Cons.prems] by (auto split: Option.bind_splits)
  show ?case
    using Cons.IH [OF step] Cons.IH [OF Cons.prems] by (auto split: option.split prod.split)
qed simp

lemma reconcile_on_startup_inv: "job_inv db \<Longrightarrow> job_inv (fst (reconcile_on_startup_tx db))"
  by (simp add: reconcile_on_startup_tx_def reconcile_attempts_inv)

lemma attempt_of_jobD:
  assumes "job_tables_ok db" and "attempt_of_job db jid aid" and "find_attempt db aid = Some a"
    and "s \<in> set (jd_steps db)" "js_id s = at_job_step_id a"
  shows "js_job_id s = jid"
proof -
  obtain b t where bt: "b \<in> set (jd_attempts db)" "at_id b = aid" "t \<in> set (jd_steps db)"
    "js_id t = at_job_step_id b" "js_job_id t = jid"
    using assms(2) by (auto simp: attempt_of_job_def list_ex_iff)
  have "b = a"
    using bt(1,2) assms(1,3) by (auto simp: find_attempt_Some_iff job_tables_ok_def distinct_map inj_on_def)
  then have "t = s"
    using bt(3,4) assms(1,4,5) by (auto simp: job_tables_ok_def distinct_map inj_on_def)
  then show ?thesis using bt(5) by simp
qed

lemma close_indeterminate_tx_inv:
  assumes inv: "job_inv db" and conf: "list_all (attempt_of_job db jid) rows"
  shows "job_inv (fst (close_indeterminate_tx db rows new_v4 operator jid now detail))"
proof -
  note ok = job_invD(1) [OF inv]
  have "job_inv (fst (commit_applied db new_v4 operator j ap now detail))"
    if rows: "rows = [aid]" and a: "find_attempt db aid = Some a"
      and s: "find_step_row db (at_job_step_id a) = Some s" and j: "find_job db jid = Some j"
      and ap: "close_indeterminate new_v4 j s a now = CloseApplied ap" for aid a s j ap
  proof -
    have "s \<in> set (jd_steps db)" "js_id s = at_job_step_id a" "a \<in> set (jd_attempts db)"
      using s a ok by (simp_all add: find_step_row_Some_iff find_attempt_Some_iff)
    moreover from this have "js_job_id s = jid"
      using attempt_of_jobD [OF ok _ a] conf rows by simp
    ultimately show ?thesis
      using commit_applied_inv [OF inv] close_indeterminate_ok [OF ap] j by blast
  qed
  then show ?thesis
    using inv
    by (auto simp: close_indeterminate_tx_def
        split: list.split option.split close_indeterminate_outcome.split)
qed

section \<open>Cancellation requests\<close>

lemma candidate_rows_empty:
  assumes inv: "job_inv db" and j: "find_job db jid = Some j"
    and "active_attempt_candidate_rows db jid = []" and s: "s \<in> set (jb_steps j)"
  shows "js_state s \<noteq> S_Dispatching"
proof
  note ok = job_invD(1) [OF inv]
  assume disp: "js_state s = S_Dispatching"
  have sd: "s \<in> set (jd_steps db)" "js_job_id s = jid"
    using s find_job_SomeD(2) [OF j] by simp_all
  have "active_attempts (jd_attempts db) (js_id s) \<noteq> []"
    using job_invD(4) [OF inv sd(1)] disp by auto
  then obtain a where a: "a \<in> set (jd_attempts db)" "at_job_step_id a = js_id s" "attempt_active (at_state a)"
    by (auto simp: active_attempts_def filter_empty_conv)
  have "step_of db a = Some s"
    using sd a(2) by (simp add: step_of_def find_step_row_Some_iff [OF ok])
  then have "dispatching_step_of_job db jid a"
    using sd disp by (simp add: dispatching_step_of_job_def)
  then show False
    using assms(3) a by (auto simp: active_attempt_candidate_rows_def filter_empty_conv)
qed

lemma decide_cancellation_inv:
  assumes inv: "job_inv db" and j: "find_job db jid = Some j"
    and some: "\<And>a. active = Some a \<Longrightarrow> \<exists>s\<in>set (jb_steps j). js_state s = S_Dispatching"
    and none: "active = None \<Longrightarrow> \<forall>s\<in>set (jb_steps j). js_state s \<noteq> S_Dispatching"
  shows "job_inv (fst (decide_cancellation db new_v4 operator j active now detail))"
proof (cases "jb_state j = J_Running")
  case False
  then show ?thesis
    using inv by (cases "jb_state j") (simp_all add: decide_cancellation_def request_cancellation_def)
next
  case True
  note shape = job_invD(3) [OF inv j]
  have jid: "jb_id j = jid" by (rule find_job_SomeD(1) [OF j])
  show ?thesis
  proof (cases active)
    case None
    have shape': "job_shape (j\<lparr> jb_state := J_Cancelled \<rparr>)"
      using shape none [OF None] by (simp add: job_shape_def True)
    have "job_inv (db1\<lparr> jd_events := jd_events db @ [JobCancelled u jid e t] \<rparr>)"
      if "update_job_state jid J_Cancelled db = Some db1" for db1 u e t
      by (rule job_state_change_inv [OF inv j that shape']) (simp_all add: True job_outcomes_Cons)
    then show ?thesis
      using inv None True jid
      by (auto simp: decide_cancellation_def request_cancellation_def Let_def update_job_state_def
          set_job_state_def split: option.splits Option.bind_splits if_splits
          dest!: insert_audit_SomeD insert_events_SomeD)
  next
    case (Some a)
    have shape': "job_shape (j\<lparr> jb_state := J_Cancelling \<rparr>)"
      using shape some [OF Some] by (simp add: job_shape_def True)
    have "job_inv db1" if upd: "update_job_state jid J_Cancelling db = Some db1" for db1
    proof -
      have "job_inv (db1\<lparr> jd_events := jd_events db @ [] \<rparr>)"
        by (rule job_state_change_inv [OF inv j upd shape']) (simp_all add: True)
      then show ?thesis
        using update_job_state_SomeD [OF upd] by (simp add: set_job_state_def)
    qed
    then show ?thesis
      using inv Some True jid
      by (auto simp: decide_cancellation_def request_cancellation_def Let_def
          split: option.splits Option.bind_splits dest!: insert_audit_SomeD)
  qed
qed

lemma request_cancellation_pass_inv:
  assumes inv: "job_inv db" and conf: "list_all (attempt_of_job db jid) rows"
    and "request_cancellation_pass db rows new_v4 operator jid now detail = PassDone r"
  shows "job_inv (fst r)"
proof -
  note ok = job_invD(1) [OF inv]
  have empty: "job_inv (fst (decide_cancellation db new_v4 operator j None now detail))"
    if "find_job db jid = Some j" "active_attempt_candidate_rows db jid = []" for j
    using decide_cancellation_inv [OF inv that(1)] candidate_rows_empty [OF inv that] by blast
  have active: "job_inv (fst (decide_cancellation db new_v4 operator j (Some a) now detail))"
    if rows: "rows = [aid]" and a: "find_attempt db aid = Some a" "attempt_active (at_state a)"
      and j: "find_job db jid = Some j" for aid a j
  proof (rule decide_cancellation_inv [OF inv j])
    have ad: "a \<in> set (jd_attempts db)" using a(1) by (simp add: find_attempt_Some_iff [OF ok])
    obtain s where s: "s \<in> set (jd_steps db)" "js_id s = at_job_step_id a"
      by (rule attempt_step_exists [OF ok ad])
    have "js_job_id s = jid" using attempt_of_jobD [OF ok _ a(1) s] conf rows by simp
    then have "s \<in> set (jb_steps j)" using s find_job_SomeD(2) [OF j] by simp
    moreover have "js_state s = S_Dispatching" by (rule active_attempts_single(2) [OF inv ad a(2) s])
    ultimately show "\<exists>s\<in>set (jb_steps j). js_state s = S_Dispatching" by blast
  qed simp
  show ?thesis
    using assms(3) inv empty active
    by (auto simp: request_cancellation_pass_def split: list.splits option.splits if_splits)
qed

section \<open>Creation\<close>

lemma sort_key_ordered: "sorted (map f xs) \<Longrightarrow> sort_key f xs = xs"
  by (rule sort_key_id_if_sorted)

lemma create_workflow_inserted:
  assumes "create_workflow new_v4 ep n = Ok j" and "insert_workflow j db = Some db'"
  shows "job_wf j" "jb_state j = J_Pending" "\<forall>s\<in>set (jb_steps j). js_state s = S_Pending"
proof -
  show "jb_state j = J_Pending" "\<forall>s\<in>set (jb_steps j). js_state s = S_Pending"
    using create_workflow_all_pending [OF assms(1)] by simp_all
  have ord: "list_all (\<lambda>s. 0 \<le> js_order s) (jb_steps j)" and dist: "distinct (map js_id (jb_steps j))"
    using assms(2) by (auto simp: insert_workflow_def split: if_splits)
  have steps: "map js_order (jb_steps j) = map as_i32 [0..<n]" and n: "n \<noteq> 0"
    and own: "\<forall>s\<in>set (jb_steps j). js_job_id s = jb_id j"
    using assms(1) by (auto simp: create_workflow_def Let_def comp_def split: if_splits)
  have "n \<le> 2 ^ 31"
  proof (rule ccontr)
    assume "\<not> n \<le> 2 ^ 31"
    then have "as_i32 (2 ^ 31) \<in> set (map js_order (jb_steps j))"
      unfolding steps by (auto intro!: imageI)
    then have "0 \<le> as_i32 (2 ^ 31)" using ord by (auto simp: list_all_iff)
    then show False using as_i32_wraps by simp
  qed
  then have "map as_i32 [0..<n] = map int [0..<n]" by (simp add: as_i32_id)
  moreover have "length (jb_steps j) = n" using create_workflow_all_pending [OF assms(1)] by simp
  ultimately show "job_wf j"
    using dist own n steps by (auto simp: job_wf_def steps_ordered_def)
qed

lemma find_append: "find P (xs @ ys) = (case find P xs of None \<Rightarrow> find P ys | Some x \<Rightarrow> Some x)"
  by (induction xs) simp_all

lemma find_row_fresh:
  "jid \<notin> jr_id ` set (jd_jobs db) \<Longrightarrow> find (\<lambda>r. jr_id r = jid) (jd_jobs db) = None"
  by (auto simp: find_None_iff image_iff)

lemma insert_workflow_find_job:
  assumes ok: "job_tables_ok db" and ins: "insert_workflow j db = Some db'" and wf: "job_wf j"
  shows "find_job db' k = (if k = jb_id j then Some j else find_job db k)"
proof -
  have fresh: "jb_id j \<notin> jr_id ` set (jd_jobs db)"
    and db': "db' = db\<lparr> jd_jobs := jd_jobs db @ [\<lparr> jr_id = jb_id j, jr_endpoint_id = jb_endpoint_id j,
        jr_state = jb_state j \<rparr>], jd_steps := jd_steps db @ jb_steps j \<rparr>"
    using ins by (auto simp: insert_workflow_def split: if_splits)
  have own: "\<forall>s\<in>set (jb_steps j). js_job_id s = jb_id j" using wf by (simp add: job_wf_def)
  have norow: "find (\<lambda>r. jr_id r = jb_id j) (jd_jobs db) = None"
    by (rule find_row_fresh [OF fresh])
  show ?thesis
  proof (cases "k = jb_id j")
    case True
    have "js_job_id s \<noteq> k" if "s \<in> set (jd_steps db)" for s
    proof -
      have "js_job_id s \<in> jr_id ` set (jd_jobs db)" using ok that by (simp add: job_tables_ok_def)
      then show ?thesis using fresh True by metis
    qed
    then have "filter (\<lambda>s. js_job_id s = k) (jd_steps db) = []"
      by (simp add: filter_empty_conv)
    moreover have "filter (\<lambda>s. js_job_id s = k) (jb_steps j) = jb_steps j"
      using own True by (auto simp: filter_id_conv)
    moreover have "sorted (map js_order (jb_steps j))"
      using wf by (auto simp: job_wf_def steps_ordered_def sorted_iff_nth_mono)
    ultimately have "fetch_job_steps db' k = jb_steps j"
      by (simp add: fetch_job_steps_def db' sort_key_ordered)
    then show ?thesis
      using True norow by (simp add: find_job_def find_job_row_def find_append db')
  next
    case False
    have "filter (\<lambda>s. js_job_id s = k) (jb_steps j) = []"
      using own False by (auto simp: filter_empty_conv)
    then have "fetch_job_steps db' k = fetch_job_steps db k"
      by (simp add: fetch_job_steps_def db')
    moreover have "find_job_row db' k = find_job_row db k"
      using False by (simp add: find_job_row_def find_append db' split: option.split)
    ultimately show ?thesis using False by (simp only: find_job_def if_False)
  qed
qed

lemma create_workflow_tx_inv:
  assumes inv: "job_inv db"
  shows "job_inv (fst (create_workflow_tx db new_v4 identity ep n))"
proof -
  note ok = job_invD(1) [OF inv]
  have "job_inv db'" if c: "create_workflow new_v4 ep n = Ok j" and ins: "insert_workflow j db = Some db'"
    for j db'
  proof -
    note new = create_workflow_inserted [OF c ins]
    note fj = insert_workflow_find_job [OF ok ins new(1)]
    have fresh: "jb_id j \<notin> jr_id ` set (jd_jobs db)" "distinct (map js_id (jd_steps db @ jb_steps j))"
      and db': "db' = db\<lparr> jd_jobs := jd_jobs db @ [\<lparr> jr_id = jb_id j, jr_endpoint_id = jb_endpoint_id j,
          jr_state = jb_state j \<rparr>], jd_steps := jd_steps db @ jb_steps j \<rparr>"
      using ins by (auto simp: insert_workflow_def split: if_splits)
    have own: "\<forall>s\<in>set (jb_steps j). js_job_id s = jb_id j" using new(1) by (simp add: job_wf_def)
    have tables: "job_tables_ok db'"
      unfolding job_tables_ok_def
    proof (intro conjI)
      show "\<forall>jid j'. find_job db' jid = Some j' \<longrightarrow> job_wf j'"
        using ok new(1) by (simp add: fj job_tables_ok_def)
      show "\<forall>a\<in>set (jd_attempts db'). at_job_step_id a \<in> js_id ` set (jd_steps db')"
        using attempts_ok(3) [OF ok] by (auto simp: db')
      have "\<forall>s\<in>set (jd_steps db). js_job_id s \<in> jr_id ` set (jd_jobs db)"
        using ok by (simp add: job_tables_ok_def)
      then show "\<forall>s\<in>set (jd_steps db'). js_job_id s \<in> jr_id ` set (jd_jobs db')"
        using own by (simp add: db' ball_Un)
      show "distinct (map js_id (jd_steps db'))" unfolding db' using fresh(2) by simp
      show "distinct (map jr_id (jd_jobs db'))"
        using fresh(1) ok by (auto simp: db' job_tables_ok_def)
    qed (use attempts_ok [OF ok] in \<open>simp_all add: db'\<close>)
    show ?thesis
    proof (rule job_invI [OF tables])
      show "exclusive db'"
        unfolding exclusive_def
      proof (intro ballI impI)
        fix r q
        assume "r \<in> set (jd_jobs db')" "q \<in> set (jd_jobs db')"
          and act: "job_active (jr_state r) \<and> job_active (jr_state q) \<and>
            jr_endpoint_id r = jr_endpoint_id q"
        then have "r \<in> set (jd_jobs db)" "q \<in> set (jd_jobs db)"
          using new(2) by (auto simp: db')
        then show "jr_id r = jr_id q"
          using job_invD(2) [OF inv] act unfolding exclusive_def by blast
      qed
      show "job_shape j'" if "find_job db' k = Some j'" for k j'
      proof (cases "k = jb_id j")
        case True
        then have "j' = j" using that by (simp add: fj)
        then show ?thesis using new(2,3) by (simp add: job_shape_def linear_all_pending)
      next
        case False
        then show ?thesis using that job_invD(3) [OF inv] by (simp add: fj)
      qed
      show "length (active_attempts (jd_attempts db') (js_id s)) =
          (if js_state s = S_Dispatching then 1 else 0)" if s: "s \<in> set (jd_steps db')" for s
      proof (cases "s \<in> set (jd_steps db)")
        case True
        then show ?thesis using job_invD(4) [OF inv True] by (simp add: db')
      next
        case False
        then have sj: "s \<in> set (jb_steps j)" using s by (simp add: db')
        then have "js_id s \<notin> js_id ` set (jd_steps db)" using fresh(2) by auto
        then have "at_job_step_id a \<noteq> js_id s" if "a \<in> set (jd_attempts db)" for a
          using attempts_ok(3) [OF ok] that by metis
        then have "active_attempts (jd_attempts db) (js_id s) = []"
          by (simp add: active_attempts_def filter_empty_conv)
        then show ?thesis using sj new(3) by (simp add: db')
      qed
      have row: "find_job_row db' k = (if k = jb_id j then Some \<lparr> jr_id = jb_id j,
          jr_endpoint_id = jb_endpoint_id j, jr_state = jb_state j \<rparr> else find_job_row db k)" for k
        using find_row_fresh [OF fresh(1)]
        by (simp add: find_job_row_def find_append db' split: option.split)
      have "find_job_row db (jb_id j) = None"
        using find_row_fresh [OF fresh(1)] by (simp add: find_job_row_def)
      moreover have "jd_events db' = jd_events db" by (simp add: db')
      ultimately show "job_outcomes k (jd_events db') = expected_outcome db' k" for k
        using job_invD(5) [OF inv, of k] new(2) by (cases "k = jb_id j") (simp_all add: expected_outcome_def row)
    qed
  qed
  then show ?thesis
    using inv by (auto simp: create_workflow_tx_def split: sum.split option.split)
qed

section \<open>The whole machine\<close>

theorem job_store_step_inv:
  assumes "job_inv db" and "op_conforms db op"
  shows "job_inv (job_store_step db op)"
proof (cases op)
  case (OpRequestCancellation rows u operator jid now detail)
  show ?thesis
    using request_cancellation_pass_inv [OF assms(1)] assms OpRequestCancellation
    by (auto split: cancellation_pass.split)
qed (use assms in \<open>simp_all add: create_workflow_tx_inv authorize_intent_tx_inv admit_job_tx_inv
    satisfy_tx_inv destructive_dispatch_tx_inv create_transfer_tx_inv transfer_dispatch_tx_inv
    action_evidence_tx_inv cancel_ack_tx_inv [unfolded op_conforms.simps] status_report_tx_inv
    mark_uncertain_tx_inv reconcile_on_startup_inv close_indeterminate_tx_inv\<close>)

lemma job_inv_empty: "job_inv empty_jobs"
  by (rule job_invI)
     (simp_all add: job_tables_ok_def empty_jobs_def exclusive_def find_job_def find_job_row_def
        expected_outcome_def)

end
