(* ===== verification/Job_History.thy ===== *)
theory Job_History
  imports Job_Preserve
begin

text \<open>
  Runs of the job machine of \<open>Job_Store\<close>: the invariant holds along every conforming run, what no
  operation takes back, what only the operator can do, and what the scans can find.
\<close>

section \<open>Runs\<close>

inductive job_moves :: "job_db \<Rightarrow> job_db \<Rightarrow> bool" where
  job_moves_op: "op_conforms db op \<Longrightarrow> job_moves db (job_store_step db op)"

inductive_cases job_moves_cases: "job_moves db db'"

fun run_conforms :: "job_db \<Rightarrow> job_op list \<Rightarrow> bool" where
  "run_conforms db [] = True"
| "run_conforms db (op # ops) = (op_conforms db op \<and> run_conforms (job_store_step db op) ops)"

interpretation job_machine: invariant_machine "\<lambda>db. db = empty_jobs" job_moves job_inv
  by unfold_locales (auto simp: job_inv_empty elim!: job_moves_cases intro: job_store_step_inv)

lemma job_store_run_simps [simp]:
  "job_store_run db [] = db" "job_store_run db (op # ops) = job_store_run (job_store_step db op) ops"
  by (simp_all add: job_store_run_def)

lemma run_conforms_moves: "run_conforms db ops \<Longrightarrow> job_moves\<^sup>*\<^sup>* db (job_store_run db ops)"
  by (induction ops arbitrary: db)
     (auto intro: job_moves_op converse_rtranclp_into_rtranclp)

lemma run_inv: "run_conforms db ops \<Longrightarrow> job_inv db \<Longrightarrow> job_inv (job_store_run db ops)"
  by (rule job_machine.inv_run [OF run_conforms_moves])

lemma run_conforms_append:
  "run_conforms db (xs @ ys) \<longleftrightarrow> run_conforms db xs \<and> run_conforms (job_store_run db xs) ys"
  by (induction xs arbitrary: db) simp_all

lemma job_store_run_append: "job_store_run db (xs @ ys) = job_store_run (job_store_run db xs) ys"
  by (simp add: job_store_run_def)

section \<open>What no operation takes back\<close>

text \<open>
  The event log only grows, no Job row disappears, and an Attempt in a final state keeps its row
  unchanged. No hypothesis on the operation is needed.
\<close>

definition history_kept :: "job_db \<Rightarrow> job_db \<Rightarrow> bool" where
  "history_kept db db' \<longleftrightarrow>
     (\<exists>evs. jd_events db' = jd_events db @ evs) \<and>
     jr_id ` set (jd_jobs db) \<subseteq> jr_id ` set (jd_jobs db') \<and>
     (\<forall>a\<in>set (jd_attempts db). \<not> attempt_active (at_state a) \<longrightarrow> a \<in> set (jd_attempts db'))"

lemma history_kept_refl [simp]: "history_kept db db"
  by (simp add: history_kept_def)

lemma history_kept_trans: "history_kept a b \<Longrightarrow> history_kept b c \<Longrightarrow> history_kept a c"
  by (fastforce simp: history_kept_def)

lemma history_kept_same:
  assumes "jd_events db' = jd_events db" "map jr_id (jd_jobs db') = map jr_id (jd_jobs db)"
    and "set (jd_attempts db) \<subseteq> set (jd_attempts db')"
  shows "history_kept db db'"
proof -
  have "jr_id ` set (jd_jobs db') = jr_id ` set (jd_jobs db)"
    using arg_cong [OF assms(2), of set] by simp
  then show ?thesis using assms(1,3) by (auto simp: history_kept_def)
qed

lemma upd_attempt_keeps:
  assumes "distinct (map at_id atts)" and a: "a \<in> set atts" and "attempt_active (at_state a) \<or> st = at_state a"
    and b: "b \<in> set atts" "\<not> attempt_active (at_state b)"
  shows "b \<in> set (upd_attempt (at_id a) st atts)"
proof (cases "at_id b = at_id a")
  case True
  then have "b = a" using assms(1) a b(1) by (auto simp: distinct_map inj_on_def)
  then have "b\<lparr> at_state := st \<rparr> = b" using assms(3) b(2) by simp
  then show ?thesis using b(1) True unfolding upd_attempt_def by (auto simp: image_iff intro!: bexI [of _ b])
next
  case False
  then show ?thesis using b(1) unfolding upd_attempt_def by (auto simp: image_iff intro!: bexI [of _ b])
qed

lemma history_kept_upd:
  assumes "job_tables_ok db" and "a \<in> set (jd_attempts db)"
    and "attempt_active (at_state a) \<or> st = at_state a"
    and "jd_attempts db' = upd_attempt (at_id a) st (jd_attempts db)"
    and "jd_events db' = jd_events db @ evs" "map jr_id (jd_jobs db') = map jr_id (jd_jobs db)"
  shows "history_kept db db'"
proof -
  have "jr_id ` set (jd_jobs db') = jr_id ` set (jd_jobs db)"
    using arg_cong [OF assms(6), of set] by simp
  then show ?thesis
    using upd_attempt_keeps [OF attempts_ok(1) [OF assms(1)] assms(2,3)] assms(4,5)
    by (simp add: history_kept_def)
qed

lemma persist_applied_tables:
  assumes "persist_applied ap db = Some db'"
  shows "jd_attempts db' = upd_attempt (at_id (ap_attempt ap)) (at_state (ap_attempt ap)) (jd_attempts db)"
    "jd_events db' = jd_events db @ ap_events ap"
    "jd_jobs db' = jd_jobs (set_job_state (jb_id (ap_job ap)) (jb_state (ap_job ap)) db)"
  using assms
  by (auto simp: persist_applied_def update_job_state_def set_job_state_def update_step_def
      update_attempt_state_def upd_attempt_def split: Option.bind_splits if_splits
      dest!: insert_events_SomeD)

lemma commit_applied_cases:
  obtains (unchanged) "fst (commit_applied db new_v4 actor job ap now detail) = db"
  | (persisted) db1 where "persist_applied ap db = Some db1"
      "jd_jobs (fst (commit_applied db new_v4 actor job ap now detail)) = jd_jobs db1"
      "jd_attempts (fst (commit_applied db new_v4 actor job ap now detail)) = jd_attempts db1"
      "jd_events (fst (commit_applied db new_v4 actor job ap now detail)) = jd_events db1"
proof (cases "persist_applied ap db")
  case None
  then show ?thesis using unchanged by (simp add: commit_applied_def)
next
  case (Some db1)
  let ?audit = "terminal_audit (new_v4 (length (ap_events ap))) actor job ap now detail"
  show ?thesis
  proof (cases "ap_terminal ap \<and> insert_audit_record ?audit db1 = None")
    case True
    then show ?thesis using unchanged Some by (simp add: commit_applied_def)
  next
    case False
    then show ?thesis
      using persisted [OF Some] Some
      by (cases "ap_terminal ap") (auto simp: commit_applied_def insert_audit_record_def split: if_splits)
  qed
qed

lemma commit_applied_history:
  assumes "job_tables_ok db" and "a \<in> set (jd_attempts db)"
    and ap: "ap_attempt ap = a\<lparr> at_state := st \<rparr>" and "attempt_active (at_state a) \<or> st = at_state a"
  shows "history_kept db (fst (commit_applied db new_v4 actor job ap now detail))"
proof (cases rule: commit_applied_cases [of db new_v4 actor job ap now detail])
  case (persisted db1)
  note tables = persist_applied_tables [OF persisted(1)]
  show ?thesis
    by (rule history_kept_upd [OF assms(1,2,4)])
       (use tables ap in \<open>simp_all add: persisted(2-4)\<close>)
qed simp

lemma applied_ok_attempt:
  "applied_ok j s a ap \<Longrightarrow> \<exists>st. ap_attempt ap = a\<lparr> at_state := st \<rparr> \<and> attempt_active (at_state a)"
  by (auto simp: applied_ok_def)

lemma cancel_ack_attempt:
  assumes "apply_cancel_ack new_v4 j s a ev now = CancelAckApplied ap"
  shows "\<exists>st. ap_attempt ap = a\<lparr> at_state := st \<rparr> \<and> (attempt_active (at_state a) \<or> st = at_state a)"
proof (cases "attempt_active (at_state a)")
  case False
  then show ?thesis
    using cancel_ack_terminal_attempt [OF assms]
    by (intro exI [of _ "at_state a"]) (simp add: complete_cancellation_now_def)
qed (use applied_ok_attempt [OF cancel_ack_ok [OF assms]] in blast)

lemma evidence_txs_history:
  assumes ok: "job_tables_ok db"
  shows "history_kept db (fst (apply_action_evidence_tx db u act ep ev now detail))"
    "history_kept db (fst (apply_status_report_tx db u act ep sr now detail))"
    "history_kept db (fst (apply_cancel_ack_tx db u act ep ca now detail))"
proof -
  have *: "history_kept db (fst (commit_applied db u System j ap now detail))"
    if "locked_facts db act ep = Ok (j, s, a)"
      and "\<exists>st. ap_attempt ap = a\<lparr> at_state := st \<rparr> \<and> (attempt_active (at_state a) \<or> st = at_state a)"
    for j s a ap
    using commit_applied_history [OF ok locked_facts_OkD(1) [OF that(1) ok]] that(2) by blast
  show "history_kept db (fst (apply_action_evidence_tx db u act ep ev now detail))"
    using * applied_ok_attempt [OF action_evidence_ok]
    by (fastforce simp: apply_action_evidence_tx_def split: sum.split action_evidence_outcome.split)
  show "history_kept db (fst (apply_status_report_tx db u act ep sr now detail))"
    using * applied_ok_attempt [OF status_report_ok]
    by (fastforce simp: apply_status_report_tx_def split: sum.split reconciliation_outcome.split)
  show "history_kept db (fst (apply_cancel_ack_tx db u act ep ca now detail))"
    using * cancel_ack_attempt
    by (fastforce simp: apply_cancel_ack_tx_def split: sum.split cancel_ack_outcome.split)
qed

lemma close_indeterminate_history:
  assumes ok: "job_tables_ok db"
  shows "history_kept db (fst (close_indeterminate_tx db rows u operator jid now detail))"
proof -
  have "history_kept db (fst (commit_applied db u operator j ap now detail))"
    if "find_attempt db aid = Some a" "close_indeterminate u j s a now = CloseApplied ap" for aid a j s ap
  proof -
    have "a \<in> set (jd_attempts db)" using that(1) by (simp add: find_attempt_Some_iff [OF ok])
    then show ?thesis
      using applied_ok_attempt [OF conjunct1 [OF close_indeterminate_ok [OF that(2)]]]
        commit_applied_history [OF ok] by blast
  qed
  then show ?thesis
    by (auto simp: close_indeterminate_tx_def
        split: list.split option.split close_indeterminate_outcome.split)
qed

lemma mark_one_history:
  assumes "job_tables_ok db" and "find_attempt db aid = Some a" and "mark_awaiting_reconciliation a = Some b"
  shows "history_kept db (update_attempt_state (at_id b) (at_state b) db)"
  by (rule history_kept_upd [where a = a and st = "at_state b" and evs = "[]"])
     (use assms mark_awaiting_SomeD [OF assms(3)] in
       \<open>auto simp: find_attempt_Some_iff update_attempt_state_def upd_attempt_def\<close>)

lemma mark_uncertain_history:
  "job_tables_ok db \<Longrightarrow> history_kept db (fst (mark_endpoint_uncertain_tx db rows act))"
  by (auto simp: mark_endpoint_uncertain_tx_def mark_one_history split: list.split option.split)

lemma reconcile_attempts_history:
  "job_inv db \<Longrightarrow> history_kept db (fst (reconcile_attempts aids db))"
proof (induction aids arbitrary: db)
  case (Cons aid aids)
  have step: "job_inv (update_attempt_state (at_id b) (at_state b) db) \<and>
      history_kept db (update_attempt_state (at_id b) (at_state b) db)"
    if "Option.bind (find_attempt db aid) mark_awaiting_reconciliation = Some b" for b
    using that mark_one_inv [OF Cons.prems] mark_one_history [OF job_invD(1) [OF Cons.prems]]
    by (auto split: Option.bind_splits)
  have next_db: "history_kept db (fst (reconcile_attempts aids
      (update_attempt_state (at_id b) (at_state b) db)))"
    if "Option.bind (find_attempt db aid) mark_awaiting_reconciliation = Some b" for b
    using Cons.IH step [OF that] history_kept_trans by blast
  show ?case
    using next_db Cons.IH [OF Cons.prems] by (auto split: option.split prod.splits)
qed simp

lemma set_job_state_frame:
  "jd_events (set_job_state jid st db) = jd_events db"
  "jd_attempts (set_job_state jid st db) = jd_attempts db"
  "jd_audit (set_job_state jid st db) = jd_audit db"
  by (simp_all add: set_job_state_def)

lemma decide_cancellation_history:
  "history_kept db (fst (decide_cancellation db u operator j active now detail))"
  by (auto simp: decide_cancellation_def Let_def update_job_state_def set_job_state_frame history_kept_def
      insert_audit_record_def insert_events_def
      split: sum.split cancellation_request_error.split cancellation_request_outcome.split
        option.split Option.bind_splits if_splits)

lemma request_cancellation_pass_history:
  "request_cancellation_pass db rows u operator jid now detail = PassDone r \<Longrightarrow> history_kept db (fst r)"
  by (auto simp: request_cancellation_pass_def decide_cancellation_history
      split: list.splits option.splits if_splits)

lemma admit_job_history: "history_kept db (fst (admit_job_tx db u jid now))"
  by (auto simp: admit_job_tx_def update_job_state_def insert_events_def history_kept_def
      set_job_state_frame split: option.split sum.split job_admission_error.split if_splits)

lemma step_txs_history:
  "history_kept db (fst (authorize_intent_tx db read jid sid inventory target))"
  "history_kept db (fst (satisfy_preconditions_tx db jid sid))"
  "history_kept db (fst (create_transfer_tx db exists t))"
  by (auto simp: authorize_intent_tx_def satisfy_preconditions_tx_def create_transfer_tx_def
      update_step_def history_kept_def split: option.split sum.split destructive_intent_error.split
      job_step_eligibility_error.split)

lemma dispatch_txs_history:
  "history_kept db (fst (commit_destructive_dispatch_tx db u jid sid facts))"
  "history_kept db (fst (commit_transfer_dispatch_tx db u jid sid tid))"
  by (auto simp: commit_destructive_dispatch_tx_def commit_transfer_dispatch_tx_def Let_def
      update_step_def insert_attempt_def insert_audit_record_def persist_attempt_binding_def
      history_kept_def split: option.split sum.split Option.bind_splits if_splits)

lemma create_workflow_history: "history_kept db (fst (create_workflow_tx db u identity ep n))"
  by (auto simp: create_workflow_tx_def insert_workflow_def history_kept_def
      split: option.split sum.split)

lemma job_store_step_history:
  assumes "job_inv db"
  shows "history_kept db (job_store_step db op)"
proof (cases op)
  case (OpRequestCancellation rows u operator jid now detail)
  then show ?thesis
    using request_cancellation_pass_history by (auto split: cancellation_pass.split)
qed (use assms job_invD(1) [OF assms] in \<open>simp_all add: evidence_txs_history close_indeterminate_history
    mark_uncertain_history reconcile_on_startup_tx_def reconcile_attempts_history admit_job_history
    step_txs_history dispatch_txs_history create_workflow_history\<close>)

lemma run_history: "run_conforms db ops \<Longrightarrow> job_inv db \<Longrightarrow> history_kept db (job_store_run db ops)"
proof (induction ops arbitrary: db)
  case (Cons op ops)
  then have "job_inv (job_store_step db op)" by (simp add: job_store_step_inv)
  then show ?case
    using Cons job_store_step_history [of db op] by (auto intro: history_kept_trans)
qed simp

section \<open>Only the operator cancels\<close>

definition uncancelled :: "job_db \<Rightarrow> bool" where
  "uncancelled db \<longleftrightarrow> (\<forall>r\<in>set (jd_jobs db). jr_state r \<noteq> J_Cancelling \<and> jr_state r \<noteq> J_Cancelled)"

fun requests_cancellation :: "job_op \<Rightarrow> bool" where
  "requests_cancellation (OpRequestCancellation _ _ _ _ _ _) = True"
| "requests_cancellation _ = False"

lemma uncancelled_jobs: "uncancelled db \<Longrightarrow> jd_jobs db' = jd_jobs db \<Longrightarrow> uncancelled db'"
  by (simp add: uncancelled_def)

lemma uncancelled_set_job_state:
  "uncancelled db \<Longrightarrow> st \<notin> {J_Cancelling, J_Cancelled} \<Longrightarrow> uncancelled (set_job_state jid st db)"
  by (auto simp: uncancelled_def set_job_state_def)

lemma uncancelled_find_job:
  "uncancelled db \<Longrightarrow> find_job db jid = Some j \<Longrightarrow> jb_state j \<notin> {J_Cancelling, J_Cancelled}"
  using find_job_SomeD(3) [of db jid j] by (auto simp: uncancelled_def)

lemma applied_ok_uncancelled:
  "applied_ok j s a ap \<Longrightarrow> jb_state j \<notin> {J_Cancelling, J_Cancelled} \<Longrightarrow>
   jb_state (ap_job ap) \<notin> {J_Cancelling, J_Cancelled}"
  by (auto simp: applied_ok_def resulting_job_state_def split: if_splits)

lemma commit_applied_uncancelled:
  assumes "uncancelled db" and "find_job db jid = Some j" and "applied_ok j s a ap"
  shows "uncancelled (fst (commit_applied db new_v4 actor job ap now detail))"
proof (cases rule: commit_applied_cases [of db new_v4 actor job ap now detail])
  case (persisted db1)
  have "uncancelled (set_job_state (jb_id (ap_job ap)) (jb_state (ap_job ap)) db)"
    using applied_ok_uncancelled [OF assms(3) uncancelled_find_job [OF assms(1,2)]]
    by (rule uncancelled_set_job_state [OF assms(1)])
  then show ?thesis
    by (rule uncancelled_jobs) (simp add: persisted(2) persist_applied_tables(3) [OF persisted(1)])
qed (simp add: assms)

lemma evidence_txs_uncancelled:
  assumes ok: "job_tables_ok db" and unc: "uncancelled db"
  shows "uncancelled (fst (apply_action_evidence_tx db u act ep ev now detail))"
    "uncancelled (fst (apply_status_report_tx db u act ep sr now detail))"
    "uncancelled (fst (apply_cancel_ack_tx db u act ep ca now detail))"
proof -
  have *: "uncancelled (fst (commit_applied db u System j ap now detail))"
    if "locked_facts db act ep = Ok (j, s, a)" and "applied_ok j s a ap" for j s a ap
    by (rule commit_applied_uncancelled [OF unc locked_facts_OkD(5) [OF that(1) ok] that(2)])
  show "uncancelled (fst (apply_action_evidence_tx db u act ep ev now detail))"
    using * action_evidence_ok unc
    by (fastforce simp: apply_action_evidence_tx_def split: sum.split action_evidence_outcome.split)
  show "uncancelled (fst (apply_status_report_tx db u act ep sr now detail))"
    using * status_report_ok unc
    by (fastforce simp: apply_status_report_tx_def split: sum.split reconciliation_outcome.split)
  have "apply_cancel_ack u j s a ca now = CancelAckNoOp"
    if "locked_facts db act ep = Ok (j, s, a)" for j s a
    using uncancelled_find_job [OF unc locked_facts_OkD(5) [OF that ok]]
    by (simp add: apply_cancel_ack_def)
  then show "uncancelled (fst (apply_cancel_ack_tx db u act ep ca now detail))"
    using unc by (auto simp: apply_cancel_ack_tx_def split: sum.split)
qed

lemma close_indeterminate_uncancelled:
  assumes "uncancelled db"
  shows "uncancelled (fst (close_indeterminate_tx db rows u operator jid now detail))"
  using assms commit_applied_uncancelled [OF assms] close_indeterminate_ok
  by (fastforce simp: close_indeterminate_tx_def
      split: list.split option.split close_indeterminate_outcome.split)

lemma reconcile_attempts_jobs: "jd_jobs (fst (reconcile_attempts aids db)) = jd_jobs db"
  by (induction aids arbitrary: db)
     (simp_all add: update_attempt_state_def Let_def case_prod_beta split: option.split)

lemma other_txs_uncancelled:
  assumes "uncancelled db"
  shows "uncancelled (fst (authorize_intent_tx db read jid sid inventory target))"
    "uncancelled (fst (satisfy_preconditions_tx db jid sid))"
    "uncancelled (fst (create_transfer_tx db exists t))"
    "uncancelled (fst (commit_destructive_dispatch_tx db u jid sid facts))"
    "uncancelled (fst (commit_transfer_dispatch_tx db u jid sid tid))"
    "uncancelled (fst (mark_endpoint_uncertain_tx db rows act))"
    "uncancelled (fst (reconcile_on_startup_tx db))"
  by (rule uncancelled_jobs [OF assms],
      auto simp: authorize_intent_tx_def satisfy_preconditions_tx_def create_transfer_tx_def
        commit_destructive_dispatch_tx_def commit_transfer_dispatch_tx_def Let_def
        update_step_def insert_attempt_def insert_audit_record_def persist_attempt_binding_def
        mark_endpoint_uncertain_tx_def update_attempt_state_def
        reconcile_on_startup_tx_def reconcile_attempts_jobs
      split: option.split sum.split Option.bind_splits if_splits destructive_intent_error.split
        job_step_eligibility_error.split list.split)+

lemma creation_txs_uncancelled:
  assumes "uncancelled db"
  shows "uncancelled (fst (create_workflow_tx db u identity ep n))"
    "uncancelled (fst (admit_job_tx db u jid now))"
proof -
  show "uncancelled (fst (create_workflow_tx db u identity ep n))"
    using assms by (auto simp: create_workflow_tx_def create_workflow_def insert_workflow_def
        uncancelled_def Let_def split: option.split sum.split if_splits)
  have "uncancelled (db1\<lparr> jd_events := x \<rparr>)"
    if "admit_job u j now = Ok out" "update_job_state jid (jb_state (ad_job out)) db = Some db1"
    for j out db1 x
    using that uncancelled_set_job_state [OF assms, of J_Running jid]
    by (auto simp: admit_job_def update_job_state_def Let_def uncancelled_def split: if_splits)
  then show "uncancelled (fst (admit_job_tx db u jid now))"
    using assms by (auto simp: admit_job_tx_def insert_events_def
        split: option.split sum.split job_admission_error.split)
qed

lemma job_store_step_uncancelled:
  assumes "job_inv db" and "uncancelled db" and "\<not> requests_cancellation op"
  shows "uncancelled (job_store_step db op)"
  using assms job_invD(1) [OF assms(1)]
  by (cases op) (simp_all add: evidence_txs_uncancelled close_indeterminate_uncancelled
      other_txs_uncancelled creation_txs_uncancelled)

lemma run_uncancelled:
  "run_conforms db ops \<Longrightarrow> job_inv db \<Longrightarrow> uncancelled db \<Longrightarrow> \<forall>op\<in>set ops. \<not> requests_cancellation op \<Longrightarrow>
   uncancelled (job_store_run db ops)"
  by (induction ops arbitrary: db) (simp_all add: job_store_step_inv job_store_step_uncancelled)

section \<open>What the scans can find\<close>

lemma active_attempt_facts:
  assumes inv: "job_inv db" and a: "a \<in> set (jd_attempts db)" "attempt_active (at_state a)"
  obtains s j where "step_of db a = Some s" "active_attempts (jd_attempts db) (js_id s) = [a]"
    "find_job db (js_job_id s) = Some j" "s \<in> set (jb_steps j)" "js_state s = S_Dispatching"
    "job_active (jb_state j)" "attempt_endpoint db a = Some (jb_endpoint_id j)"
proof -
  note ok = job_invD(1) [OF inv]
  obtain s where s: "s \<in> set (jd_steps db)" "js_id s = at_job_step_id a"
    by (rule attempt_step_exists [OF ok a(1)])
  obtain j where j: "find_job db (js_job_id s) = Some j" "s \<in> set (jb_steps j)"
    by (rule find_job_exists [OF s(1) ok])
  note single = active_attempts_single [OF inv a s]
  have st: "step_of db a = Some s" using s by (simp add: step_of_def find_step_row_Some_iff [OF ok])
  show ?thesis
    by (rule that [OF st single(1) j single(2)
          shape_dispatching_job [OF job_invD(3) [OF inv j(1)] j(2) single(2)]])
       (simp add: attempt_endpoint_def st find_job_SomeD(4) [OF j(1)])
qed

lemma shape_one_dispatching:
  assumes "job_shape j" and "s \<in> set (jb_steps j)" "js_state s = S_Dispatching"
    and "t \<in> set (jb_steps j)" "js_state t = S_Dispatching"
  shows "t = s"
proof (rule shape_middle_split [OF assms(1,2)])
  fix pre post
  assume "jb_steps j = pre @ s # post" "\<forall>x\<in>set pre. js_state x = S_Succeeded"
    "\<forall>x\<in>set post. js_state x = S_Pending"
  then show ?thesis using assms(4,5) by auto
qed (use assms(3) in simp_all)

lemma active_attempt_unique:
  assumes inv: "job_inv db"
    and a: "a \<in> set (jd_attempts db)" "attempt_active (at_state a)"
    and b: "b \<in> set (jd_attempts db)" "attempt_active (at_state b)"
    and ep: "attempt_endpoint db a = attempt_endpoint db b"
  shows "a = b"
proof -
  obtain s j where s: "active_attempts (jd_attempts db) (js_id s) = [a]"
    "find_job db (js_job_id s) = Some j" "s \<in> set (jb_steps j)" "js_state s = S_Dispatching"
    "job_active (jb_state j)" "attempt_endpoint db a = Some (jb_endpoint_id j)"
    by (rule active_attempt_facts [OF inv a])
  obtain t k where t: "active_attempts (jd_attempts db) (js_id t) = [b]"
    "find_job db (js_job_id t) = Some k" "t \<in> set (jb_steps k)" "js_state t = S_Dispatching"
    "job_active (jb_state k)" "attempt_endpoint db b = Some (jb_endpoint_id k)"
    by (rule active_attempt_facts [OF inv b])
  obtain r where r: "r \<in> set (jd_jobs db)" "jr_id r = js_job_id s" "job_active (jr_state r)"
    "attempt_endpoint db a = Some (jr_endpoint_id r)"
    using find_job_SomeD(3) [OF s(2)] s(5,6) by force
  obtain q where q: "q \<in> set (jd_jobs db)" "jr_id q = js_job_id t" "job_active (jr_state q)"
    "attempt_endpoint db b = Some (jr_endpoint_id q)"
    using find_job_SomeD(3) [OF t(2)] t(5,6) by force
  have "jr_endpoint_id r = jr_endpoint_id q" using r(4) q(4) ep by simp
  then have "jr_id r = jr_id q"
    using job_invD(2) [OF inv] r(1,3) q(1,3) unfolding exclusive_def by blast
  then have "js_job_id s = js_job_id t" using r(2) q(2) by simp
  then have "k = j" using s(2) t(2) by simp
  then have "t = s" using shape_one_dispatching [OF job_invD(3) [OF inv s(2)] s(3,4)] t(3,4) by simp
  then show ?thesis using s(1) t(1) by simp
qed

lemma filter_at_most_one:
  assumes "distinct xs" and "\<And>x y. x \<in> set xs \<Longrightarrow> y \<in> set xs \<Longrightarrow> P x \<Longrightarrow> P y \<Longrightarrow> x = y"
  shows "length (filter P xs) \<le> 1"
proof (cases "filter P xs")
  case (Cons x ys)
  have "x \<noteq> y \<and> y = x" if "y \<in> set ys" for y
  proof -
    have "{x, y} \<subseteq> set (filter P xs)" using that Cons by simp
    then have "y = x" using assms(2) by simp
    then show ?thesis using that distinct_filter [OF assms(1), of P] Cons by simp
  qed
  then have "ys = []" by (cases ys) auto
  then show ?thesis using Cons by simp
qed simp

lemma attempts_distinct: "job_inv db \<Longrightarrow> distinct (jd_attempts db)"
  using attempts_ok(1) [OF job_invD(1)] by (simp add: distinct_map)

lemma dispatching_step_endpoint:
  assumes "job_inv db" and "dispatching_step_of_job db jid a" and "find_job db jid = Some j"
  shows "attempt_endpoint db a = Some (jb_endpoint_id j)"
  using assms find_job_SomeD(4) [OF assms(3)]
  by (auto simp: dispatching_step_of_job_def attempt_endpoint_def split: option.splits)

lemma dispatching_step_job:
  assumes "job_inv db" and "dispatching_step_of_job db jid a"
  shows "\<exists>j. find_job db jid = Some j"
proof -
  obtain s where "step_of db a = Some s" "js_job_id s = jid"
    using assms(2) by (auto simp: dispatching_step_of_job_def split: option.splits)
  then show ?thesis
    using find_job_exists [OF _ job_invD(1) [OF assms(1)], of s]
    by (auto simp: step_of_def find_step_row_Some_iff [OF job_invD(1) [OF assms(1)]])
qed

lemma scan_of_job:
  assumes inv: "job_inv db" and "\<And>a. P a \<Longrightarrow> dispatching_step_of_job db jid a \<and> attempt_active (at_state a)"
  shows "length (filter P (jd_attempts db)) \<le> 1"
proof (rule filter_at_most_one [OF attempts_distinct [OF inv]])
  fix a b
  assume ab: "a \<in> set (jd_attempts db)" "b \<in> set (jd_attempts db)" "P a" "P b"
  obtain j where "find_job db jid = Some j" using dispatching_step_job [OF inv] assms(2) ab(3) by blast
  then have "attempt_endpoint db a = attempt_endpoint db b"
    using dispatching_step_endpoint [OF inv] assms(2) ab(3,4) by metis
  then show "a = b" using active_attempt_unique [OF inv ab(1) _ ab(2)] assms(2) ab(3,4) by blast
qed

lemma scan_of_endpoint:
  assumes inv: "job_inv db" and "\<And>a. P a \<Longrightarrow> attempt_endpoint db a = Some ep \<and> attempt_active (at_state a)"
  shows "length (filter P (jd_attempts db)) \<le> 1"
  by (rule filter_at_most_one [OF attempts_distinct [OF inv]])
     (use active_attempt_unique [OF inv] assms(2) in metis)

lemma scans_at_most_one:
  assumes "job_inv db"
  shows "length (active_attempt_candidate_rows db jid) \<le> 1"
    "length (close_candidate_rows db jid) \<le> 1"
    "length (uncertain_candidate_rows db ep) \<le> 1"
    "length (reconciliation_candidate_rows db ep) \<le> 1"
  unfolding active_attempt_candidate_rows_def close_candidate_rows_def uncertain_candidate_rows_def
    reconciliation_candidate_rows_def length_map
  by (rule scan_of_job [OF assms, where jid = jid], simp,
      rule scan_of_job [OF assms, where jid = jid], simp,
      rule scan_of_endpoint [OF assms, where ep = ep], fastforce,
      rule scan_of_endpoint [OF assms, where ep = ep], simp)

end
