(* ===== verification/Job_Correct.thy ===== *)
theory Job_Correct
  imports Job_History
begin

text \<open>
  What the job transactions guarantee: the properties of every conforming run, of a dispatch, of a
  cancellation request and of the reconciliation at startup. One theorem treats the
  operation that conforming runs exclude and shows what it does.
\<close>

section \<open>Reconciliation at startup\<close>

definition uncertain_attempt :: "attempt \<Rightarrow> bool" where
  "uncertain_attempt a \<longleftrightarrow> at_state a = A_Dispatched \<or> at_state a = A_InProgress"

text \<open>The reference: one pass over the table.\<close>

definition reconciled_attempts :: "attempt list \<Rightarrow> attempt list" where
  "reconciled_attempts =
     map (\<lambda>a. if uncertain_attempt a then a\<lparr> at_state := A_AwaitingReconciliation \<rparr> else a)"

lemma reconcile_attempts_eq:
  assumes "distinct (map at_id (jd_attempts db))" and "distinct aids"
    and "\<And>aid. aid \<in> set aids \<Longrightarrow> \<exists>a\<in>set (jd_attempts db). at_id a = aid \<and> uncertain_attempt a"
  shows "reconcile_attempts aids db =
    (db\<lparr> jd_attempts := map (\<lambda>a. if at_id a \<in> set aids
        then a\<lparr> at_state := A_AwaitingReconciliation \<rparr> else a) (jd_attempts db) \<rparr>, aids)"
  using assms
proof (induction aids arbitrary: db)
  case (Cons aid aids)
  obtain a where a: "a \<in> set (jd_attempts db)" "at_id a = aid" "uncertain_attempt a"
    using Cons.prems(3) [of aid] by auto
  have "find_attempt db aid = Some a"
    unfolding find_attempt_def find_distinct_iff [OF Cons.prems(1)] using a by simp
  then have mark: "Option.bind (find_attempt db aid) mark_awaiting_reconciliation =
      Some (a\<lparr> at_state := A_AwaitingReconciliation \<rparr>)"
    using a(3) by (simp add: mark_awaiting_reconciliation_def uncertain_attempt_def)
  let ?db = "update_attempt_state aid A_AwaitingReconciliation db"
  have IH: "reconcile_attempts aids ?db =
    (?db\<lparr> jd_attempts := map (\<lambda>a. if at_id a \<in> set aids
        then a\<lparr> at_state := A_AwaitingReconciliation \<rparr> else a) (jd_attempts ?db) \<rparr>, aids)"
  proof (rule Cons.IH)
    show "distinct (map at_id (jd_attempts ?db))"
      using Cons.prems(1) by (simp add: update_attempt_state_def comp_def if_distrib cong: if_cong)
    fix other
    assume other: "other \<in> set aids"
    then obtain b where b: "b \<in> set (jd_attempts db)" "at_id b = other" "uncertain_attempt b"
      using Cons.prems(3) by auto
    then have "b \<in> set (jd_attempts ?db)"
      using other Cons.prems(2) unfolding update_attempt_state_def by (force simp: image_iff)
    with b show "\<exists>a\<in>set (jd_attempts ?db). at_id a = other \<and> uncertain_attempt a" by blast
  qed (use Cons.prems(2) in simp)
  have "reconcile_attempts (aid # aids) db =
    (?db\<lparr> jd_attempts := map (\<lambda>a. if at_id a \<in> set aids
        then a\<lparr> at_state := A_AwaitingReconciliation \<rparr> else a) (jd_attempts ?db) \<rparr>, aid # aids)"
    by (simp add: mark IH a(2))
  then show ?case by (auto simp: update_attempt_state_def)
qed simp

lemma reconcile_on_startup_eq:
  assumes "job_inv db"
  shows "reconcile_on_startup_tx db =
    (db\<lparr> jd_attempts := reconciled_attempts (jd_attempts db) \<rparr>,
     map at_id (filter uncertain_attempt (jd_attempts db)))"
proof -
  have dist: "distinct (map at_id (jd_attempts db))" by (rule attempts_ok(1) [OF job_invD(1) [OF assms]])
  let ?aids = "map at_id (filter uncertain_attempt (jd_attempts db))"
  have mem: "at_id a \<in> set ?aids \<longleftrightarrow> uncertain_attempt a" if "a \<in> set (jd_attempts db)" for a
    using that dist by (auto simp: distinct_map inj_on_def)
  have "map (\<lambda>a. if at_id a \<in> set ?aids then a\<lparr> at_state := A_AwaitingReconciliation \<rparr> else a)
      (jd_attempts db) = reconciled_attempts (jd_attempts db)"
    unfolding reconciled_attempts_def by (rule map_cong [OF refl]) (simp only: mem)
  moreover have "reconcile_attempts ?aids db =
    (db\<lparr> jd_attempts := map (\<lambda>a. if at_id a \<in> set ?aids
        then a\<lparr> at_state := A_AwaitingReconciliation \<rparr> else a) (jd_attempts db) \<rparr>, ?aids)"
    by (rule reconcile_attempts_eq [OF dist])
       (use dist in \<open>auto simp: distinct_map inj_on_def\<close>)
  ultimately show ?thesis
    unfolding reconcile_on_startup_tx_def uncertain_attempt_def by simp
qed

section \<open>Cancellation on the current state\<close>

lemma candidate_row:
  assumes inv: "job_inv db" and rows: "active_attempt_candidate_rows db jid = [aid]"
    and j: "find_job db jid = Some j"
  obtains a s where "find_attempt db aid = Some a" "attempt_active (at_state a)"
    "s \<in> set (jb_steps j)" "js_id s = at_job_step_id a" "js_state s = S_Dispatching"
proof -
  note ok = job_invD(1) [OF inv]
  have "aid \<in> set (active_attempt_candidate_rows db jid)" by (simp add: rows)
  then obtain a where a: "a \<in> set (jd_attempts db)" "at_id a = aid" "attempt_active (at_state a)"
    "dispatching_step_of_job db jid a"
    unfolding active_attempt_candidate_rows_def by auto
  then obtain s where s: "find_step_row db (at_job_step_id a) = Some s" "js_job_id s = jid"
    "js_state s = S_Dispatching"
    by (auto simp: dispatching_step_of_job_def step_of_def split: option.splits)
  have "s \<in> set (jd_steps db)" "js_id s = at_job_step_id a"
    using s(1) by (simp_all add: find_step_row_Some_iff [OF ok])
  moreover have "find_attempt db aid = Some a" using a(1,2) by (simp add: find_attempt_Some_iff [OF ok])
  ultimately show ?thesis using that a(3) s find_job_SomeD(2) [OF j] by auto
qed

lemma loop_first_pass:
  "request_cancellation_pass db rows u operator jid now detail = PassDone r \<Longrightarrow>
   request_cancellation_loop MAX_PASSES ((db, rows) # seen) u operator jid now detail = Some r"
  by (simp add: MAX_PASSES_def eval_nat_numeral)


section \<open>A stale acknowledgement\<close>




section \<open>Step orders\<close>

lemma as_i32_orders:
  "(\<forall>k<n. 0 \<le> as_i32 k) \<and> distinct (map as_i32 [0..<n]) \<longleftrightarrow> n \<le> 2 ^ 31"
proof (cases "n \<le> 2 ^ 31")
  case True
  then have eq: "as_i32 k = int k" if "k < n" for k using that by (intro as_i32_id) linarith
  then have "inj_on as_i32 {0..<n}" by (simp add: inj_on_def)
  then show ?thesis using True eq by (simp add: distinct_map)
next
  case False
  then have "2 ^ 31 < n" "\<not> 0 \<le> as_i32 (2 ^ 31)" by (linarith, simp only: as_i32_wraps, simp)
  then show ?thesis using False by blast
qed

section \<open>A sample workflow\<close>

text \<open>
  Two upload steps on one Endpoint. The first is dispatched, then completed and the second
  dispatched, then the operator requests cancellation.
\<close>

definition sample_uuids :: "nat \<Rightarrow> uuid_source" where
  "sample_uuids n = (\<lambda>k. of_nat (n + k))"

definition sample_transfer :: "nat \<Rightarrow> uuid \<Rightarrow> transfer" where
  "sample_transfer n sid = tc_transfer (create_transfer_context (sample_uuids n) (EndpointId 7)
     (JobId 100) (JobStepId sid) AgentToServer Sha256 (ChunkSize 4096) (SourceProvenance ''disk''))"

definition sample_created :: "job_op list" where
  "sample_created =
     [OpCreateWorkflow (sample_uuids 100) (Some Enrolled) (EndpointId 7) 2,
      OpAdmitJob (sample_uuids 200) (JobId 100) 0,
      OpSatisfyPreconditions (JobId 100) (JobStepId 101),
      OpCreateTransfer True (sample_transfer 300 101),
      OpCommitTransfer (sample_uuids 400) (JobId 100) (JobStepId 101) (TransferId 301)]"

definition sample_second :: "job_op list" where
  "sample_second = sample_created @
     [OpActionEvidence (sample_uuids 500) (ActionId 401) (EndpointId 7) ResultSucceeded 1 ''done'',
      OpSatisfyPreconditions (JobId 100) (JobStepId 102),
      OpCreateTransfer True (sample_transfer 600 102),
      OpCommitTransfer (sample_uuids 700) (JobId 100) (JobStepId 102) (TransferId 601)]"

definition sample_failure :: "job_op list" where
  "sample_failure =
     [OpActionEvidence (sample_uuids 800) (ActionId 701) (EndpointId 7) ResultFailed 2 ''failed'']"

definition sample_late :: "job_op list" where
  "sample_late =
     [OpRequestCancellation [] (sample_uuids 900) (Operator ''op'') (JobId 100) 3 ''stop'',
      OpActionEvidence (sample_uuids 950) (ActionId 701) (EndpointId 7) ResultSucceeded 4 ''late'',
      OpReconcileOnStartup]"

definition sample_cancelling :: "job_op list" where
  "sample_cancelling = sample_second @
     [OpRequestCancellation [AttemptId 700] (sample_uuids 800) (Operator ''op'') (JobId 100) 2 ''stop'']"

definition sample_second_db :: job_db where
  "sample_second_db = job_store_run empty_jobs sample_second"

definition sample_failed_db :: job_db where
  "sample_failed_db = job_store_run empty_jobs (sample_second @ sample_failure)"

lemma sample_conforms:
  "run_conforms empty_jobs sample_cancelling" "run_conforms empty_jobs (sample_second @ sample_failure)"
  "run_conforms empty_jobs (sample_second @ sample_failure @ sample_late)"
  by code_simp+

lemma sample_second_conforms: "run_conforms empty_jobs sample_second"
  using sample_conforms(2) by (simp add: run_conforms_append)

lemma sample_second_inv: "job_inv sample_second_db"
  unfolding sample_second_db_def by (rule run_inv [OF sample_second_conforms job_inv_empty])

definition sample_second_job :: job where
  "sample_second_job = \<lparr> jb_id = JobId 100, jb_endpoint_id = EndpointId 7, jb_state = J_Running,
     jb_steps = fetch_job_steps sample_second_db (JobId 100) \<rparr>"

lemma sample_second_found: "find_job sample_second_db (JobId 100) = Some sample_second_job"
  by code_simp

section \<open>Properties of runs\<close>

text \<open>
  C2. From empty tables, every sequence of the job transactions keeps the lifecycle invariant: the
  keys are unique and every reference resolves; at most one Job per Endpoint is running or being
  cancelled; the steps of a Job are a succeeded prefix, at most one step in the middle and a
  pending rest, in the form its state demands; a step has exactly one active Attempt while it is
  dispatching and none otherwise; and the event log holds exactly one outcome for every Job that
  has ended, and none for the others. The scans of a cancellation or a closure name Attempts of
  the Job they ran for, and no \<open>CancelAck{AlreadyCompleted}\<close> comes late for an ended Attempt
  (\<open>op_conforms\<close>).
\<close>

theorem job_runs_keep_invariant:
  assumes "run_conforms empty_jobs ops"
  shows "job_inv (job_store_run empty_jobs ops)"
  by (rule run_inv [OF assms job_inv_empty])

theorem job_runs_keep_invariant_witness:
  "run_conforms empty_jobs sample_cancelling \<and> job_inv (job_store_run empty_jobs sample_cancelling) \<and>
   length (jd_attempts (job_store_run empty_jobs sample_cancelling)) = 2"
proof -
  have "length (jd_attempts (job_store_run empty_jobs sample_cancelling)) = 2" by code_simp
  then show ?thesis using job_runs_keep_invariant [OF sample_conforms(1)] sample_conforms(1) by simp
qed

text \<open>
  C19. A Job ends once: after it has succeeded, failed or been cancelled, no later operation of a
  conforming run (late evidence, a repeated cancellation request, a restart) changes its state,
  and the log keeps exactly the one outcome event.
\<close>

theorem terminal_job_is_final:
  assumes "run_conforms empty_jobs (ops @ later)"
    and "find_job (job_store_run empty_jobs ops) jid = Some j" and "job_terminal (jb_state j)"
  shows "(\<exists>j'. find_job (job_store_run empty_jobs (ops @ later)) jid = Some j' \<and>
      jb_state j' = jb_state j) \<and>
    job_outcomes jid (jd_events (job_store_run empty_jobs (ops @ later))) = [jb_state j]"
proof -
  let ?db = "job_store_run empty_jobs ops" and ?db' = "job_store_run empty_jobs (ops @ later)"
  have conf: "run_conforms empty_jobs ops" "run_conforms ?db later"
    using assms(1) by (simp_all add: run_conforms_append)
  have inv: "job_inv ?db" by (rule run_inv [OF conf(1) job_inv_empty])
  have inv': "job_inv ?db'"
    unfolding job_store_run_append by (rule run_inv [OF conf(2) inv])
  have hist: "history_kept ?db ?db'"
    unfolding job_store_run_append by (rule run_history [OF conf(2) inv])
  obtain r where r: "find_job_row ?db jid = Some r" "jr_state r = jb_state j"
    using find_job_SomeD(4) [OF assms(2)] by simp
  have "jid \<in> jr_id ` set (jd_jobs ?db')"
    using find_job_SomeD(3) [OF assms(2)] hist by (auto simp: history_kept_def)
  then obtain r' where r': "find_job_row ?db' jid = Some r'"
    by (cases "find_job_row ?db' jid") (auto simp: find_job_row_def find_None_iff)
  have "job_outcomes jid (jd_events ?db) = [jb_state j]"
    using job_invD(5) [OF inv, of jid] r assms(3) by (simp add: expected_outcome_def outcome_of_def)
  then obtain rest where rest: "job_outcomes jid (jd_events ?db') = jb_state j # rest"
    using hist by (auto simp: history_kept_def)
  moreover have "job_outcomes jid (jd_events ?db') = outcome_of (jr_state r')"
    using job_invD(5) [OF inv', of jid] r' by (simp add: expected_outcome_def)
  ultimately have "jr_state r' = jb_state j" "rest = []"
    by (auto simp: outcome_of_def split: if_splits)
  then show ?thesis using rest r' by (simp add: find_job_def)
qed

theorem terminal_job_is_final_witness:
  "\<exists>j. find_job (job_store_run empty_jobs (sample_second @ sample_failure)) (JobId 100) = Some j \<and>
     jb_state j = J_Failed \<and>
     job_outcomes (JobId 100) (jd_events (job_store_run empty_jobs
       ((sample_second @ sample_failure) @ sample_late))) = [J_Failed]"
proof -
  let ?db = "job_store_run empty_jobs (sample_second @ sample_failure)"
  let ?j = "\<lparr> jb_id = JobId 100, jb_endpoint_id = EndpointId 7, jb_state = J_Failed,
      jb_steps = fetch_job_steps ?db (JobId 100) \<rparr>"
  have j: "find_job ?db (JobId 100) = Some ?j" by code_simp
  have conf: "run_conforms empty_jobs ((sample_second @ sample_failure) @ sample_late)"
    using sample_conforms(3) by simp
  show ?thesis
    using terminal_job_is_final [OF conf j] j by simp
qed

text \<open>
  C20. An Attempt ends once: its row in a final state (succeeded, failed, cancelled, rejected,
  indeterminate) is found unchanged after every continuation of the run.
\<close>

theorem terminal_attempt_is_final:
  assumes "run_conforms empty_jobs (ops @ later)"
    and "find_attempt_by_action (job_store_run empty_jobs ops) act = Some a"
    and "\<not> attempt_active (at_state a)"
  shows "find_attempt_by_action (job_store_run empty_jobs (ops @ later)) act = Some a"
proof -
  let ?db = "job_store_run empty_jobs ops" and ?db' = "job_store_run empty_jobs (ops @ later)"
  have conf: "run_conforms empty_jobs ops" "run_conforms ?db later"
    using assms(1) by (simp_all add: run_conforms_append)
  have inv: "job_inv ?db" by (rule run_inv [OF conf(1) job_inv_empty])
  have inv': "job_inv ?db'" and hist: "history_kept ?db ?db'"
    unfolding job_store_run_append by (rule run_inv [OF conf(2) inv], rule run_history [OF conf(2) inv])
  have "a \<in> set (jd_attempts ?db)" "at_action_id a = act"
    using assms(2) by (simp_all add: find_attempt_by_action_Some_iff [OF job_invD(1) [OF inv]])
  then show ?thesis
    using hist assms(3)
    by (simp add: find_attempt_by_action_Some_iff [OF job_invD(1) [OF inv']] history_kept_def)
qed

theorem terminal_attempt_is_final_witness:
  "\<exists>a. find_attempt_by_action (job_store_run empty_jobs
       ((sample_second @ sample_failure) @ sample_late)) (ActionId 701) = Some a \<and> at_state a = A_Failed"
proof -
  have a: "find_attempt_by_action (job_store_run empty_jobs (sample_second @ sample_failure)) (ActionId 701) =
      Some \<lparr> at_id = AttemptId 700, at_job_step_id = JobStepId 102, at_action_id = ActionId 701,
        at_state = A_Failed \<rparr>"
    by code_simp
  have conf: "run_conforms empty_jobs ((sample_second @ sample_failure) @ sample_late)"
    using sample_conforms(3) by simp
  show ?thesis using terminal_attempt_is_final [OF conf a] by simp
qed

text \<open>
  C21. Only an operator cancels: in a run without a cancellation request no Job is ever being
  cancelled or cancelled, whatever the Agents report (a \<open>CancelAck\<close> or a status report
  \<open>Cancelled\<close> included).
\<close>

theorem only_operator_cancels:
  assumes "run_conforms empty_jobs ops" and "\<forall>op\<in>set ops. \<not> requests_cancellation op"
    and "find_job (job_store_run empty_jobs ops) jid = Some j"
  shows "jb_state j \<noteq> J_Cancelling \<and> jb_state j \<noteq> J_Cancelled"
proof -
  have "uncancelled empty_jobs" by (simp add: uncancelled_def empty_jobs_def)
  then have "uncancelled (job_store_run empty_jobs ops)"
    by (rule run_uncancelled [OF assms(1) job_inv_empty _ assms(2)])
  then show ?thesis using uncancelled_find_job [OF _ assms(3)] by simp
qed

theorem only_operator_cancels_witness:
  "\<exists>j. find_job (job_store_run empty_jobs (sample_second @
       [OpCancelAck (sample_uuids 800) (ActionId 701) (EndpointId 7) AckCancelled 2 ''''])) (JobId 100) = Some j \<and>
     jb_state j \<noteq> J_Cancelling \<and> jb_state j \<noteq> J_Cancelled"
proof -
  let ?ops = "sample_second @
       [OpCancelAck (sample_uuids 800) (ActionId 701) (EndpointId 7) AckCancelled 2 '''']"
  have conf: "run_conforms empty_jobs ?ops" by code_simp
  have ops: "list_all (\<lambda>op. \<not> requests_cancellation op) ?ops" by code_simp
  have "find_job (job_store_run empty_jobs ?ops) (JobId 100) \<noteq> None" by code_simp
  then obtain j where j: "find_job (job_store_run empty_jobs ?ops) (JobId 100) = Some j" by blast
  show ?thesis using only_operator_cancels [OF conf ops [unfolded list_all_iff] j] j by blast
qed



section \<open>Properties of single operations\<close>

text \<open>
  C22. A committed destructive dispatch has passed every gate: the Job is running, the step is the
  current one with its preconditions satisfied, no other Attempt of it is active, the Endpoint is
  enrolled with an active credential, consistent hardware and an established trusted bootstrap,
  its Agent is connected, and the authorization names exactly the current inventory revision and
  the current target. Afterwards the invariant holds, the step is dispatching and the new Attempt
  is its only active one.
\<close>

theorem destructive_dispatch_passed_gates:
  assumes inv: "job_inv db"
    and tx: "commit_destructive_dispatch_tx db u jid sid facts = (db', Ok out)"
  shows "\<exists>j s e intent cb. find_job db jid = Some j \<and> jb_state j = J_Running \<and>
    find_step sid j = Some s \<and> js_state s = S_PreconditionsSatisfied \<and>
    earlier_steps_all_succeeded j s \<and> active_attempts (jd_attempts db) sid = [] \<and>
    df_endpoint facts = Some e \<and> ep_identity e = Enrolled \<and>
    chain_dimension (ep_credential e) (df_now facts) = CredentialActive \<and>
    ep_hardware_confidence e = Consistent \<and>
    ep_current_boot e = Some cb \<and> cb_trusted_bootstrap cb = Established \<and>
    df_present facts \<and> js_destructive_intent s = Some intent \<and>
    df_inventory facts = Some (authorized_inventory_revision_id intent) \<and>
    df_target facts = Some (authorized_target_fingerprint intent) \<and>
    job_inv db' \<and> active_attempts (jd_attempts db') sid = [dispatched_attempt u sid] \<and>
    fo_attempt out = dispatched_attempt u sid"
proof -
  obtain j e where j: "find_job db jid = Some j" and e: "df_endpoint facts = Some e"
    using tx by (auto simp: commit_destructive_dispatch_tx_def split: option.splits)
  let ?i = "resolve_dispatch_inputs j sid (existing_active_attempt db sid) e
      (df_inventory facts) (df_present facts) (df_target facts) (df_now facts)"
  have gate: "evaluate_final_destructive_dispatch u ?i = Ok out"
    using tx j e by (auto simp: commit_destructive_dispatch_tx_def Let_def split: sum.splits option.splits)
  then obtain s intent where s: "find_step sid j = Some s" "js_state s = S_PreconditionsSatisfied"
    "jb_state j = J_Running" "earlier_steps_all_succeeded j s" "\<not> existing_active_attempt db sid"
    "js_destructive_intent s = Some intent" "ep_identity e = Enrolled"
    "chain_dimension (ep_credential e) (df_now facts) = CredentialActive" "df_present facts"
    "df_inventory facts = Some (authorized_inventory_revision_id intent)"
    "df_target facts = Some (authorized_target_fingerprint intent)"
    "ep_hardware_confidence e = Consistent"
    "(case ep_current_boot e of None \<Rightarrow> False | Some cb \<Rightarrow> cb_trusted_bootstrap cb = Established)"
    "out = \<lparr> fo_job_step = s\<lparr> js_state := S_Dispatching \<rparr>, fo_attempt = dispatched_attempt u (js_id s) \<rparr>"
    unfolding final_dispatch_Ok_iff by (auto simp: resolve_dispatch_inputs_def)
  obtain cb where cb: "ep_current_boot e = Some cb" "cb_trusted_bootstrap cb = Established"
    using s(13) by (auto split: option.splits)
  have sid: "js_id s = sid" using find_step_SomeD [OF s(1)] by simp
  have none: "active_attempts (jd_attempts db) sid = []"
    using s(5) by (auto simp: existing_active_attempt_def active_attempts_def list_ex_iff filter_empty_conv)
  have "jd_attempts db' = jd_attempts db @ [dispatched_attempt u sid]"
    using tx j e gate s(14) sid
    by (auto simp: commit_destructive_dispatch_tx_def Let_def insert_attempt_def insert_audit_record_def
        update_step_def dispatched_attempt_def split: option.splits Option.bind_splits if_splits)
  then have "active_attempts (jd_attempts db') sid = [dispatched_attempt u sid]"
    using none by (simp add: active_attempts_snoc dispatched_attempt_def)
  moreover have "job_inv db'" using destructive_dispatch_tx_inv [OF inv, of u jid sid facts] tx by simp
  ultimately show ?thesis using j e s cb sid none by auto
qed

definition sample_endpoint :: endpoint_aggregate where
  "sample_endpoint = \<lparr> ep_id = EndpointId 7, ep_inventory_signal = ''signal'', ep_identity = Enrolled,
     ep_credential = \<lparr> chain_predecessor = \<lparr> slot_lookup_id = CredentialLookupId [],
         slot_hash = \<lparr> hash_salt = [], hash_digest = [] \<rparr>, slot_issued_at = 0, slot_expires_at = 100 \<rparr>,
       chain_successor = None, chain_revoked = False \<rparr>,
     ep_hardware_confidence = Consistent,
     ep_current_boot = Some \<lparr> cb_boot_context_id = CredentialLookupId [], cb_boot_nonce = BootNonce [],
       cb_trusted_bootstrap = Established \<rparr>,
     ep_created_at = 0, ep_updated_at = 0 \<rparr>"

definition sample_facts :: dispatch_facts where
  "sample_facts = \<lparr> df_endpoint = Some sample_endpoint,
     df_inventory = Some (InventoryRevisionId 9), df_present = True,
     df_target = Some (TargetFingerprint ''disk''), df_now = 5, df_detail = ''dispatch'' \<rparr>"

definition sample_authorized :: "job_op list" where
  "sample_authorized =
     [OpCreateWorkflow (sample_uuids 100) (Some Enrolled) (EndpointId 7) 1,
      OpAuthorizeIntent (find_job (job_store_run empty_jobs
         [OpCreateWorkflow (sample_uuids 100) (Some Enrolled) (EndpointId 7) 1]) (JobId 100))
         (JobId 100) (JobStepId 101) (Some (InventoryRevisionId 9)) (Some (TargetFingerprint ''disk'')),
      OpAdmitJob (sample_uuids 200) (JobId 100) 0,
      OpSatisfyPreconditions (JobId 100) (JobStepId 101)]"

lemma sample_authorized_conforms: "run_conforms empty_jobs sample_authorized"
  by code_simp

theorem destructive_dispatch_passed_gates_witness:
  "\<exists>db' out. commit_destructive_dispatch_tx (job_store_run empty_jobs sample_authorized)
       (sample_uuids 400) (JobId 100) (JobStepId 101) sample_facts = (db', Ok out) \<and>
     active_attempts (jd_attempts db') (JobStepId 101) = [dispatched_attempt (sample_uuids 400) (JobStepId 101)]"
proof -
  let ?db = "job_store_run empty_jobs sample_authorized"
  let ?tx = "commit_destructive_dispatch_tx ?db (sample_uuids 400) (JobId 100) (JobStepId 101) sample_facts"
  have "(case snd ?tx of Inl _ \<Rightarrow> False | Inr _ \<Rightarrow> True)" by code_simp
  then obtain out where "?tx = (fst ?tx, Ok out)" by (cases "snd ?tx") (auto simp: prod_eq_iff)
  then show ?thesis
    using destructive_dispatch_passed_gates [OF run_inv [OF sample_authorized_conforms job_inv_empty]]
    by blast
qed

text \<open>
  C39. A refused dispatch starts nothing: when the destructive or the transfer gate answers with an
  error, no Attempt is created, no Job changes its state and nothing is logged; the only trace is
  that a step whose revalidation failed returns to pending.
\<close>

theorem refused_dispatch_starts_nothing:
  assumes "job_inv db"
    and "commit_destructive_dispatch_tx db u jid sid facts = (db', Err e) \<or>
         commit_transfer_dispatch_tx db u jid sid tid = (db', Err e)"
  shows "jd_attempts db' = jd_attempts db \<and> jd_jobs db' = jd_jobs db \<and> jd_events db' = jd_events db \<and>
    jd_transfers db' = jd_transfers db \<and> jd_audit db' = jd_audit db \<and>
    (db' = db \<or> (\<exists>s\<in>set (jd_steps db). js_id s = sid \<and> js_state s = S_PreconditionsSatisfied \<and>
       jd_steps db' = replace_step (jd_steps db) (s\<lparr> js_state := S_Pending \<rparr>)))"
proof -
  note ok = job_invD(1) [OF assms(1)]
  have pend: "db1 = update_step sid (\<lambda>t. t\<lparr> js_state := S_Pending \<rparr>) db \<Longrightarrow>
      jd_steps db1 = replace_step (jd_steps db) (s\<lparr> js_state := S_Pending \<rparr>) \<and>
      s \<in> set (jd_steps db) \<and> js_id s = sid"
    if "find_job db jid = Some j" "find_step sid j = Some s" for j s db1
    using find_job_step [OF ok that] update_step_patched [where f = "\<lambda>t. t\<lparr> js_state := S_Pending \<rparr>",
        OF ok that(1) find_job_step(4) [OF ok that]]
    by (simp add: patched_def)
  have gate1: "fx_pending_job_step d = None \<or> (\<exists>s. find_step sid j = Some s \<and>
      js_state s = S_PreconditionsSatisfied \<and> fx_pending_job_step d = Some (s\<lparr> js_state := S_Pending \<rparr>))"
    if "evaluate_final_destructive_dispatch u (resolve_dispatch_inputs j sid x ep inventory pr tg now) = Err d"
    for j x ep inventory pr tg now d
    using final_dispatch_denial_cases [OF that] by (simp add: resolve_dispatch_inputs_def)
  have gate2: "tx_pending_job_step d = None \<or> (\<exists>s. find_step sid j = Some s \<and>
      js_state s = S_PreconditionsSatisfied \<and> tx_pending_job_step d = Some (s\<lparr> js_state := S_Pending \<rparr>))"
    if "evaluate_transfer_dispatch u \<lparr> td_job = j, td_step_id = sid, td_existing_active_attempt = x,
      td_transfer = t \<rparr> = Err d" for j x t d
    using transfer_dispatch_denial_cases [OF that] by simp
  have "db' = db \<or> (\<exists>j s. find_job db jid = Some j \<and> find_step sid j = Some s \<and>
      js_state s = S_PreconditionsSatisfied \<and> db' = update_step sid (\<lambda>t. t\<lparr> js_state := S_Pending \<rparr>) db)"
    using assms(2)
    by (auto simp: commit_destructive_dispatch_tx_def commit_transfer_dispatch_tx_def Let_def
        split: option.splits sum.splits dest!: gate1 gate2)
  then show ?thesis
  proof (elim disjE exE conjE)
    fix j s
    assume *: "find_job db jid = Some j" "find_step sid j = Some s" "js_state s = S_PreconditionsSatisfied"
      "db' = update_step sid (\<lambda>t. t\<lparr> js_state := S_Pending \<rparr>) db"
    have "jd_attempts db' = jd_attempts db \<and> jd_jobs db' = jd_jobs db \<and> jd_events db' = jd_events db \<and>
        jd_transfers db' = jd_transfers db \<and> jd_audit db' = jd_audit db"
      unfolding *(4) update_step_def by simp
    then show ?thesis using pend [OF *(1,2,4)] *(3) by blast
  qed simp
qed

theorem refused_dispatch_starts_nothing_witness:
  "\<exists>db' e. commit_destructive_dispatch_tx (job_store_run empty_jobs sample_authorized)
       (sample_uuids 400) (JobId 100) (JobStepId 101) (sample_facts\<lparr> df_present := False \<rparr>) = (db', Err e) \<and>
     jd_attempts db' = jd_attempts (job_store_run empty_jobs sample_authorized)"
proof -
  let ?db = "job_store_run empty_jobs sample_authorized"
  let ?tx = "commit_destructive_dispatch_tx ?db (sample_uuids 400) (JobId 100) (JobStepId 101)
    (sample_facts\<lparr> df_present := False \<rparr>)"
  have "snd ?tx = Err (StoreDispatchRejected FD_AgentNotPresent)" by code_simp
  then have "?tx = (fst ?tx, Err (StoreDispatchRejected FD_AgentNotPresent))" by (simp add: prod_eq_iff)
  then show ?thesis
    using refused_dispatch_starts_nothing [OF run_inv [OF sample_authorized_conforms job_inv_empty]] by blast
qed

text \<open>
  C38. The reconciliation at startup, a loop of single row updates, has the effect of one pass over
  the Attempts: each Attempt that was dispatched or in progress awaits reconciliation, everything
  else is unchanged, and the identifiers returned are those of the changed rows in table order. A
  second startup changes nothing.
\<close>

theorem startup_reconciliation_is_one_pass:
  assumes "job_inv db"
  shows "reconcile_on_startup_tx db =
      (db\<lparr> jd_attempts := reconciled_attempts (jd_attempts db) \<rparr>,
       map at_id (filter uncertain_attempt (jd_attempts db))) \<and>
    reconcile_on_startup_tx (fst (reconcile_on_startup_tx db)) = (fst (reconcile_on_startup_tx db), [])"
proof -
  have once: "filter uncertain_attempt (reconciled_attempts atts) = []" for atts
    by (auto simp: reconciled_attempts_def filter_empty_conv uncertain_attempt_def)
  have idem: "reconciled_attempts (reconciled_attempts atts) = reconciled_attempts atts" for atts
    by (simp add: reconciled_attempts_def uncertain_attempt_def)
  show ?thesis
    using reconcile_on_startup_eq [OF assms] reconcile_on_startup_eq [OF reconcile_on_startup_inv [OF assms]]
    by (simp add: once idem)
qed

theorem startup_reconciliation_is_one_pass_witness:
  "snd (reconcile_on_startup_tx sample_second_db) = [AttemptId 700] \<and>
   snd (reconcile_on_startup_tx (fst (reconcile_on_startup_tx sample_second_db))) = []"
proof -
  have "map at_id (filter uncertain_attempt (jd_attempts sample_second_db)) = [AttemptId 700]" by code_simp
  then show ?thesis using startup_reconciliation_is_one_pass [OF sample_second_inv] by (metis snd_conv)
qed

text \<open>
  C37. A cancellation request whose first scan shows the current state is decided in its first pass,
  on the right facts: with the active Attempt of the dispatching step when there is one, and with
  no Attempt only when no step of the Job is dispatching.
\<close>

theorem cancellation_decided_on_current_attempt:
  assumes inv: "job_inv db" and j: "find_job db jid = Some j"
  shows "\<exists>active. request_cancellation_loop MAX_PASSES ((db, active_attempt_candidate_rows db jid) # seen)
        u operator jid now detail = Some (decide_cancellation db u operator j active now detail) \<and>
      (case active of
         None \<Rightarrow> \<forall>s\<in>set (jb_steps j). js_state s \<noteq> S_Dispatching
       | Some a \<Rightarrow> a \<in> set (jd_attempts db) \<and> attempt_active (at_state a) \<and>
           (\<exists>s\<in>set (jb_steps j). js_id s = at_job_step_id a \<and> js_state s = S_Dispatching))"
proof (cases "active_attempt_candidate_rows db jid")
  case Nil
  then have "request_cancellation_pass db [] u operator jid now detail =
      PassDone (decide_cancellation db u operator j None now detail)"
    by (simp add: request_cancellation_pass_def j)
  then show ?thesis
    using candidate_rows_empty [OF inv j Nil] unfolding Nil
    by (intro exI [of _ None]) (simp add: loop_first_pass)
next
  case (Cons aid rest)
  then have rows: "active_attempt_candidate_rows db jid = [aid]"
    using scans_at_most_one(1) [OF inv, of jid] by simp
  obtain a s where a: "find_attempt db aid = Some a" "attempt_active (at_state a)"
    "s \<in> set (jb_steps j)" "js_id s = at_job_step_id a" "js_state s = S_Dispatching"
    by (rule candidate_row [OF inv rows j])
  have "request_cancellation_pass db [aid] u operator jid now detail =
      PassDone (decide_cancellation db u operator j (Some a) now detail)"
    using a(1,2) by (simp add: request_cancellation_pass_def j)
  moreover have "a \<in> set (jd_attempts db)"
    using a(1) by (simp add: find_attempt_Some_iff [OF job_invD(1) [OF inv]])
  ultimately show ?thesis
    using a(2-5) unfolding rows by (intro exI [of _ "Some a"]) (auto simp: loop_first_pass)
qed

theorem cancellation_decided_on_current_attempt_witness:
  "\<exists>active. request_cancellation_loop MAX_PASSES [(sample_second_db, [AttemptId 700])]
     (sample_uuids 800) System (JobId 100) 2 '''' =
     Some (decide_cancellation sample_second_db (sample_uuids 800) System sample_second_job active 2 '''')"
proof -
  have "active_attempt_candidate_rows sample_second_db (JobId 100) = [AttemptId 700]" by code_simp
  then show ?thesis
    using cancellation_decided_on_current_attempt [OF sample_second_inv sample_second_found,
        of "[]" "sample_uuids 800" System 2 "''''"]
    by auto
qed



text \<open>
  Reconciliation agrees with direct evidence: a status report that says succeeded or failed
  changes an Attempt awaiting reconciliation, its step and its Job exactly as the same result does
  for an Attempt in progress.
\<close>

theorem reconciliation_agrees_with_evidence:
  "apply_status_report u j s (a\<lparr> at_state := A_AwaitingReconciliation \<rparr>) ReportSucceeded now =
     (case apply_action_evidence u j s (a\<lparr> at_state := A_InProgress \<rparr>) ResultSucceeded now of
        EvidenceApplied ap \<Rightarrow> ReconciliationApplied ap | _ \<Rightarrow> ReconciliationNoOp) \<and>
   apply_status_report u j s (a\<lparr> at_state := A_AwaitingReconciliation \<rparr>) ReportFailed now =
     (case apply_action_evidence u j s (a\<lparr> at_state := A_InProgress \<rparr>) ResultFailed now of
        EvidenceApplied ap \<Rightarrow> ReconciliationApplied ap | _ \<Rightarrow> ReconciliationNoOp)"
  by (simp add: apply_status_report_def apply_action_evidence_def reconciliation_success_eq
      reconciliation_failure_eq terminal_success_def terminal_failure_def Let_def)

text \<open>
  The number of steps a workflow can have: with identifiers that are fresh and distinct, a
  workflow for an enrolled Endpoint is created exactly when it has between 1 and 2^31 steps. Beyond
  that, the cast of the step order to 32 bits wraps to a negative number and the table refuses it.
\<close>

theorem workflow_step_bound:
  assumes "inj_on u {..n}" and "JobId (u 0) \<notin> jr_id ` set (jd_jobs db)"
    and "distinct (map js_id (jd_steps db))" and "\<And>k. k \<le> n \<Longrightarrow> JobStepId (u k) \<notin> js_id ` set (jd_steps db)"
  shows "(\<exists>j. snd (create_workflow_tx db u (Some Enrolled) ep n) = Ok j) \<longleftrightarrow> 0 < n \<and> n \<le> 2 ^ 31"
proof (cases "n = 0")
  case False
  define steps where "steps = map (\<lambda>ord. \<lparr> js_id = JobStepId (u (Suc ord)), js_job_id = JobId (u 0),
      js_order = as_i32 ord, js_state = S_Pending, js_destructive_intent = None,
      js_failure_reason = None \<rparr>) [0..<n]"
  have "distinct (map js_id steps)"
    unfolding steps_def using assms(1) by (fastforce simp: comp_def distinct_map inj_on_def)
  moreover have "set (map js_id (jd_steps db)) \<inter> set (map js_id steps) = {}"
    unfolding steps_def using assms(4) by (auto simp: image_iff) (metis Suc_leI)
  ultimately have ids: "distinct (map js_id (jd_steps db @ steps))" using assms(3) by simp
  have orders: "map js_order steps = map as_i32 [0..<n]" by (simp add: steps_def comp_def)
  have bound: "list_all (\<lambda>s. 0 \<le> js_order s) steps \<and> distinct (map js_order steps) \<longleftrightarrow> n \<le> 2 ^ 31"
    unfolding orders by (simp only: as_i32_orders [symmetric]) (auto simp: steps_def list_all_iff)
  have create: "create_workflow u ep n = Ok \<lparr> jb_id = JobId (u 0), jb_endpoint_id = ep,
      jb_state = J_Pending, jb_steps = steps \<rparr>"
    using False by (simp add: create_workflow_def steps_def Let_def)
  show ?thesis
    using False assms(2) ids bound by (auto simp: create_workflow_tx_def create insert_workflow_def)
qed (simp add: create_workflow_tx_def create_workflow_def)

theorem workflow_step_bound_witness:
  "\<exists>j. snd (create_workflow_tx empty_jobs (sample_uuids 100) (Some Enrolled) (EndpointId 7) 3) = Ok j"
proof -
  have "inj_on (sample_uuids 100) {..3}"
    by (auto simp: inj_on_def sample_uuids_def le_Suc_eq numeral_3_eq_3)
  then show ?thesis
    using workflow_step_bound [of "sample_uuids 100" 3 empty_jobs "EndpointId 7"] by (simp add: empty_jobs_def)
qed

section \<open>The excluded operation\<close>



end
