(* ===== verification/Transfer_Authorization.thy ===== *)
theory Transfer_Authorization
  imports Transfer_Model
begin

text \<open>
  The sender-constrained authorization of data-plane requests, as far as it is pure:
  \<open>src/crates/domain/src/transfer_authorization.rs\<close>. Wire values of the ephemeral proof key, the
  proof identifier and the signature; capability tokens and their identities; the signed
  transcript; and the predicates on a capability binding, an operation and the age of a proof.

  SHA-256, the validity check and the strict verification of Ed25519, and the base64 engine are
  parameters. The lemmas show that each wire form is canonical, that the transcript has 137 bytes
  and that it determines everything that is signed.
\<close>

section \<open>Wire values\<close>

definition PROOF_PUBLIC_KEY_BYTES :: nat where
  "PROOF_PUBLIC_KEY_BYTES = 32"

definition PROOF_PUBLIC_KEY_WIRE_LEN :: nat where
  "PROOF_PUBLIC_KEY_WIRE_LEN = 43"

datatype proof_public_key = ProofPublicKey (key_bytes: "byte list")

datatype proof_public_key_error =
    KeyWireLength
  | KeyInvalidCharacters
  | KeyInvalidEncoding
  | KeyInvalidDecodedLength
  | KeyNonCanonical
  | KeyInvalidKey

definition key_from_bytes ::
  "(byte list \<Rightarrow> bool) \<Rightarrow> byte list \<Rightarrow> proof_public_key_error + proof_public_key" where
  "key_from_bytes valid_key bytes =
     (if valid_key bytes then Ok (ProofPublicKey bytes) else Err KeyInvalidKey)"

definition key_to_wire_value :: "b64_engine \<Rightarrow> proof_public_key \<Rightarrow> string" where
  "key_to_wire_value eng k = b64_encode eng (key_bytes k)"

definition key_parse_wire_value ::
  "b64_engine \<Rightarrow> (byte list \<Rightarrow> bool) \<Rightarrow> string \<Rightarrow> proof_public_key_error + proof_public_key" where
  "key_parse_wire_value eng valid_key s =
     (if length s \<noteq> PROOF_PUBLIC_KEY_WIRE_LEN then Err KeyWireLength
      else if \<not> list_all is_canonical_base64url_char s then Err KeyInvalidCharacters
      else case b64_decode eng s of
        None \<Rightarrow> Err KeyInvalidEncoding
      | Some bytes \<Rightarrow>
          if length bytes \<noteq> PROOF_PUBLIC_KEY_BYTES then Err KeyInvalidDecodedLength
          else (case key_from_bytes valid_key bytes of
              Inl e \<Rightarrow> Err e
            | Inr candidate \<Rightarrow>
                if key_to_wire_value eng candidate \<noteq> s then Err KeyNonCanonical else Ok candidate))"

definition PROOF_KEY_THUMBPRINT_BYTES :: nat where
  "PROOF_KEY_THUMBPRINT_BYTES = 32"

datatype proof_key_thumbprint = ProofKeyThumbprint (thumbprint_bytes: "byte list")

definition thumbprint_from_public_key ::
  "(byte list \<Rightarrow> byte list) \<Rightarrow> proof_public_key \<Rightarrow> proof_key_thumbprint" where
  "thumbprint_from_public_key sha256 k = ProofKeyThumbprint (sha256 (key_bytes k))"

definition PROOF_ID_BYTES :: nat where
  "PROOF_ID_BYTES = 16"

definition PROOF_ID_WIRE_LEN :: nat where
  "PROOF_ID_WIRE_LEN = 22"

datatype proof_id = ProofId (proof_id_bytes: "byte list")

datatype proof_id_error =
    ProofIdWireLength
  | ProofIdInvalidCharacters
  | ProofIdInvalidEncoding
  | ProofIdInvalidDecodedLength
  | ProofIdNonCanonical

definition proof_id_to_wire_value :: "b64_engine \<Rightarrow> proof_id \<Rightarrow> string" where
  "proof_id_to_wire_value eng p = b64_encode eng (proof_id_bytes p)"

definition proof_id_parse_wire_value :: "b64_engine \<Rightarrow> string \<Rightarrow> proof_id_error + proof_id" where
  "proof_id_parse_wire_value eng s =
     (if length s \<noteq> PROOF_ID_WIRE_LEN then Err ProofIdWireLength
      else if \<not> list_all is_canonical_base64url_char s then Err ProofIdInvalidCharacters
      else case b64_decode eng s of
        None \<Rightarrow> Err ProofIdInvalidEncoding
      | Some bytes \<Rightarrow>
          if length bytes \<noteq> PROOF_ID_BYTES then Err ProofIdInvalidDecodedLength
          else let candidate = ProofId bytes in
            if proof_id_to_wire_value eng candidate \<noteq> s then Err ProofIdNonCanonical
            else Ok candidate)"

definition PROOF_SIGNATURE_BYTES :: nat where
  "PROOF_SIGNATURE_BYTES = 64"

definition PROOF_SIGNATURE_WIRE_LEN :: nat where
  "PROOF_SIGNATURE_WIRE_LEN = 86"

datatype proof_signature = ProofSignature (proof_signature_bytes: "byte list")

datatype proof_signature_error =
    SignatureWireLength
  | SignatureInvalidCharacters
  | SignatureInvalidEncoding
  | SignatureInvalidDecodedLength
  | SignatureNonCanonical

definition proof_signature_to_wire_value :: "b64_engine \<Rightarrow> proof_signature \<Rightarrow> string" where
  "proof_signature_to_wire_value eng p = b64_encode eng (proof_signature_bytes p)"

definition proof_signature_parse_wire_value ::
  "b64_engine \<Rightarrow> string \<Rightarrow> proof_signature_error + proof_signature" where
  "proof_signature_parse_wire_value eng s =
     (if length s \<noteq> PROOF_SIGNATURE_WIRE_LEN then Err SignatureWireLength
      else if \<not> list_all is_canonical_base64url_char s then Err SignatureInvalidCharacters
      else case b64_decode eng s of
        None \<Rightarrow> Err SignatureInvalidEncoding
      | Some bytes \<Rightarrow>
          if length bytes \<noteq> PROOF_SIGNATURE_BYTES then Err SignatureInvalidDecodedLength
          else let candidate = ProofSignature bytes in
            if proof_signature_to_wire_value eng candidate \<noteq> s then Err SignatureNonCanonical
            else Ok candidate)"

section \<open>Capabilities\<close>

datatype capability_token = CapabilityToken (token_str: string)

text \<open>\<open>entropy\<close> is what the operating system's generator fills the buffer with.\<close>

definition token_generate :: "b64_engine \<Rightarrow> byte list \<Rightarrow> capability_token" where
  "token_generate eng entropy = CapabilityToken (b64_encode eng entropy)"

datatype capability_id = CapabilityId (capability_id_bytes: "byte list")

definition capability_id_from_token_bytes ::
  "(byte list \<Rightarrow> byte list) \<Rightarrow> byte list \<Rightarrow> capability_id" where
  "capability_id_from_token_bytes sha256 token = CapabilityId (sha256 token)"

definition capability_id_from_token ::
  "(byte list \<Rightarrow> byte list) \<Rightarrow> capability_token \<Rightarrow> capability_id" where
  "capability_id_from_token sha256 token =
     capability_id_from_token_bytes sha256 (ascii_bytes (token_str token))"

datatype process_authorization_epoch = ProcessAuthorizationEpoch uuid

section \<open>The signed transcript\<close>

datatype authorization_operation = ChunkUpload | ResumeDiscovery | SealManifest

definition operation_transcript_byte :: "authorization_operation \<Rightarrow> byte" where
  "operation_transcript_byte op =
     (case op of ChunkUpload \<Rightarrow> 1 | ResumeDiscovery \<Rightarrow> 2 | SealManifest \<Rightarrow> 3)"

definition requires_chunk_index :: "authorization_operation \<Rightarrow> bool" where
  "requires_chunk_index op = (op = ChunkUpload)"

definition direction_transcript_byte :: "transfer_direction \<Rightarrow> byte" where
  "direction_transcript_byte d = (case d of AgentToServer \<Rightarrow> 1)"

definition PROOF_TRANSCRIPT_DOMAIN :: "byte list" where
  "PROOF_TRANSCRIPT_DOMAIN = ascii_bytes ''bamep.m1.data-plane-transfer.proof''"

definition PROOF_TRANSCRIPT_SCHEMA_VERSION :: nat where
  "PROOF_TRANSCRIPT_SCHEMA_VERSION = 1"

definition PROOF_TRANSCRIPT_LEN :: nat where
  "PROOF_TRANSCRIPT_LEN = 137"

record proof_transcript_fields =
  pf_operation :: authorization_operation
  pf_transfer_id :: transfer_id
  pf_artifact_id :: artifact_id
  pf_direction :: transfer_direction
  pf_chunk_index :: "u64 option"
  pf_proof_id :: proof_id
  pf_issued_at_millis :: u64

primrec transfer_uuid :: "transfer_id \<Rightarrow> uuid" where
  "transfer_uuid (TransferId u) = u"

primrec artifact_uuid :: "artifact_id \<Rightarrow> uuid" where
  "artifact_uuid (ArtifactId u) = u"

definition chunk_index_or_zero :: "u64 option \<Rightarrow> u64" where
  "chunk_index_or_zero i = (case i of None \<Rightarrow> 0 | Some n \<Rightarrow> n)"

definition build_proof_transcript :: "capability_id \<Rightarrow> proof_transcript_fields \<Rightarrow> byte list" where
  "build_proof_transcript capability_id f =
     be_bytes 2 (length PROOF_TRANSCRIPT_DOMAIN) @ PROOF_TRANSCRIPT_DOMAIN @
     be_bytes 2 PROOF_TRANSCRIPT_SCHEMA_VERSION @ capability_id_bytes capability_id @
     [operation_transcript_byte (pf_operation f)] @
     uuid_bytes (transfer_uuid (pf_transfer_id f)) @
     uuid_bytes (artifact_uuid (pf_artifact_id f)) @
     [direction_transcript_byte (pf_direction f)] @
     [if pf_chunk_index f \<noteq> None then 1 else 0] @
     be_bytes 8 (unat (chunk_index_or_zero (pf_chunk_index f))) @
     proof_id_bytes (pf_proof_id f) @
     be_bytes 8 (unat (pf_issued_at_millis f))"

text \<open>\<open>verify_strict\<close> takes the key, the message and the signature.\<close>

definition verify_proof_signature ::
  "(byte list \<Rightarrow> byte list \<Rightarrow> byte list \<Rightarrow> bool) \<Rightarrow> proof_public_key \<Rightarrow> byte list \<Rightarrow> proof_signature
    \<Rightarrow> bool" where
  "verify_proof_signature verify_strict key transcript signature =
     verify_strict (key_bytes key) transcript (proof_signature_bytes signature)"

section \<open>Bindings and denials\<close>

record capability_binding =
  cb_endpoint_id :: endpoint_id
  cb_transfer_id :: transfer_id
  cb_artifact_id :: artifact_id
  cb_direction :: transfer_direction
  cb_attempt_id :: attempt_id
  cb_proof_public_key :: proof_public_key
  cb_expires_at :: time
  cb_epoch :: process_authorization_epoch

record requested_operation =
  rq_operation :: authorization_operation
  rq_transfer_id :: transfer_id
  rq_artifact_id :: artifact_id
  rq_direction :: transfer_direction
  rq_chunk_index :: "u64 option"

datatype authorization_denial_reason =
    CapabilityNotFound
  | CapabilityExpired
  | CapabilityWrongEpoch
  | TransferMismatch
  | ArtifactMismatch
  | DirectionMismatch
  | OperationChunkIndexRuleViolation
  | SignatureInvalid
  | ProofTooStale
  | ProofTooFarInFuture
  | ProofReplayed
  | TransferNotAttemptBound
  | UnknownAttempt
  | AttemptNotEligible
  | WrongActionCorrelation
  | EndpointMismatch
  | DenialCredentialNotActive
  | OperationNotCurrentlyEligible

definition capability_is_current ::
  "capability_binding \<Rightarrow> time \<Rightarrow> process_authorization_epoch \<Rightarrow> authorization_denial_reason + unit" where
  "capability_is_current binding now current_epoch =
     (if cb_epoch binding \<noteq> current_epoch then Err CapabilityWrongEpoch
      else if now \<ge> cb_expires_at binding then Err CapabilityExpired
      else Ok ())"

definition capability_matches_request ::
  "capability_binding \<Rightarrow> requested_operation \<Rightarrow> authorization_denial_reason + unit" where
  "capability_matches_request binding requested =
     (if cb_transfer_id binding \<noteq> rq_transfer_id requested then Err TransferMismatch
      else if cb_artifact_id binding \<noteq> rq_artifact_id requested then Err ArtifactMismatch
      else if cb_direction binding \<noteq> rq_direction requested then Err DirectionMismatch
      else if requires_chunk_index (rq_operation requested) \<noteq> (rq_chunk_index requested \<noteq> None)
      then Err OperationChunkIndexRuleViolation
      else Ok ())"

definition data_plane_operation_is_current ::
  "authorization_operation \<Rightarrow> artifact_state \<Rightarrow> bool \<Rightarrow> bool \<Rightarrow> authorization_denial_reason + unit" where
  "data_plane_operation_is_current operation state manifest_sealed has_identity =
     (case state of
        Ar_Verified \<Rightarrow> Err OperationNotCurrentlyEligible
      | Ar_Failed \<Rightarrow> Err OperationNotCurrentlyEligible
      | Ar_PendingVerification \<Rightarrow>
          (case operation of
             SealManifest \<Rightarrow> Ok ()
           | ResumeDiscovery \<Rightarrow> Ok ()
           | ChunkUpload \<Rightarrow> Err OperationNotCurrentlyEligible)
      | Ar_Incomplete \<Rightarrow>
          (case operation of
             ResumeDiscovery \<Rightarrow> Ok ()
           | SealManifest \<Rightarrow> Ok ()
           | ChunkUpload \<Rightarrow>
               if manifest_sealed \<and> \<not> has_identity then Err OperationNotCurrentlyEligible
               else Ok ()))"

section \<open>Freshness\<close>

definition PROOF_FRESHNESS_PAST_WINDOW_MILLIS :: int where
  "PROOF_FRESHNESS_PAST_WINDOW_MILLIS = 120000"

definition PROOF_FRESHNESS_FUTURE_SKEW_MILLIS :: int where
  "PROOF_FRESHNESS_FUTURE_SKEW_MILLIS = 30000"

definition proof_replay_valid_until_millis :: "u64 \<Rightarrow> int" where
  "proof_replay_valid_until_millis issued_at = uint issued_at + PROOF_FRESHNESS_PAST_WINDOW_MILLIS"

definition proof_is_fresh :: "u64 \<Rightarrow> time \<Rightarrow> authorization_denial_reason + unit" where
  "proof_is_fresh issued_at now =
     (let delta = timestamp_millis now - uint issued_at in
      if delta > PROOF_FRESHNESS_PAST_WINDOW_MILLIS then Err ProofTooStale
      else if delta < - PROOF_FRESHNESS_FUTURE_SKEW_MILLIS then Err ProofTooFarInFuture
      else Ok ())"

definition DEFAULT_CAPABILITY_TTL_MILLIS :: int where
  "DEFAULT_CAPABILITY_TTL_MILLIS = 5 * 60 * 1000"

section \<open>Canonical wire forms\<close>

lemmas key_wire_defs = key_parse_wire_value_def key_to_wire_value_def key_from_bytes_def
  PROOF_PUBLIC_KEY_BYTES_def PROOF_PUBLIC_KEY_WIRE_LEN_def

lemmas proof_id_wire_defs = proof_id_parse_wire_value_def proof_id_to_wire_value_def
  PROOF_ID_BYTES_def PROOF_ID_WIRE_LEN_def

lemmas proof_signature_wire_defs = proof_signature_parse_wire_value_def
  proof_signature_to_wire_value_def PROOF_SIGNATURE_BYTES_def PROOF_SIGNATURE_WIRE_LEN_def

definition wf_key :: "(byte list \<Rightarrow> bool) \<Rightarrow> proof_public_key \<Rightarrow> bool" where
  "wf_key valid_key k = (length (key_bytes k) = PROOF_PUBLIC_KEY_BYTES \<and> valid_key (key_bytes k))"

definition wf_proof_id :: "proof_id \<Rightarrow> bool" where
  "wf_proof_id p = (length (proof_id_bytes p) = PROOF_ID_BYTES)"

definition wf_proof_signature :: "proof_signature \<Rightarrow> bool" where
  "wf_proof_signature p = (length (proof_signature_bytes p) = PROOF_SIGNATURE_BYTES)"

context base64url
begin

lemma key_canonical:
  "canonical_wire (key_to_wire_value eng) (key_parse_wire_value eng valid_key) (wf_key valid_key)"
proof
  fix k assume "wf_key valid_key k"
  then show "key_parse_wire_value eng valid_key (key_to_wire_value eng k) = Inr k"
    by (cases k) (simp add: wf_key_def key_wire_defs decode_encode encode_chars encode_length)
next
  fix s k assume "key_parse_wire_value eng valid_key s = Inr k"
  then show "wf_key valid_key k \<and> key_to_wire_value eng k = s"
    by (auto simp: wf_key_def key_wire_defs split: if_splits option.splits sum.splits)
qed

lemma proof_id_canonical:
  "canonical_wire (proof_id_to_wire_value eng) (proof_id_parse_wire_value eng) wf_proof_id"
proof
  fix p assume "wf_proof_id p"
  then show "proof_id_parse_wire_value eng (proof_id_to_wire_value eng p) = Inr p"
    by (cases p) (simp add: wf_proof_id_def proof_id_wire_defs decode_encode encode_chars encode_length)
next
  fix s p assume "proof_id_parse_wire_value eng s = Inr p"
  then show "wf_proof_id p \<and> proof_id_to_wire_value eng p = s"
    by (auto simp: wf_proof_id_def proof_id_wire_defs Let_def split: if_splits option.splits)
qed

lemma proof_signature_canonical:
  "canonical_wire (proof_signature_to_wire_value eng) (proof_signature_parse_wire_value eng)
     wf_proof_signature"
proof
  fix p assume "wf_proof_signature p"
  then show "proof_signature_parse_wire_value eng (proof_signature_to_wire_value eng p) = Inr p"
    by (cases p) (simp add: wf_proof_signature_def proof_signature_wire_defs decode_encode
        encode_chars encode_length)
next
  fix s p assume "proof_signature_parse_wire_value eng s = Inr p"
  then show "wf_proof_signature p \<and> proof_signature_to_wire_value eng p = s"
    by (auto simp: wf_proof_signature_def proof_signature_wire_defs Let_def
        split: if_splits option.splits)
qed

end

sublocale base64url \<subseteq> key_wire: canonical_wire
    "key_to_wire_value eng" "key_parse_wire_value eng valid_key" "wf_key valid_key" for valid_key
  by (rule key_canonical)

sublocale base64url \<subseteq> proof_id_wire: canonical_wire
    "proof_id_to_wire_value eng" "proof_id_parse_wire_value eng" wf_proof_id
  by (rule proof_id_canonical)

sublocale base64url \<subseteq> proof_signature_wire: canonical_wire
    "proof_signature_to_wire_value eng" "proof_signature_parse_wire_value eng" wf_proof_signature
  by (rule proof_signature_canonical)

section \<open>The transcript determines what is signed\<close>

lemma length_proof_domain [simp]: "length PROOF_TRANSCRIPT_DOMAIN = 34"
  by (simp add: PROOF_TRANSCRIPT_DOMAIN_def)

lemma length_proof_transcript:
  "length (capability_id_bytes c) = 32 \<Longrightarrow> wf_proof_id (pf_proof_id f) \<Longrightarrow>
   length (build_proof_transcript c f) = PROOF_TRANSCRIPT_LEN"
  by (simp add: build_proof_transcript_def wf_proof_id_def PROOF_ID_BYTES_def PROOF_TRANSCRIPT_LEN_def)

lemma operation_byte_inject: "operation_transcript_byte a = operation_transcript_byte b \<longleftrightarrow> a = b"
  by (cases a; cases b) (simp_all add: operation_transcript_byte_def)

lemma direction_unique: "(a :: transfer_direction) = b"
  by (cases a; cases b) simp

lemma be_bytes_u64_inject: "be_bytes 8 (unat (a :: u64)) = be_bytes 8 (unat b) \<longleftrightarrow> a = b"
proof -
  have "unat a < 256 ^ 8" "unat b < 256 ^ 8"
    using unsigned_less [of a] unsigned_less [of b] by simp_all
  then show ?thesis by (simp add: be_bytes_inject word_unat_eq_iff)
qed

lemma chunk_index_bytes_inject:
  assumes "(if a \<noteq> None then 1 else 0 :: byte) = (if b \<noteq> None then 1 else 0)"
    and "be_bytes 8 (unat (chunk_index_or_zero a)) = be_bytes 8 (unat (chunk_index_or_zero b))"
  shows "a = b"
  using assms by (cases a; cases b) (simp_all add: be_bytes_u64_inject chunk_index_or_zero_def)

lemma uuid_selectors_inject:
  "transfer_uuid t = transfer_uuid t' \<longleftrightarrow> t = t'" "artifact_uuid x = artifact_uuid x' \<longleftrightarrow> x = x'"
  by (cases t; cases t'; simp) (cases x; cases x'; simp)

lemma proof_transcript_inject:
  assumes len: "length (capability_id_bytes c) = 32" "length (capability_id_bytes c') = 32"
    "wf_proof_id (pf_proof_id f)" "wf_proof_id (pf_proof_id f')"
    and eq: "build_proof_transcript c f = build_proof_transcript c' f'"
  shows "c = c' \<and> f = f'"
proof -
  have ids: "length (proof_id_bytes (pf_proof_id f)) = length (proof_id_bytes (pf_proof_id f'))"
    using len(3,4) by (simp add: wf_proof_id_def)
  have *: "capability_id_bytes c = capability_id_bytes c'"
    "pf_operation f = pf_operation f'" "pf_transfer_id f = pf_transfer_id f'"
    "pf_artifact_id f = pf_artifact_id f'"
    "(if pf_chunk_index f \<noteq> None then 1 else 0 :: byte) = (if pf_chunk_index f' \<noteq> None then 1 else 0)"
    "be_bytes 8 (unat (chunk_index_or_zero (pf_chunk_index f))) =
      be_bytes 8 (unat (chunk_index_or_zero (pf_chunk_index f')))"
    "proof_id_bytes (pf_proof_id f) = proof_id_bytes (pf_proof_id f')"
    "pf_issued_at_millis f = pf_issued_at_millis f'"
    using eq len(1,2) ids unfolding build_proof_transcript_def
    by (simp_all add: operation_byte_inject uuid_selectors_inject be_bytes_u64_inject del: be_bytes.simps)
  have "pf_chunk_index f = pf_chunk_index f'" by (rule chunk_index_bytes_inject [OF *(5,6)])
  moreover have "c = c'" using *(1) by (cases c; cases c') simp
  moreover have "pf_proof_id f = pf_proof_id f'" using *(7) by (simp add: proof_id.expand)
  ultimately show ?thesis
    using *(2-4,8) direction_unique by (intro conjI proof_transcript_fields.equality) auto
qed

section \<open>The window of a proof\<close>

lemma proof_is_fresh_iff:
  "proof_is_fresh issued now = Ok () \<longleftrightarrow>
     from_timestamp_millis (uint issued - PROOF_FRESHNESS_FUTURE_SKEW_MILLIS) \<le> now \<and>
     now < from_timestamp_millis (proof_replay_valid_until_millis issued + 1)"
proof -
  have "proof_is_fresh issued now = Ok () \<longleftrightarrow>
      uint issued - PROOF_FRESHNESS_FUTURE_SKEW_MILLIS \<le> timestamp_millis now \<and>
      timestamp_millis now \<le> proof_replay_valid_until_millis issued"
    by (auto simp: proof_is_fresh_def Let_def proof_replay_valid_until_millis_def)
  then show ?thesis by (simp only: timestamp_millis_ge_iff timestamp_millis_le_iff)
qed

lemma operation_current_iff:
  "data_plane_operation_is_current op st is_sealed has_id = Ok () \<longleftrightarrow>
     st \<noteq> Ar_Verified \<and> st \<noteq> Ar_Failed \<and>
     (op = ChunkUpload \<longrightarrow> st = Ar_Incomplete \<and> (is_sealed \<longrightarrow> has_id))"
  by (auto simp: data_plane_operation_is_current_def split: artifact_state.split authorization_operation.split)

lemma capability_current_iff:
  "capability_is_current b now e = Ok () \<longleftrightarrow> cb_epoch b = e \<and> now < cb_expires_at b"
  by (auto simp: capability_is_current_def)

lemma capability_matches_iff:
  "capability_matches_request b r = Ok () \<longleftrightarrow>
     cb_transfer_id b = rq_transfer_id r \<and> cb_artifact_id b = rq_artifact_id r \<and>
     cb_direction b = rq_direction r \<and> (rq_operation r = ChunkUpload) = (rq_chunk_index r \<noteq> None)"
  by (auto simp: capability_matches_request_def requires_chunk_index_def)

end
