(* ===== verification/Transfer_Store.thy ===== *)
theory Transfer_Store
  imports Job_Store Transfer_Authorization
begin

text \<open>
  Transfers as the server keeps them: the tables \<open>transfers\<close>, \<open>artifacts\<close>, \<open>chunk_manifests\<close> and
  \<open>chunk_identities\<close> and the transactions of
  \<open>src/crates/server/src/adapters/postgres/transfer_repository.rs\<close>, each with the decision that
  \<open>TransferService\<close>, \<open>ChunkAcceptanceService\<close> and \<open>ArtifactVerificationService\<close> of
  \<open>application/mod.rs\<close> pass to it.

  The tables hold a manifest in pieces: a row with its sealed facts and one row per chunk identity,
  whose integers are the 32-bit columns. \<open>load_locked_facts\<close> puts the Domain values together again.
  A manifest seal takes its decision as a function, as the repository does, because that decision
  also touches the replay cache.
\<close>

section \<open>Tables\<close>

record manifest_row =
  mr_artifact_id :: artifact_id
  mr_sealed :: bool
  mr_chunk_count :: "int option"
  mr_artifact_digest :: "byte list option"

record chunk_row =
  cr_artifact_id :: artifact_id
  cr_index :: int
  cr_size :: int
  cr_digest :: "byte list"
  cr_held :: bool

record transfer_db =
  xd_jobs :: job_db
  xd_artifacts :: "artifact list"
  xd_manifests :: "manifest_row list"
  xd_chunks :: "chunk_row list"

definition empty_transfers :: transfer_db where
  "empty_transfers = \<lparr> xd_jobs = empty_jobs, xd_artifacts = [], xd_manifests = [], xd_chunks = [] \<rparr>"

datatype transfer_store_error =
    XTransferNotFound
  | XCreate job_store_error
  | XRecord chunk_record_error
  | XAccept chunk_accept_error
  | XSeal seal_error
  | XTransition artifact_transition_error
  | XBinding transfer_binding_error
  | XBackend

type_synonym 'a transfer_tx = "transfer_db \<times> (transfer_store_error + 'a)"

record transfer_locked_facts =
  lf_transfer :: transfer
  lf_artifact :: artifact
  lf_manifest :: chunk_manifest
  lf_held :: "chunk_index fset"

section \<open>Reading\<close>

definition find_artifact :: "transfer_db \<Rightarrow> artifact_id \<Rightarrow> artifact option" where
  "find_artifact db aid = find (\<lambda>a. ar_id a = aid) (xd_artifacts db)"

definition find_manifest_row :: "transfer_db \<Rightarrow> artifact_id \<Rightarrow> manifest_row option" where
  "find_manifest_row db aid = find (\<lambda>m. mr_artifact_id m = aid) (xd_manifests db)"

definition chunk_rows_of :: "transfer_db \<Rightarrow> artifact_id \<Rightarrow> chunk_row list" where
  "chunk_rows_of db aid = sort_key cr_index (filter (\<lambda>r. cr_artifact_id r = aid) (xd_chunks db))"

fun replay_chunk_rows ::
  "chunk_row list \<Rightarrow> chunk_manifest \<Rightarrow> chunk_index fset
    \<Rightarrow> transfer_store_error + (chunk_manifest \<times> chunk_index fset)" where
  "replay_chunk_rows [] m held = Ok (m, held)"
| "replay_chunk_rows (r # rs) m held =
     (case record_expected_chunk m (ChunkIndex (i32_as_u32 (cr_index r))) (i32_as_u32 (cr_size r))
             (cr_digest r) of
        Inr (ChunkAdded m') \<Rightarrow>
          replay_chunk_rows rs m'
            (if cr_held r then finsert (ChunkIndex (i32_as_u32 (cr_index r))) held else held)
      | _ \<Rightarrow> Err XBackend)"

definition reapply_seal :: "manifest_row \<Rightarrow> chunk_manifest \<Rightarrow> transfer_store_error + chunk_manifest" where
  "reapply_seal mr m =
     (if \<not> mr_sealed mr then Ok m
      else case mr_chunk_count mr of
        None \<Rightarrow> Err XBackend
      | Some count \<Rightarrow>
          (case mr_artifact_digest mr of
             None \<Rightarrow> Err XBackend
           | Some d \<Rightarrow>
               (case manifest_seal m (i32_as_u32 count) d of
                  Inr (ManifestSealed m') \<Rightarrow> Ok m'
                | _ \<Rightarrow> Err XBackend)))"

definition load_transfer_row :: "transfer \<Rightarrow> transfer_store_error + transfer" where
  "load_transfer_row t =
     (case chunk_size_new (i32_as_u32 (u32_as_i32 (chunk_size_get (tr_chunk_size t)))) of
        Inl _ \<Rightarrow> Err XBackend
      | Inr sz \<Rightarrow> Ok (t\<lparr> tr_chunk_size := sz \<rparr>))"

definition load_locked_transfer_and_artifact ::
  "transfer_db \<Rightarrow> transfer_id \<Rightarrow> transfer_store_error + (transfer \<times> artifact) option" where
  "load_locked_transfer_and_artifact db tid =
     (case find_transfer (xd_jobs db) tid of
        None \<Rightarrow> Ok None
      | Some row \<Rightarrow>
          (case load_transfer_row row of
             Inl e \<Rightarrow> Err e
           | Inr t \<Rightarrow>
               (case find_artifact db (tr_artifact_id t) of
                  None \<Rightarrow> Err XBackend
                | Some a \<Rightarrow> Ok (Some (t, a)))))"

definition load_locked_facts ::
  "transfer_db \<Rightarrow> transfer_id \<Rightarrow> transfer_store_error + transfer_locked_facts option" where
  "load_locked_facts db tid =
     (case load_locked_transfer_and_artifact db tid of
        Inl e \<Rightarrow> Err e
      | Inr None \<Rightarrow> Ok None
      | Inr (Some (t, a)) \<Rightarrow>
               (case find_manifest_row db (tr_artifact_id t) of
                  None \<Rightarrow> Err XBackend
                | Some mr \<Rightarrow>
                    (case replay_chunk_rows (chunk_rows_of db (tr_artifact_id t))
                            (manifest_new (tr_artifact_id t) (tr_digest_algorithm t) (tr_chunk_size t)) {||} of
                       Inl e \<Rightarrow> Err e
                     | Inr (m, held) \<Rightarrow>
                         (case reapply_seal mr m of
                            Inl e \<Rightarrow> Err e
                          | Inr m' \<Rightarrow> Ok (Some \<lparr> lf_transfer = t, lf_artifact = a, lf_manifest = m',
                                                 lf_held = held \<rparr>)))))"

text \<open>Every transaction starts by locking the facts of its Transfer.\<close>

definition with_locked_facts ::
  "transfer_db \<Rightarrow> transfer_id \<Rightarrow> (transfer_locked_facts \<Rightarrow> 'a transfer_tx) \<Rightarrow> 'a transfer_tx" where
  "with_locked_facts db tid body =
     (case load_locked_facts db tid of
        Inl e \<Rightarrow> (db, Err e)
      | Inr None \<Rightarrow> (db, Err XTransferNotFound)
      | Inr (Some facts) \<Rightarrow> body facts)"

section \<open>Statements\<close>

definition insert_chunk_identity :: "chunk_row \<Rightarrow> transfer_db \<Rightarrow> transfer_db option" where
  "insert_chunk_identity r db =
     (if cr_index r < 0 \<or> cr_size r \<le> 0 \<or> length (cr_digest r) \<noteq> 32 \<or>
         list_ex (\<lambda>q. cr_artifact_id q = cr_artifact_id r \<and> cr_index q = cr_index r) (xd_chunks db)
      then None
      else Some (db\<lparr> xd_chunks := xd_chunks db @ [r] \<rparr>))"

definition mark_chunk_held :: "artifact_id \<Rightarrow> int \<Rightarrow> transfer_db \<Rightarrow> transfer_db" where
  "mark_chunk_held aid i db =
     db\<lparr> xd_chunks := map (\<lambda>r. if cr_artifact_id r = aid \<and> cr_index r = i
                               then r\<lparr> cr_held := True \<rparr> else r) (xd_chunks db) \<rparr>"

definition persist_seal :: "artifact_id \<Rightarrow> u32 \<Rightarrow> digest \<Rightarrow> transfer_db \<Rightarrow> transfer_db option" where
  "persist_seal aid count d db =
     (if u32_as_i32 count < 0 \<or> length (digest_bytes d) \<noteq> 32 then None
      else Some (db\<lparr> xd_manifests := map (\<lambda>m. if mr_artifact_id m = aid
             then m\<lparr> mr_sealed := True, mr_chunk_count := Some (u32_as_i32 count),
                     mr_artifact_digest := Some (digest_bytes d) \<rparr> else m) (xd_manifests db) \<rparr>))"

definition update_artifact_state :: "artifact_id \<Rightarrow> artifact_state \<Rightarrow> transfer_db \<Rightarrow> transfer_db" where
  "update_artifact_state aid st db =
     db\<lparr> xd_artifacts := map (\<lambda>a. if ar_id a = aid then a\<lparr> ar_state := st \<rparr> else a) (xd_artifacts db) \<rparr>"

definition persist_incomplete_artifact_failed :: "artifact_id \<Rightarrow> transfer_db \<Rightarrow> transfer_db \<times> bool" where
  "persist_incomplete_artifact_failed aid db =
     (db\<lparr> xd_artifacts := map (\<lambda>a. if ar_id a = aid \<and> ar_state a = Ar_Incomplete
                                  then a\<lparr> ar_state := Ar_Failed \<rparr> else a) (xd_artifacts db) \<rparr>,
      length (filter (\<lambda>a. ar_id a = aid \<and> ar_state a = Ar_Incomplete) (xd_artifacts db)) = 1)"

section \<open>Pre-dispatch operations\<close>

definition create_transfer_context_tx ::
  "transfer_db \<Rightarrow> uuid_source \<Rightarrow> bool \<Rightarrow> endpoint_id \<Rightarrow> job_id \<Rightarrow> job_step_id \<Rightarrow> transfer_direction
    \<Rightarrow> digest_algorithm \<Rightarrow> chunk_size \<Rightarrow> source_provenance \<Rightarrow> transfer_context transfer_tx" where
  "create_transfer_context_tx db new_v4 endpoint_exists endpoint job step direction algorithm sz provenance =
     (let context = create_transfer_context new_v4 endpoint job step direction algorithm sz provenance;
          aid = ar_id (tc_artifact context)
      in case create_transfer_tx (xd_jobs db) endpoint_exists (tc_transfer context) of
           (_, Inl e) \<Rightarrow> (db, Err (XCreate e))
         | (jobs', Inr _) \<Rightarrow>
             if aid \<in> ar_id ` set (xd_artifacts db) \<or> aid \<in> mr_artifact_id ` set (xd_manifests db)
             then (db, Err XBackend)
             else (db\<lparr> xd_jobs := jobs', xd_artifacts := xd_artifacts db @ [tc_artifact context],
                       xd_manifests := xd_manifests db @ [\<lparr> mr_artifact_id = aid, mr_sealed = False,
                         mr_chunk_count = None, mr_artifact_digest = None \<rparr>] \<rparr>, Ok context))"

definition find_transfer_context ::
  "transfer_db \<Rightarrow> transfer_id \<Rightarrow> transfer_store_error + (transfer_context \<times> chunk_index fset) option" where
  "find_transfer_context db tid =
     (case load_locked_facts db tid of
        Inl e \<Rightarrow> Err e
      | Inr facts \<Rightarrow> Ok (map_option (\<lambda>f.
          (\<lparr> tc_transfer = lf_transfer f, tc_artifact = lf_artifact f, tc_manifest = lf_manifest f \<rparr>,
           lf_held f)) facts))"

definition chunk_row_of :: "artifact_id \<Rightarrow> expected_chunk \<Rightarrow> bool \<Rightarrow> u32 \<Rightarrow> chunk_row" where
  "chunk_row_of aid c held i = \<lparr> cr_artifact_id = aid, cr_index = u32_as_i32 i,
     cr_size = u32_as_i32 (ec_size c), cr_digest = digest_bytes (ec_digest c), cr_held = held \<rparr>"

definition new_chunk_index :: "chunk_manifest \<Rightarrow> chunk_manifest \<Rightarrow> u32 option" where
  "new_chunk_index decided locked =
     find (\<lambda>i. fmlookup (cm_chunks locked) i = None) (sorted_list_of_fset (fmdom (cm_chunks decided)))"

definition record_expected_chunk_tx ::
  "transfer_db \<Rightarrow> transfer_id \<Rightarrow> chunk_index \<Rightarrow> u32 \<Rightarrow> byte list \<Rightarrow> chunk_record_outcome transfer_tx" where
  "record_expected_chunk_tx db tid index sz bytes =
     with_locked_facts db tid (\<lambda>facts.
       case record_expected_chunk (lf_manifest facts) index sz bytes of
         Inl e \<Rightarrow> (db, Err (XRecord e))
       | Inr ChunkAlreadyRecorded \<Rightarrow> (db, Ok ChunkAlreadyRecorded)
       | Inr (ChunkAdded m) \<Rightarrow>
           (case new_chunk_index m (lf_manifest facts) of
              None \<Rightarrow> (db, Err XBackend)
            | Some i \<Rightarrow>
                (case fmlookup (cm_chunks m) i of
                   None \<Rightarrow> (db, Err XBackend)
                 | Some expected \<Rightarrow>
                     (case insert_chunk_identity (chunk_row_of (ar_id (lf_artifact facts)) expected False i) db of
                        None \<Rightarrow> (db, Err XBackend)
                      | Some db' \<Rightarrow> (db', Ok (ChunkAdded m))))))"

datatype accept_chunk_outcome = ChunkAccepted | ChunkAlreadyHeld

definition accept_verified_chunk_tx ::
  "transfer_db \<Rightarrow> transfer_id \<Rightarrow> chunk_index \<Rightarrow> byte list \<Rightarrow> accept_chunk_outcome transfer_tx" where
  "accept_verified_chunk_tx db tid index bytes =
     with_locked_facts db tid (\<lambda>facts.
       case validate_verified_chunk (lf_manifest facts) index bytes of
         Inl e \<Rightarrow> (db, Err (XAccept e))
       | Inr _ \<Rightarrow>
           if index |\<in>| lf_held facts then (db, Ok ChunkAlreadyHeld)
           else (mark_chunk_held (ar_id (lf_artifact facts)) (u32_as_i32 (index_value index)) db,
                 Ok ChunkAccepted))"

definition seal_manifest_tx ::
  "transfer_db \<Rightarrow> transfer_id \<Rightarrow> u32 \<Rightarrow> byte list \<Rightarrow> seal_outcome transfer_tx" where
  "seal_manifest_tx db tid count bytes =
     with_locked_facts db tid (\<lambda>facts.
       case manifest_seal (lf_manifest facts) count bytes of
         Inl e \<Rightarrow> (db, Err (XSeal e))
       | Inr AlreadySealed \<Rightarrow> (db, Ok AlreadySealed)
       | Inr (ManifestSealed m) \<Rightarrow>
           (case (cm_chunk_count m, cm_artifact_digest m) of
              (Some n, Some d) \<Rightarrow>
                (case persist_seal (ar_id (lf_artifact facts)) n d db of
                   None \<Rightarrow> (db, Err XBackend)
                 | Some db' \<Rightarrow> (db', Ok (ManifestSealed m)))
            | _ \<Rightarrow> (db, Err XBackend)))"

definition commit_artifact_transition ::
  "transfer_db \<Rightarrow> transfer_id \<Rightarrow> (transfer_locked_facts \<Rightarrow> artifact_transition_error + artifact)
    \<Rightarrow> artifact transfer_tx" where
  "commit_artifact_transition db tid decide =
     with_locked_facts db tid (\<lambda>facts.
       case decide facts of
         Inl e \<Rightarrow> (db, Err (XTransition e))
       | Inr updated \<Rightarrow> (update_artifact_state (ar_id updated) (ar_state updated) db, Ok updated))"

definition begin_artifact_verification_tx :: "transfer_db \<Rightarrow> transfer_id \<Rightarrow> artifact transfer_tx" where
  "begin_artifact_verification_tx db tid =
     commit_artifact_transition db tid
       (\<lambda>f. begin_verification (lf_artifact f) (lf_manifest f) (lf_held f))"

definition complete_artifact_verification_tx ::
  "transfer_db \<Rightarrow> transfer_id \<Rightarrow> bool \<Rightarrow> artifact transfer_tx" where
  "complete_artifact_verification_tx db tid digest_matches =
     commit_artifact_transition db tid (\<lambda>f. complete_verification (lf_artifact f) digest_matches)"

definition fail_incomplete_artifact_tx :: "transfer_db \<Rightarrow> transfer_id \<Rightarrow> artifact transfer_tx" where
  "fail_incomplete_artifact_tx db tid =
     commit_artifact_transition db tid (\<lambda>f. fail_incomplete (lf_artifact f))"

text \<open>The foreign key of \<open>transfers.attempt_id\<close> demands that the Attempt exists.\<close>

definition bind_attempt_tx :: "transfer_db \<Rightarrow> transfer_id \<Rightarrow> attempt \<Rightarrow> transfer transfer_tx" where
  "bind_attempt_tx db tid attempt =
     with_locked_facts db tid (\<lambda>facts.
       case bind_attempt (lf_transfer facts) attempt of
         Inl e \<Rightarrow> (db, Err (XBinding e))
       | Inr bound \<Rightarrow>
           (case tr_attempt_id bound of
              None \<Rightarrow> (db, Ok bound)
            | Some aid \<Rightarrow>
                if find_attempt (xd_jobs db) aid = None then (db, Err XBackend)
                else (case persist_attempt_binding tid aid (xd_jobs db) of
                    None \<Rightarrow> (db, Err XBackend)
                  | Some jobs' \<Rightarrow> (db\<lparr> xd_jobs := jobs' \<rparr>, Ok bound))))"

section \<open>Chunk acceptance\<close>

datatype chunk_acceptance_decided =
    CommitChunk chunk_record_outcome
  | RejectConflict
  | RejectNotContinuable
  | AcceptanceFailClosed

datatype chunk_acceptance_commit =
    AcceptanceCommitted
  | AcceptanceAlreadyCommitted
  | AcceptanceRejectedConflict
  | AcceptanceRejectedNotContinuable
  | AcceptanceFailedClosed

definition decide_chunk_acceptance ::
  "b64_engine \<Rightarrow> chunk_index \<Rightarrow> string \<Rightarrow> u32 \<Rightarrow> transfer_locked_facts \<Rightarrow> attempt option
    \<Rightarrow> chunk_acceptance_decided" where
  "decide_chunk_acceptance eng index digest_wire sz facts attempt =
     (let m = lf_manifest facts in
      if data_plane_operation_is_current ChunkUpload (ar_state (lf_artifact facts)) (cm_sealed m)
           (manifest_expected_chunk m index \<noteq> None) \<noteq> Ok ()
      then RejectNotContinuable
      else if map_option at_state attempt \<noteq> Some A_InProgress then RejectNotContinuable
      else if sz = 0 \<or> unat sz > unat (chunk_size_get (cm_chunk_size m)) then AcceptanceFailClosed
      else case digest_parse_wire_value eng (cm_digest_algorithm m) digest_wire of
        Inl _ \<Rightarrow> AcceptanceFailClosed
      | Inr d \<Rightarrow>
          (let proceed =
             (case record_expected_chunk m index sz (digest_bytes d) of
                Inr outcome \<Rightarrow> CommitChunk outcome
              | Inl (ChunkConflict _) \<Rightarrow> AcceptanceFailClosed
              | Inl NotContinuable \<Rightarrow> RejectNotContinuable
              | Inl (RecordInvalidDigestLength _) \<Rightarrow> AcceptanceFailClosed)
           in case manifest_expected_chunk m index of
                None \<Rightarrow> proceed
              | Some existing \<Rightarrow>
                  if ec_digest existing \<noteq> d then RejectConflict
                  else if ec_size existing \<noteq> sz then AcceptanceFailClosed
                  else proceed))"

definition commit_chunk_acceptance_tx ::
  "transfer_db \<Rightarrow> b64_engine \<Rightarrow> transfer_id \<Rightarrow> chunk_index \<Rightarrow> string \<Rightarrow> u32
    \<Rightarrow> chunk_acceptance_commit transfer_tx" where
  "commit_chunk_acceptance_tx db eng tid index digest_wire sz =
     with_locked_facts db tid (\<lambda>facts.
       case decide_chunk_acceptance eng index digest_wire sz facts
              (Option.bind (tr_attempt_id (lf_transfer facts)) (find_attempt (xd_jobs db))) of
         RejectConflict \<Rightarrow> (db, Ok AcceptanceRejectedConflict)
       | RejectNotContinuable \<Rightarrow> (db, Ok AcceptanceRejectedNotContinuable)
       | AcceptanceFailClosed \<Rightarrow> (db, Ok AcceptanceFailedClosed)
       | CommitChunk (ChunkAdded m) \<Rightarrow>
           (case manifest_expected_chunk m index of
              None \<Rightarrow> (db, Err XBackend)
            | Some expected \<Rightarrow>
                (case insert_chunk_identity
                        (chunk_row_of (ar_id (lf_artifact facts)) expected True (index_value index)) db of
                   None \<Rightarrow> (db, Err XBackend)
                 | Some db' \<Rightarrow> (db', Ok AcceptanceCommitted)))
       | CommitChunk ChunkAlreadyRecorded \<Rightarrow>
           if index |\<in>| lf_held facts then (db, Ok AcceptanceAlreadyCommitted)
           else (mark_chunk_held (ar_id (lf_artifact facts)) (u32_as_i32 (index_value index)) db,
                 Ok AcceptanceCommitted))"

text \<open>The service: an index beyond 32 bits and an unknown Transfer fail closed.\<close>

definition commit_chunk_acceptance ::
  "transfer_db \<Rightarrow> b64_engine \<Rightarrow> transfer_id \<Rightarrow> u64 \<Rightarrow> string \<Rightarrow> u32
    \<Rightarrow> chunk_acceptance_commit transfer_tx" where
  "commit_chunk_acceptance db eng tid chunk_index digest_wire sz =
     (case u64_to_u32 chunk_index of
        None \<Rightarrow> (db, Ok AcceptanceFailedClosed)
      | Some i \<Rightarrow>
          (case commit_chunk_acceptance_tx db eng tid (ChunkIndex i) digest_wire sz of
             (db', Inl XTransferNotFound) \<Rightarrow> (db', Ok AcceptanceFailedClosed)
           | r \<Rightarrow> r))"

section \<open>Sealing and verification\<close>

record authorization_durable_state =
  ad_transfer :: transfer
  ad_artifact :: artifact
  ad_manifest :: chunk_manifest
  ad_held :: "chunk_index fset"
  ad_attempt :: "attempt option"
  ad_endpoint :: endpoint_aggregate

datatype manifest_seal_decided =
    SealDenied
  | SealFailClosed
  | SealRejectIncomplete
  | SealRejectAlreadySealed
  | SealAlreadyPending
  | SealCommit u32 digest

record sealed_manifest_facts =
  sf_artifact_id :: artifact_id
  sf_digest_algorithm :: digest_algorithm
  sf_chunk_size :: u32
  sf_chunk_count :: u64
  sf_expected_artifact_digest :: string

datatype manifest_seal_commit =
    SealCommitDenied
  | SealCommitFailClosed
  | SealRejectedIncomplete
  | SealRejectedAlreadySealed
  | SealCommitAlreadyPending sealed_manifest_facts
  | SealCommitted sealed_manifest_facts

definition sealed_facts ::
  "b64_engine \<Rightarrow> authorization_durable_state \<Rightarrow> digest \<Rightarrow> u32 \<Rightarrow> sealed_manifest_facts" where
  "sealed_facts eng snapshot d count =
     \<lparr> sf_artifact_id = ar_id (ad_artifact snapshot),
       sf_digest_algorithm = cm_digest_algorithm (ad_manifest snapshot),
       sf_chunk_size = chunk_size_get (cm_chunk_size (ad_manifest snapshot)),
       sf_chunk_count = ucast count, sf_expected_artifact_digest = digest_to_wire_value eng d \<rparr>"

text \<open>
  The locked snapshot of a Transfer, its owning Attempt and its Endpoint; \<open>endpoints\<close> reads the
  endpoints table. A bound Attempt that is missing is an error for an authorization read and no
  Attempt for a seal.
\<close>

definition durable_state ::
  "transfer_locked_facts \<Rightarrow> attempt option \<Rightarrow> endpoint_aggregate \<Rightarrow> authorization_durable_state" where
  "durable_state facts attempt endpoint =
     \<lparr> ad_transfer = lf_transfer facts, ad_artifact = lf_artifact facts, ad_manifest = lf_manifest facts,
       ad_held = lf_held facts, ad_attempt = attempt, ad_endpoint = endpoint \<rparr>"

definition load_authorization_state ::
  "transfer_db \<Rightarrow> (endpoint_id \<Rightarrow> endpoint_aggregate option) \<Rightarrow> transfer_id
    \<Rightarrow> transfer_store_error + authorization_durable_state option" where
  "load_authorization_state db endpoints tid =
     (case load_locked_facts db tid of
        Inl e \<Rightarrow> Err e
      | Inr None \<Rightarrow> Ok None
      | Inr (Some facts) \<Rightarrow>
          (let attempt = Option.bind (tr_attempt_id (lf_transfer facts)) (find_attempt (xd_jobs db))
           in if tr_attempt_id (lf_transfer facts) \<noteq> None \<and> attempt = None then Err XBackend
              else case endpoints (tr_endpoint_id (lf_transfer facts)) of
                None \<Rightarrow> Err XBackend
              | Some e \<Rightarrow> Ok (Some (durable_state facts attempt e))))"

definition commit_manifest_seal_tx ::
  "transfer_db \<Rightarrow> b64_engine \<Rightarrow> (endpoint_id \<Rightarrow> endpoint_aggregate option) \<Rightarrow> transfer_id
    \<Rightarrow> (authorization_durable_state \<Rightarrow> 'r \<times> manifest_seal_decided) \<Rightarrow> 'r
    \<Rightarrow> 'r \<times> manifest_seal_commit transfer_tx" where
  "commit_manifest_seal_tx db eng endpoints tid decide untouched =
     (case load_locked_facts db tid of
        Inl e \<Rightarrow> (untouched, (db, Err e))
      | Inr None \<Rightarrow> (untouched, (db, Err XTransferNotFound))
      | Inr (Some facts) \<Rightarrow>
          (case endpoints (tr_endpoint_id (lf_transfer facts)) of
             None \<Rightarrow> (untouched, (db, Err XBackend))
           | Some e \<Rightarrow>
               (let attempt = Option.bind (tr_attempt_id (lf_transfer facts)) (find_attempt (xd_jobs db));
                    snapshot = durable_state facts attempt e;
                    (r, decided) = decide snapshot;
                    aid = ar_id (lf_artifact facts)
                in (r, case decided of
                     SealDenied \<Rightarrow> (db, Ok SealCommitDenied)
                   | SealFailClosed \<Rightarrow> (db, Ok SealCommitFailClosed)
                   | SealRejectIncomplete \<Rightarrow> (db, Ok SealRejectedIncomplete)
                   | SealRejectAlreadySealed \<Rightarrow> (db, Ok SealRejectedAlreadySealed)
                   | SealAlreadyPending \<Rightarrow>
                       (case (cm_chunk_count (lf_manifest facts), cm_artifact_digest (lf_manifest facts)) of
                          (Some n, Some d) \<Rightarrow> (db, Ok (SealCommitAlreadyPending (sealed_facts eng snapshot d n)))
                        | _ \<Rightarrow> (db, Err XBackend))
                   | SealCommit n d \<Rightarrow>
                       (case persist_seal aid n d db of
                          None \<Rightarrow> (db, Err XBackend)
                        | Some db' \<Rightarrow> (update_artifact_state aid Ar_PendingVerification db',
                            Ok (SealCommitted (sealed_facts eng snapshot d n))))))))"

datatype artifact_verification_commit = VerificationCommitted bool | VerificationFailClosed

record artifact_verification_input =
  vi_transfer_id :: transfer_id
  vi_artifact_id :: artifact_id
  vi_chunk_count :: u64
  vi_bound_expected_artifact_digest :: string
  vi_computed_artifact_digest :: string

definition decide_artifact_verification ::
  "b64_engine \<Rightarrow> artifact_verification_input \<Rightarrow> transfer_locked_facts \<Rightarrow> artifact option" where
  "decide_artifact_verification eng input facts =
     (if ar_id (lf_artifact facts) \<noteq> vi_artifact_id input \<or>
         tr_artifact_id (lf_transfer facts) \<noteq> vi_artifact_id input \<or>
         ar_state (lf_artifact facts) \<noteq> Ar_PendingVerification \<or>
         \<not> cm_sealed (lf_manifest facts) \<or>
         map_option (\<lambda>n. ucast n :: u64) (cm_chunk_count (lf_manifest facts)) \<noteq> Some (vi_chunk_count input)
      then None
      else case cm_artifact_digest (lf_manifest facts) of
        None \<Rightarrow> None
      | Some expected \<Rightarrow>
          if digest_to_wire_value eng expected \<noteq> vi_bound_expected_artifact_digest input then None
          else (case digest_parse_wire_value eng (cm_digest_algorithm (lf_manifest facts))
                       (vi_computed_artifact_digest input) of
              Inl _ \<Rightarrow> None
            | Inr computed \<Rightarrow>
                (case complete_verification (lf_artifact facts)
                        (digest_bytes computed = digest_bytes expected) of
                   Inl _ \<Rightarrow> None
                 | Inr updated \<Rightarrow> Some updated)))"

definition commit_artifact_verification ::
  "transfer_db \<Rightarrow> b64_engine \<Rightarrow> artifact_verification_input \<Rightarrow> artifact_verification_commit transfer_tx" where
  "commit_artifact_verification db eng input =
     (case load_locked_facts db (vi_transfer_id input) of
        Inl e \<Rightarrow> (db, Err e)
      | Inr None \<Rightarrow> (db, Ok VerificationFailClosed)
      | Inr (Some facts) \<Rightarrow>
          (case decide_artifact_verification eng input facts of
             None \<Rightarrow> (db, Ok VerificationFailClosed)
           | Some updated \<Rightarrow>
               (update_artifact_state (ar_id updated) (ar_state updated) db,
                Ok (VerificationCommitted (ar_state updated = Ar_Verified)))))"

end
