(* ===== verification/Replay_Cache.thy ===== *)
theory Replay_Cache
  imports Transfer_Authorization
begin

text \<open>
  The bounded cache of accepted proof identifiers, \<open>src/crates/server/src/runtime/replay_cache.rs\<close>.
  An entry carries the instant until which its proof may still be presented. One call evicts what is
  past its instant, refuses an identifier that is present, refuses a new one at capacity and records
  it otherwise.

  The lemmas give the outcome of a call, the bound on the number of entries along every sequence of
  calls, and how long an entry stays.
\<close>

definition DEFAULT_REPLAY_CACHE_CAPACITY :: nat where
  "DEFAULT_REPLAY_CACHE_CAPACITY = 2 ^ 16"

datatype replay_rejection = Replayed | CapacitySaturated

record replay_cache =
  rc_capacity :: nat
  rc_seen :: "(proof_id, time) fmap"

definition replay_cache_with_capacity :: "nat \<Rightarrow> replay_cache" where
  "replay_cache_with_capacity capacity = \<lparr> rc_capacity = max capacity 1, rc_seen = fmempty \<rparr>"

definition replay_cache_new :: replay_cache where
  "replay_cache_new = replay_cache_with_capacity DEFAULT_REPLAY_CACHE_CAPACITY"

definition check_and_insert ::
  "replay_cache \<Rightarrow> proof_id \<Rightarrow> time \<Rightarrow> time \<Rightarrow> replay_cache \<times> (replay_rejection + unit)" where
  "check_and_insert c proof_id now replay_valid_until =
     (let seen = map_retain (\<lambda>_ valid_until. now \<le> valid_until) (rc_seen c);
          at_capacity = map_len seen \<ge> rc_capacity c
      in case fmlookup seen proof_id of
           Some _ \<Rightarrow> (c\<lparr> rc_seen := seen \<rparr>, Err Replayed)
         | None \<Rightarrow>
             if at_capacity then (c\<lparr> rc_seen := seen \<rparr>, Err CapacitySaturated)
             else (c\<lparr> rc_seen := map_insert proof_id replay_valid_until seen \<rparr>, Ok ()))"

definition replay_cache_len :: "replay_cache \<Rightarrow> nat" where
  "replay_cache_len c = map_len (rc_seen c)"

text \<open>A call is an identifier, the caller's clock reading and the instant to keep it until.\<close>

type_synonym replay_call = "proof_id \<times> time \<times> time"

definition replay_call :: "replay_cache \<Rightarrow> replay_call \<Rightarrow> replay_cache" where
  "replay_call c call = (case call of (p, now, until) \<Rightarrow> fst (check_and_insert c p now until))"

definition replay_run :: "replay_cache \<Rightarrow> replay_call list \<Rightarrow> replay_cache" where
  "replay_run = foldl replay_call"

section \<open>One call\<close>

lemma check_and_insert_Ok_iff:
  "snd (check_and_insert c p now until) = Ok () \<longleftrightarrow>
     (\<forall>t. fmlookup (rc_seen c) p = Some t \<longrightarrow> t < now) \<and>
     map_len (map_retain (\<lambda>_ t. now \<le> t) (rc_seen c)) < rc_capacity c"
  by (auto simp: check_and_insert_def Let_def lookup_map_retain split: option.splits if_splits)

lemma check_and_insert_Replayed_iff:
  "snd (check_and_insert c p now until) = Err Replayed \<longleftrightarrow>
     (\<exists>t. fmlookup (rc_seen c) p = Some t \<and> now \<le> t)"
  by (auto simp: check_and_insert_def Let_def lookup_map_retain split: option.splits if_splits)

lemma check_and_insert_lookup:
  "fmlookup (rc_seen (fst (check_and_insert c p now until))) q =
     (if q = p \<and> snd (check_and_insert c p now until) = Ok () then Some until
      else case fmlookup (rc_seen c) q of
        None \<Rightarrow> None
      | Some t \<Rightarrow> if now \<le> t then Some t else None)"
  by (auto simp: check_and_insert_def Let_def lookup_map_retain split: option.splits if_splits)

lemma check_and_insert_capacity [simp]:
  "rc_capacity (fst (check_and_insert c p now until)) = rc_capacity c"
  by (auto simp: check_and_insert_def Let_def split: option.splits)

section \<open>The bound\<close>

definition replay_bounded :: "replay_cache \<Rightarrow> bool" where
  "replay_bounded c = (0 < rc_capacity c \<and> replay_cache_len c \<le> rc_capacity c)"

lemma check_and_insert_bounded:
  assumes "replay_bounded c"
  shows "replay_bounded (fst (check_and_insert c p now until))"
proof -
  let ?seen = "map_retain (\<lambda>_ t. now \<le> t) (rc_seen c)"
  have "map_len ?seen \<le> map_len (rc_seen c)" by (rule map_len_retain)
  then show ?thesis
    using assms
    by (auto simp: replay_bounded_def replay_cache_len_def check_and_insert_def Let_def
        split: option.splits)
qed

interpretation replay_machine: invariant_machine
    "\<lambda>c. \<exists>n. c = replay_cache_with_capacity n" "\<lambda>c d. \<exists>call. d = replay_call c call" replay_bounded
proof
  fix c assume "\<exists>n. c = replay_cache_with_capacity n"
  then show "replay_bounded c"
    by (auto simp: replay_bounded_def replay_cache_with_capacity_def replay_cache_len_def)
next
  fix c d assume "replay_bounded c" "\<exists>call. d = replay_call c call"
  then show "replay_bounded d" by (auto simp: replay_call_def check_and_insert_bounded split: prod.splits)
qed

lemma replay_run_steps: "(\<lambda>c d. \<exists>call. d = replay_call c call)\<^sup>*\<^sup>* c (replay_run c calls)"
proof (induction calls rule: rev_induct)
  case (snoc call calls)
  have "\<exists>x. replay_run c (calls @ [call]) = replay_call (replay_run c calls) x"
    by (rule exI [of _ call]) (simp add: replay_run_def)
  with snoc.IH show ?case by (rule rtranclp.rtrancl_into_rtrancl)
qed (simp add: replay_run_def)

lemma replay_run_capacity [simp]: "rc_capacity (replay_run c calls) = rc_capacity c"
  by (induction calls arbitrary: c) (auto simp: replay_run_def replay_call_def split: prod.splits)

section \<open>How long an entry stays\<close>

lemma entry_kept:
  assumes "fmlookup (rc_seen c) p = Some t" and "now \<le> t"
  shows "fmlookup (rc_seen (fst (check_and_insert c q now until))) p = Some t"
proof -
  have "snd (check_and_insert c p now until) \<noteq> Ok ()"
    using assms by (auto simp: check_and_insert_Ok_iff)
  then show ?thesis using assms by (auto simp: check_and_insert_lookup)
qed

lemma entry_kept_run:
  assumes "fmlookup (rc_seen c) p = Some t" and "\<forall>(q, now, until) \<in> set calls. now \<le> t"
  shows "fmlookup (rc_seen (replay_run c calls)) p = Some t"
  using assms
  by (induction calls arbitrary: c) (auto simp: replay_run_def replay_call_def entry_kept)

end
