(* ===== verification/Capability_Store.thy ===== *)
theory Capability_Store
  imports Transfer_Authorization
begin

text \<open>
  The bounded in-memory store of issued capabilities,
  \<open>src/crates/server/src/runtime/capability_store.rs\<close>. A store carries the authorization epoch of
  its process; issuing never overwrites and never evicts a live capability.
\<close>

definition DEFAULT_CAPABILITY_STORE_CAPACITY :: nat where
  "DEFAULT_CAPABILITY_STORE_CAPACITY = 4096"

datatype capability_issue_error = Saturated | IdCollision

record capability_store =
  cs_epoch :: process_authorization_epoch
  cs_capacity :: nat
  cs_capabilities :: "(capability_id, capability_binding) fmap"

definition capability_store_with_capacity ::
  "process_authorization_epoch \<Rightarrow> nat \<Rightarrow> capability_store" where
  "capability_store_with_capacity epoch capacity =
     \<lparr> cs_epoch = epoch, cs_capacity = max capacity 1, cs_capabilities = fmempty \<rparr>"

definition capability_store_new :: "process_authorization_epoch \<Rightarrow> capability_store" where
  "capability_store_new epoch = capability_store_with_capacity epoch DEFAULT_CAPABILITY_STORE_CAPACITY"

definition capability_issue ::
  "capability_store \<Rightarrow> capability_id \<Rightarrow> capability_binding
    \<Rightarrow> capability_store \<times> (capability_issue_error + unit)" where
  "capability_issue s cid binding =
     (let at_capacity = map_len (cs_capabilities s) \<ge> cs_capacity s
      in case fmlookup (cs_capabilities s) cid of
           Some _ \<Rightarrow> (s, Err IdCollision)
         | None \<Rightarrow>
             if at_capacity then (s, Err Saturated)
             else (s\<lparr> cs_capabilities := map_insert cid binding (cs_capabilities s) \<rparr>, Ok ()))"

definition capability_lookup :: "capability_store \<Rightarrow> capability_id \<Rightarrow> capability_binding option" where
  "capability_lookup s cid = fmlookup (cs_capabilities s) cid"

definition capability_evict_expired :: "capability_store \<Rightarrow> time \<Rightarrow> capability_store" where
  "capability_evict_expired s now =
     s\<lparr> cs_capabilities := map_retain (\<lambda>_ b. cb_expires_at b > now) (cs_capabilities s) \<rparr>"

section \<open>Invariant\<close>

text \<open>Every binding carries the epoch of its store, and the store keeps within its capacity.\<close>

definition capability_store_ok :: "capability_store \<Rightarrow> bool" where
  "capability_store_ok s \<longleftrightarrow>
     0 < cs_capacity s \<and> map_len (cs_capabilities s) \<le> cs_capacity s \<and>
     (\<forall>cid b. fmlookup (cs_capabilities s) cid = Some b \<longrightarrow> cb_epoch b = cs_epoch s)"

lemma capability_store_new_ok: "capability_store_ok (capability_store_with_capacity epoch n)"
  by (simp add: capability_store_ok_def capability_store_with_capacity_def)

lemma capability_evict_ok:
  assumes "capability_store_ok s"
  shows "capability_store_ok (capability_evict_expired s now)"
proof -
  have "map_len (map_retain (\<lambda>_ b. cb_expires_at b > now) (cs_capabilities s))
      \<le> map_len (cs_capabilities s)" by (rule map_len_retain)
  then show ?thesis
    using assms by (auto simp: capability_store_ok_def capability_evict_expired_def lookup_map_retain
        split: if_splits option.splits)
qed

lemma capability_issue_ok:
  assumes "capability_store_ok s" and "cb_epoch b = cs_epoch s"
  shows "capability_store_ok (fst (capability_issue s cid b))"
  using assms by (auto simp: capability_store_ok_def capability_issue_def Let_def
      split: option.splits if_splits)

lemma capability_issue_lookup:
  "capability_lookup (fst (capability_issue s cid b)) x =
     (if x = cid \<and> snd (capability_issue s cid b) = Ok () then Some b else capability_lookup s x)"
  by (auto simp: capability_issue_def capability_lookup_def Let_def split: option.splits)

lemma capability_issue_keeps:
  "capability_lookup s x = Some c \<Longrightarrow> capability_lookup (fst (capability_issue s cid b)) x = Some c"
  by (auto simp: capability_issue_lookup capability_issue_def capability_lookup_def Let_def
      split: option.splits if_splits)

lemma capability_evict_lookup:
  "capability_lookup (capability_evict_expired s now) x = Some b \<longleftrightarrow>
     capability_lookup s x = Some b \<and> now < cb_expires_at b"
  by (auto simp: capability_lookup_def capability_evict_expired_def lookup_map_retain
      split: option.splits if_splits)

lemma capability_ops_frame [simp]:
  "cs_epoch (fst (capability_issue s cid b)) = cs_epoch s"
  "cs_epoch (capability_evict_expired s now) = cs_epoch s"
  by (auto simp: capability_issue_def capability_evict_expired_def Let_def split: option.splits)

end
