(* ===== verification/Authorization_Service.thy ===== *)
theory Authorization_Service
  imports Transfer_Store Replay_Cache Capability_Store
begin

text \<open>
  The services that grant and check transfer capabilities: \<open>TransferAuthorizationService\<close> and
  \<open>ManifestSealService\<close> of \<open>src/crates/server/src/application/mod.rs\<close>.

  A request looks its capability up, reads the clock, loads the durable state and only then asks the
  replay cache; other requests run in between. The definitions therefore take the capability store
  as it is at the lookup, the clock reading, the loaded state and the replay cache as it is at the
  insertion as four arguments, and give back the cache.
\<close>

text \<open>
  What the services get from outside: the base64 engine, SHA-256, the two Ed25519 operations and
  chrono's greatest instant.
\<close>

record auth_env =
  en_b64 :: b64_engine
  en_sha256 :: "byte list \<Rightarrow> byte list"
  en_valid_key :: "byte list \<Rightarrow> bool"
  en_verify_strict :: "byte list \<Rightarrow> byte list \<Rightarrow> byte list \<Rightarrow> bool"
  en_max_utc :: time
  en_capability_ttl :: duration
  en_data_plane_base_url :: string

section \<open>Issuing\<close>

datatype transfer_authorization_outcome =
    AuthorizationGranted (granted_token: string) (granted_until: time) (granted_url: string)
  | AuthorizationDenied
  | AuthorizationProtocolViolation

primrec action_uuid :: "action_id \<Rightarrow> uuid" where
  "action_uuid (ActionId u) = u"

text \<open>
  The presented \<open>ProtocolId\<close> and the one made of the Attempt's action compare as UUIDs. \<open>entropy\<close>
  is what the token is generated from.
\<close>

definition issue_authorization ::
  "auth_env \<Rightarrow> capability_store \<Rightarrow> time \<Rightarrow> transfer_store_error + authorization_durable_state option
    \<Rightarrow> byte list \<Rightarrow> endpoint_id \<Rightarrow> uuid \<Rightarrow> transfer_id \<Rightarrow> string
    \<Rightarrow> capability_store \<times> (transfer_store_error + transfer_authorization_outcome)" where
  "issue_authorization env caps now loaded entropy endpoint presented tid key_wire =
     (case key_parse_wire_value (en_b64 env) (en_valid_key env) key_wire of
        Inl _ \<Rightarrow> (caps, Ok AuthorizationDenied)
      | Inr public_key \<Rightarrow>
          (case loaded of
             Inl e \<Rightarrow> (caps, Err e)
           | Inr None \<Rightarrow> (caps, Ok AuthorizationDenied)
           | Inr (Some state) \<Rightarrow>
               if tr_endpoint_id (ad_transfer state) \<noteq> endpoint then (caps, Ok AuthorizationDenied)
               else case ad_attempt state of
                 None \<Rightarrow> (caps, Ok AuthorizationDenied)
               | Some attempt \<Rightarrow>
                   if at_state attempt \<noteq> A_InProgress then (caps, Ok AuthorizationDenied)
                   else if presented \<noteq> action_uuid (at_action_id attempt)
                   then (caps, Ok AuthorizationProtocolViolation)
                   else if chain_dimension (ep_credential (ad_endpoint state)) now \<noteq> CredentialActive
                   then (caps, Ok AuthorizationDenied)
                   else
                     (let token = token_generate (en_b64 env) entropy;
                          cid = capability_id_from_token (en_sha256 env) token;
                          expires_at = now + en_capability_ttl env;
                          binding = \<lparr> cb_endpoint_id = endpoint, cb_transfer_id = tid,
                            cb_artifact_id = tr_artifact_id (ad_transfer state),
                            cb_direction = tr_direction (ad_transfer state),
                            cb_attempt_id = at_id attempt, cb_proof_public_key = public_key,
                            cb_expires_at = expires_at, cb_epoch = cs_epoch caps \<rparr>
                      in case capability_issue (capability_evict_expired caps now) cid binding of
                           (caps', Inl _) \<Rightarrow> (caps', Ok AuthorizationDenied)
                         | (caps', Inr _) \<Rightarrow>
                             (caps', Ok (AuthorizationGranted (token_str token) expires_at
                               (en_data_plane_base_url env))))))"

section \<open>Authorizing a request of the Worker\<close>

record worker_authorization_query_input =
  wq_token :: string
  wq_operation :: authorization_operation
  wq_transfer_id :: uuid
  wq_chunk_index :: "u64 option"
  wq_proof_id :: string
  wq_issued_at_millis :: u64
  wq_signature :: string



text \<open>The instant a proof is kept until; a millisecond count chrono cannot represent becomes its
  greatest instant.\<close>

definition replay_valid_until :: "auth_env \<Rightarrow> u64 \<Rightarrow> time" where
  "replay_valid_until env issued_at =
     (let ms = max (- (2 ^ 63)) (min (2 ^ 63 - 1) (proof_replay_valid_until_millis issued_at))
      in if from_timestamp_millis ms \<le> en_max_utc env then from_timestamp_millis ms
         else en_max_utc env)"

text \<open>
  The part of a check that needs no durable state: capability, scope, proof format, freshness and
  signature. It gives the binding and the proof identifier.
\<close>

definition check_proof ::
  "auth_env \<Rightarrow> capability_store \<Rightarrow> time \<Rightarrow> authorization_operation \<Rightarrow> transfer_id \<Rightarrow> u64 option
    \<Rightarrow> string \<Rightarrow> string \<Rightarrow> u64 \<Rightarrow> string \<Rightarrow> (capability_binding \<times> proof_id) option" where
  "check_proof env caps now operation tid chunk_index token proof_wire issued_at signature_wire =
     (let cid = capability_id_from_token_bytes (en_sha256 env) (ascii_bytes token)
      in case capability_lookup caps cid of
           None \<Rightarrow> None
         | Some binding \<Rightarrow>
             if capability_is_current binding now (cs_epoch caps) \<noteq> Ok () then None
             else if capability_matches_request binding
                       \<lparr> rq_operation = operation, rq_transfer_id = tid,
                         rq_artifact_id = cb_artifact_id binding, rq_direction = cb_direction binding,
                         rq_chunk_index = chunk_index \<rparr> \<noteq> Ok () then None
             else case proof_id_parse_wire_value (en_b64 env) proof_wire of
               Inl _ \<Rightarrow> None
             | Inr pid \<Rightarrow>
                 (case proof_signature_parse_wire_value (en_b64 env) signature_wire of
                    Inl _ \<Rightarrow> None
                  | Inr signature \<Rightarrow>
                      if proof_is_fresh issued_at now \<noteq> Ok () then None
                      else if \<not> verify_proof_signature (en_verify_strict env)
                                (cb_proof_public_key binding)
                                (build_proof_transcript cid
                                  \<lparr> pf_operation = operation, pf_transfer_id = tid,
                                    pf_artifact_id = cb_artifact_id binding,
                                    pf_direction = cb_direction binding, pf_chunk_index = chunk_index,
                                    pf_proof_id = pid, pf_issued_at_millis = issued_at \<rparr>)
                                signature then None
                      else Some (binding, pid)))"

text \<open>Whether the durable state still backs a binding.\<close>

definition binding_is_backed ::
  "capability_binding \<Rightarrow> time \<Rightarrow> authorization_durable_state \<Rightarrow> bool" where
  "binding_is_backed binding now state =
     (if tr_endpoint_id (ad_transfer state) \<noteq> cb_endpoint_id binding \<or>
         tr_artifact_id (ad_transfer state) \<noteq> cb_artifact_id binding \<or>
         tr_direction (ad_transfer state) \<noteq> cb_direction binding then False
      else case ad_attempt state of
        None \<Rightarrow> False
      | Some attempt \<Rightarrow>
          at_id attempt = cb_attempt_id binding \<and> at_state attempt = A_InProgress \<and>
          chain_dimension (ep_credential (ad_endpoint state)) now = CredentialActive)"

definition query_is_eligible ::
  "worker_authorization_query_input \<Rightarrow> authorization_durable_state \<Rightarrow> bool" where
  "query_is_eligible input state =
     (let eligible = (\<lambda>has_identity. data_plane_operation_is_current (wq_operation input)
            (ar_state (ad_artifact state)) (cm_sealed (ad_manifest state)) has_identity = Ok ())
      in case wq_chunk_index input of
           None \<Rightarrow> eligible False
         | Some index \<Rightarrow>
             (case u64_to_u32 index of
                None \<Rightarrow> False
              | Some i \<Rightarrow> eligible (manifest_expected_chunk (ad_manifest state) (ChunkIndex i) \<noteq> None)))"

definition authorize_request ::
  "auth_env \<Rightarrow> capability_store \<Rightarrow> time \<Rightarrow> transfer_store_error + authorization_durable_state option
    \<Rightarrow> replay_cache \<Rightarrow> worker_authorization_query_input
    \<Rightarrow> replay_cache \<times> (transfer_store_error + authorization_durable_state option)" where
  "authorize_request env caps now loaded replay input =
     (case check_proof env caps now (wq_operation input) (TransferId (wq_transfer_id input))
             (wq_chunk_index input) (wq_token input) (wq_proof_id input) (wq_issued_at_millis input)
             (wq_signature input) of
        None \<Rightarrow> (replay, Ok None)
      | Some (binding, pid) \<Rightarrow>
          (case loaded of
             Inl e \<Rightarrow> (replay, Err e)
           | Inr None \<Rightarrow> (replay, Ok None)
           | Inr (Some state) \<Rightarrow>
               if \<not> binding_is_backed binding now state then (replay, Ok None)
               else if \<not> query_is_eligible input state then (replay, Ok None)
               else case check_and_insert replay pid now
                           (replay_valid_until env (wq_issued_at_millis input)) of
                 (replay', Inl _) \<Rightarrow> (replay', Ok None)
               | (replay', Inr _) \<Rightarrow> (replay', Ok (Some state))))"

datatype worker_authorization_outcome =
    WorkerApproved digest_algorithm u32 "string option"
  | WorkerDenied

definition decide_authorization ::
  "auth_env \<Rightarrow> capability_store \<Rightarrow> time \<Rightarrow> transfer_store_error + authorization_durable_state option
    \<Rightarrow> replay_cache \<Rightarrow> worker_authorization_query_input
    \<Rightarrow> replay_cache \<times> (transfer_store_error + worker_authorization_outcome)" where
  "decide_authorization env caps now loaded replay input =
     (case authorize_request env caps now loaded replay input of
        (replay', Inl e) \<Rightarrow> (replay', Err e)
      | (replay', Inr None) \<Rightarrow> (replay', Ok WorkerDenied)
      | (replay', Inr (Some state)) \<Rightarrow>
          (replay', Ok (WorkerApproved (cm_digest_algorithm (ad_manifest state))
            (chunk_size_get (cm_chunk_size (ad_manifest state)))
            (case Option.bind (wq_chunk_index input) u64_to_u32 of
               None \<Rightarrow> None
             | Some index \<Rightarrow>
                 map_option (\<lambda>c. digest_to_wire_value (en_b64 env) (ec_digest c))
                   (manifest_expected_chunk (ad_manifest state) (ChunkIndex index))))))"

section \<open>Resume discovery\<close>

record resume_held_chunk =
  rh_chunk_index :: u64
  rh_digest_wire :: string

record resume_snapshot_facts =
  rs_transfer_id :: transfer_id
  rs_sealed :: bool
  rs_digest_algorithm :: digest_algorithm
  rs_chunk_size :: u32
  rs_expected_chunk_count :: "u64 option"
  rs_held :: "resume_held_chunk list"

datatype resume_authorization_outcome = ResumeApproved resume_snapshot_facts | ResumeDenied

fun collect_held ::
  "b64_engine \<Rightarrow> chunk_manifest \<Rightarrow> u32 list \<Rightarrow> transfer_store_error + resume_held_chunk list" where
  "collect_held eng m [] = Ok []"
| "collect_held eng m (i # is) =
     (case manifest_expected_chunk m (ChunkIndex i) of
        None \<Rightarrow> Err XBackend
      | Some expected \<Rightarrow>
          (case collect_held eng m is of
             Inl e \<Rightarrow> Err e
           | Inr held \<Rightarrow>
               Ok (\<lparr> rh_chunk_index = ucast i,
                     rh_digest_wire = digest_to_wire_value eng (ec_digest expected) \<rparr> # held)))"

definition authorize_resume_discovery ::
  "auth_env \<Rightarrow> capability_store \<Rightarrow> time \<Rightarrow> transfer_store_error + authorization_durable_state option
    \<Rightarrow> replay_cache \<Rightarrow> worker_authorization_query_input
    \<Rightarrow> replay_cache \<times> (transfer_store_error + resume_authorization_outcome)" where
  "authorize_resume_discovery env caps now loaded replay input =
     (case authorize_request env caps now loaded replay input of
        (replay', Inl e) \<Rightarrow> (replay', Err e)
      | (replay', Inr None) \<Rightarrow> (replay', Ok ResumeDenied)
      | (replay', Inr (Some state)) \<Rightarrow>
          (case collect_held (en_b64 env) (ad_manifest state)
                  (sorted_list_of_fset (index_value |`| ad_held state)) of
             Inl e \<Rightarrow> (replay', Err e)
           | Inr held \<Rightarrow>
               (replay', Ok (ResumeApproved
                 \<lparr> rs_transfer_id = tr_id (ad_transfer state), rs_sealed = cm_sealed (ad_manifest state),
                   rs_digest_algorithm = cm_digest_algorithm (ad_manifest state),
                   rs_chunk_size = chunk_size_get (cm_chunk_size (ad_manifest state)),
                   rs_expected_chunk_count =
                     (if cm_sealed (ad_manifest state)
                      then map_option (\<lambda>n. ucast n) (cm_chunk_count (ad_manifest state)) else None),
                   rs_held = held \<rparr>))))"

section \<open>Sealing\<close>

record manifest_seal_input =
  si_token :: string
  si_transfer_id :: uuid
  si_proof_id :: string
  si_issued_at_millis :: u64
  si_signature :: string
  si_chunk_count :: u64
  si_artifact_digest :: string

text \<open>What a request that passed authorization and the replay check seals.\<close>

definition compose_seal :: "u32 \<Rightarrow> digest \<Rightarrow> authorization_durable_state \<Rightarrow> manifest_seal_decided" where
  "compose_seal count d state =
     (case ar_state (ad_artifact state) of
        Ar_Incomplete \<Rightarrow>
          if cm_sealed (ad_manifest state) then SealFailClosed
          else (case manifest_seal (ad_manifest state) count (digest_bytes d) of
              Inr (ManifestSealed sealed) \<Rightarrow>
                (case begin_verification (ad_artifact state) sealed (ad_held state) of
                   Inr _ \<Rightarrow> SealCommit count d
                 | Inl IncompleteChunks \<Rightarrow> SealRejectIncomplete
                 | Inl _ \<Rightarrow> SealFailClosed)
            | Inl IncompleteChunkSet \<Rightarrow> SealRejectIncomplete
            | Inl NonContiguousIndices \<Rightarrow> SealRejectIncomplete
            | _ \<Rightarrow> SealFailClosed)
      | Ar_PendingVerification \<Rightarrow>
          if \<not> cm_sealed (ad_manifest state) then SealFailClosed
          else (case manifest_seal (ad_manifest state) count (digest_bytes d) of
              Inr AlreadySealed \<Rightarrow> SealAlreadyPending
            | Inl ConflictingReseal \<Rightarrow> SealRejectAlreadySealed
            | _ \<Rightarrow> SealFailClosed)
      | Ar_Verified \<Rightarrow> SealDenied
      | Ar_Failed \<Rightarrow> SealDenied)"

definition decide_manifest_seal ::
  "auth_env \<Rightarrow> capability_binding \<Rightarrow> proof_id \<Rightarrow> time \<Rightarrow> u64 \<Rightarrow> u32 \<Rightarrow> string \<Rightarrow> replay_cache
    \<Rightarrow> authorization_durable_state \<Rightarrow> replay_cache \<times> manifest_seal_decided" where
  "decide_manifest_seal env binding pid now issued_at count digest_wire replay state =
     (if \<not> binding_is_backed binding now state then (replay, SealDenied)
      else if data_plane_operation_is_current SealManifest (ar_state (ad_artifact state))
                (cm_sealed (ad_manifest state)) False \<noteq> Ok () then (replay, SealDenied)
      else case digest_parse_wire_value (en_b64 env) (cm_digest_algorithm (ad_manifest state))
                  digest_wire of
        Inl _ \<Rightarrow> (replay, SealFailClosed)
      | Inr d \<Rightarrow>
          (case check_and_insert replay pid now (replay_valid_until env issued_at) of
             (replay', Inl _) \<Rightarrow> (replay', SealDenied)
           | (replay', Inr _) \<Rightarrow> (replay', compose_seal count d state)))"

definition commit_manifest_seal ::
  "auth_env \<Rightarrow> capability_store \<Rightarrow> time \<Rightarrow> (endpoint_id \<Rightarrow> endpoint_aggregate option) \<Rightarrow> replay_cache
    \<Rightarrow> transfer_db \<Rightarrow> manifest_seal_input \<Rightarrow> replay_cache \<times> manifest_seal_commit transfer_tx" where
  "commit_manifest_seal env caps now endpoints replay db input =
     (case check_proof env caps now SealManifest (TransferId (si_transfer_id input)) None
             (si_token input) (si_proof_id input) (si_issued_at_millis input) (si_signature input) of
        None \<Rightarrow> (replay, (db, Ok SealCommitDenied))
      | Some (binding, pid) \<Rightarrow>
          (case u64_to_u32 (si_chunk_count input) of
             None \<Rightarrow> (replay, (db, Ok SealCommitFailClosed))
           | Some count \<Rightarrow>
               (case commit_manifest_seal_tx db (en_b64 env) endpoints
                       (TransferId (si_transfer_id input))
                       (decide_manifest_seal env binding pid now (si_issued_at_millis input) count
                          (si_artifact_digest input) replay) replay of
                  (replay', (db', Inl XTransferNotFound)) \<Rightarrow> (replay', (db', Ok SealCommitDenied))
                | r \<Rightarrow> r)))"

end
