(* ===== verification/Transfer_Refine.thy ===== *)
theory Transfer_Refine
  imports Authorization_Service
begin

text \<open>
  The transfer tables implement an abstract store that maps a Transfer to its Domain values. The
  abstraction is what \<open>load_locked_facts\<close> reads back; the invariant \<open>transfer_inv\<close> makes that read
  total. Each statement of the repository is shown to keep the invariant and to change exactly the
  value of the Transfer it is about.
\<close>

section \<open>Invariant\<close>

definition row_index :: "chunk_row \<Rightarrow> u32" where
  "row_index r = i32_as_u32 (cr_index r)"

definition row_chunk :: "chunk_row \<Rightarrow> expected_chunk" where
  "row_chunk r = \<lparr> ec_index = ChunkIndex (row_index r), ec_size = i32_as_u32 (cr_size r),
     ec_digest = Digest (cr_digest r) \<rparr>"

definition chunk_row_ok :: "chunk_row \<Rightarrow> bool" where
  "chunk_row_ok r \<longleftrightarrow> 0 \<le> cr_index r \<and> cr_index r < 2 ^ 31 \<and> 0 < cr_size r \<and> length (cr_digest r) = 32"

definition rows_for :: "transfer_db \<Rightarrow> artifact_id \<Rightarrow> chunk_row set" where
  "rows_for db aid = {r \<in> set (xd_chunks db). cr_artifact_id r = aid}"

definition seal_ok :: "transfer_db \<Rightarrow> manifest_row \<Rightarrow> bool" where
  "seal_ok db mr \<longleftrightarrow>
     (if mr_sealed mr
      then \<exists>n d. mr_chunk_count mr = Some n \<and> mr_artifact_digest mr = Some d \<and> 0 \<le> n \<and> n < 2 ^ 31 \<and>
             length d = 32 \<and> cr_index ` rows_for db (mr_artifact_id mr) = {0..<n}
      else mr_chunk_count mr = None \<and> mr_artifact_digest mr = None)"

definition artifact_backed :: "transfer_db \<Rightarrow> artifact \<Rightarrow> bool" where
  "artifact_backed db a \<longleftrightarrow>
     (ar_state a = Ar_PendingVerification \<or> ar_state a = Ar_Verified \<longrightarrow>
       (\<forall>mr \<in> set (xd_manifests db). mr_artifact_id mr = ar_id a \<longrightarrow> mr_sealed mr) \<and>
       (\<forall>r \<in> rows_for db (ar_id a). cr_held r))"

definition transfer_rows_ok :: "transfer_db \<Rightarrow> bool" where
  "transfer_rows_ok db \<longleftrightarrow>
     distinct (map tr_id (jd_transfers (xd_jobs db))) \<and>
     distinct (map tr_artifact_id (jd_transfers (xd_jobs db))) \<and>
     (\<forall>t \<in> set (jd_transfers (xd_jobs db)). chunk_size_get (tr_chunk_size t) \<noteq> 0 \<and>
        tr_artifact_id t \<in> ar_id ` set (xd_artifacts db) \<and>
        tr_artifact_id t \<in> mr_artifact_id ` set (xd_manifests db))"

definition transfer_inv :: "transfer_db \<Rightarrow> bool" where
  "transfer_inv db \<longleftrightarrow>
     transfer_rows_ok db \<and>
     distinct (map ar_id (xd_artifacts db)) \<and> distinct (map mr_artifact_id (xd_manifests db)) \<and>
     distinct (map (\<lambda>r. (cr_artifact_id r, cr_index r)) (xd_chunks db)) \<and>
     (\<forall>r \<in> set (xd_chunks db). chunk_row_ok r \<and> cr_artifact_id r \<in> mr_artifact_id ` set (xd_manifests db)) \<and>
     (\<forall>mr \<in> set (xd_manifests db). seal_ok db mr) \<and>
     (\<forall>a \<in> set (xd_artifacts db). artifact_backed db a)"

section \<open>Reading the rows back\<close>

text \<open>\<open>facts_of db t f\<close> says what the rows of a Transfer mean, without an order on them.\<close>

definition facts_of :: "transfer_db \<Rightarrow> transfer \<Rightarrow> transfer_locked_facts \<Rightarrow> bool" where
  "facts_of db t f \<longleftrightarrow>
     lf_transfer f = t \<and> lf_artifact f \<in> set (xd_artifacts db) \<and> ar_id (lf_artifact f) = tr_artifact_id t \<and>
     cm_artifact_id (lf_manifest f) = tr_artifact_id t \<and>
     cm_digest_algorithm (lf_manifest f) = tr_digest_algorithm t \<and>
     cm_chunk_size (lf_manifest f) = tr_chunk_size t \<and>
     (\<forall>i c. fmlookup (cm_chunks (lf_manifest f)) i = Some c \<longleftrightarrow>
        (\<exists>r \<in> rows_for db (tr_artifact_id t). row_index r = i \<and> row_chunk r = c)) \<and>
     (\<forall>i. ChunkIndex i |\<in>| lf_held f \<longleftrightarrow>
        (\<exists>r \<in> rows_for db (tr_artifact_id t). row_index r = i \<and> cr_held r)) \<and>
     (\<exists>mr \<in> set (xd_manifests db). mr_artifact_id mr = tr_artifact_id t \<and>
        cm_sealed (lf_manifest f) = mr_sealed mr \<and>
        cm_chunk_count (lf_manifest f) = map_option i32_as_u32 (mr_chunk_count mr) \<and>
        cm_artifact_digest (lf_manifest f) = map_option Digest (mr_artifact_digest mr))"

lemma distinct_map_eq:
  "distinct (map f xs) \<Longrightarrow> x \<in> set xs \<Longrightarrow> y \<in> set xs \<Longrightarrow> f x = f y \<Longrightarrow> x = y"
  by (auto simp: distinct_map dest: inj_onD)

lemma chunk_manifest_eqI:
  assumes "cm_artifact_id m = cm_artifact_id n" and "cm_digest_algorithm m = cm_digest_algorithm n"
    and "cm_chunk_size m = cm_chunk_size n" and "cm_sealed m = cm_sealed n"
    and "cm_chunk_count m = cm_chunk_count n" and "cm_artifact_digest m = cm_artifact_digest n"
    and "\<And>i c. fmlookup (cm_chunks m) i = Some c \<longleftrightarrow> fmlookup (cm_chunks n) i = Some c"
  shows "m = (n :: chunk_manifest)"
proof -
  have "cm_chunks m = cm_chunks n"
    by (rule fmap_ext) (metis assms(7) option.exhaust)
  with assms show ?thesis by simp
qed

lemma held_eqI:
  assumes "\<And>i. ChunkIndex i |\<in>| A \<longleftrightarrow> ChunkIndex i |\<in>| B"
  shows "A = B"
proof (rule fset_eqI)
  fix x show "x |\<in>| A \<longleftrightarrow> x |\<in>| B" by (cases x) (simp add: assms)
qed

lemma facts_of_unique:
  assumes inv: "transfer_inv db" and f: "facts_of db t f" and g: "facts_of db t g"
  shows "f = g"
proof -
  have art: "lf_artifact f = lf_artifact g"
    using inv f g by (auto simp: transfer_inv_def facts_of_def intro: distinct_map_eq)
  obtain m n where "m \<in> set (xd_manifests db)" "mr_artifact_id m = tr_artifact_id t"
      "n \<in> set (xd_manifests db)" "mr_artifact_id n = tr_artifact_id t"
    and sealed: "cm_sealed (lf_manifest f) = mr_sealed m"
      "cm_chunk_count (lf_manifest f) = map_option i32_as_u32 (mr_chunk_count m)"
      "cm_artifact_digest (lf_manifest f) = map_option Digest (mr_artifact_digest m)"
      "cm_sealed (lf_manifest g) = mr_sealed n"
      "cm_chunk_count (lf_manifest g) = map_option i32_as_u32 (mr_chunk_count n)"
      "cm_artifact_digest (lf_manifest g) = map_option Digest (mr_artifact_digest n)"
    using f g unfolding facts_of_def by blast
  then have "m = n" using inv by (auto simp: transfer_inv_def intro: distinct_map_eq)
  then have "lf_manifest f = lf_manifest g"
    using f g sealed by (intro chunk_manifest_eqI) (simp_all add: facts_of_def)
  moreover have "lf_held f = lf_held g"
    using f g by (intro held_eqI) (simp add: facts_of_def)
  ultimately show ?thesis using art f g by (simp add: facts_of_def)
qed

lemma row_index_inject:
  assumes "chunk_row_ok r" and "chunk_row_ok q"
  shows "row_index r = row_index q \<longleftrightarrow> cr_index r = cr_index q"
  using assms by (metis chunk_row_ok_def i32_roundtrip(1) row_index_def)

lemma replay_rows:
  assumes "\<not> cm_sealed m" and "\<forall>r \<in> set rs. chunk_row_ok r" and "distinct (map row_index rs)"
    and "\<forall>r \<in> set rs. fmlookup (cm_chunks m) (row_index r) = None"
  shows "\<exists>m' held'. replay_chunk_rows rs m held = Ok (m', held') \<and>
     m' = m\<lparr> cm_chunks := cm_chunks m' \<rparr> \<and>
     (\<forall>i c. fmlookup (cm_chunks m') i = Some c \<longleftrightarrow>
        fmlookup (cm_chunks m) i = Some c \<or> (\<exists>r \<in> set rs. row_index r = i \<and> row_chunk r = c)) \<and>
     (\<forall>i. ChunkIndex i |\<in>| held' \<longleftrightarrow>
        ChunkIndex i |\<in>| held \<or> (\<exists>r \<in> set rs. row_index r = i \<and> cr_held r))"
  using assms
proof (induction rs arbitrary: m held)
  case Nil
  then show ?case by simp
next
  case (Cons r rs)
  let ?m = "m\<lparr> cm_chunks := map_insert (row_index r) (row_chunk r) (cm_chunks m) \<rparr>"
  let ?h = "if cr_held r then finsert (ChunkIndex (row_index r)) held else held"
  have step: "replay_chunk_rows (r # rs) m held = replay_chunk_rows rs ?m ?h"
    using Cons.prems
    by (cases "cm_digest_algorithm m")
      (simp add: record_expected_chunk_def digest_new_def digest_len_def chunk_row_ok_def row_chunk_def
        row_index_def Let_def)
  have "\<exists>m' held'. replay_chunk_rows rs ?m ?h = Ok (m', held') \<and>
     m' = ?m\<lparr> cm_chunks := cm_chunks m' \<rparr> \<and>
     (\<forall>i c. fmlookup (cm_chunks m') i = Some c \<longleftrightarrow>
        fmlookup (cm_chunks ?m) i = Some c \<or> (\<exists>r \<in> set rs. row_index r = i \<and> row_chunk r = c)) \<and>
     (\<forall>i. ChunkIndex i |\<in>| held' \<longleftrightarrow>
        ChunkIndex i |\<in>| ?h \<or> (\<exists>r \<in> set rs. row_index r = i \<and> cr_held r))"
    using Cons.prems by (intro Cons.IH) (auto simp: image_iff)
  then obtain m' held' where rest: "replay_chunk_rows rs ?m ?h = Ok (m', held')"
    "m' = ?m\<lparr> cm_chunks := cm_chunks m' \<rparr>"
    and look: "\<And>i c. fmlookup (cm_chunks m') i = Some c \<longleftrightarrow>
        fmlookup (cm_chunks ?m) i = Some c \<or> (\<exists>r \<in> set rs. row_index r = i \<and> row_chunk r = c)"
    and held: "\<And>i. ChunkIndex i |\<in>| held' \<longleftrightarrow>
        ChunkIndex i |\<in>| ?h \<or> (\<exists>r \<in> set rs. row_index r = i \<and> cr_held r)"
    by blast
  have "fmlookup (cm_chunks m) (row_index r) = None" using Cons.prems(4) by simp
  then have "\<And>i c. fmlookup (cm_chunks m') i = Some c \<longleftrightarrow>
      fmlookup (cm_chunks m) i = Some c \<or> (\<exists>r \<in> set (r # rs). row_index r = i \<and> row_chunk r = c)"
    using look by auto
  moreover have "\<And>i. ChunkIndex i |\<in>| held' \<longleftrightarrow>
      ChunkIndex i |\<in>| held \<or> (\<exists>r \<in> set (r # rs). row_index r = i \<and> cr_held r)"
    using held by auto
  moreover have "m' = m\<lparr> cm_chunks := cm_chunks m' \<rparr>" using rest(2) by (metis chunk_manifest.surjective chunk_manifest.update_convs(4))
  ultimately show ?case using step rest(1) by auto
qed

lemma manifest_seal_exact:
  assumes "\<not> cm_sealed m" and "length bs = digest_len (cm_digest_algorithm m)"
    and dom: "fmdom' (cm_chunks m) = {i. i < n}"
  shows "manifest_seal m n bs = Ok (ManifestSealed (m\<lparr> cm_sealed := True, cm_chunk_count := Some n,
           cm_artifact_digest := Some (Digest bs) \<rparr>))"
proof -
  have "map_len (cm_chunks m) = card (fmdom' (cm_chunks m))"
    by (simp add: map_len_def fcard.rep_eq fmdom'_alt_def)
  then have len: "map_len (cm_chunks m) = unat n" by (simp add: dom card_words_below)
  have "fmlookup (cm_chunks m) (word_of_nat k) \<noteq> None" if "k < unat n" for k
  proof -
    have "unat (word_of_nat k :: u32) = k"
      using that unat_lt2p_u32 [of n] by (simp add: unat_of_nat)
    then have "word_of_nat k \<in> fmdom' (cm_chunks m)"
      using that by (simp add: dom word_less_nat_alt)
    then show ?thesis by (auto simp: fmlookup_dom'_iff)
  qed
  then have all: "list_all (\<lambda>i. fmlookup (cm_chunks m) (word_of_nat i) \<noteq> None) [0..<unat n]"
    by (simp add: list_all_iff)
  show ?thesis using assms(1,2) len all by (simp add: manifest_seal_def digest_new_def)
qed

lemma column_range:
  assumes "0 \<le> n" and "n < 2 ^ 31"
  shows "i32_as_u32 ` {0..<n} = {i. i < i32_as_u32 n}"
proof (intro equalityI subsetI)
  fix i assume "i \<in> i32_as_u32 ` {0..<n}"
  then obtain k where k: "i = i32_as_u32 k" "0 \<le> k" "k < n" by auto
  then show "i \<in> {i. i < i32_as_u32 n}"
    using assms by (simp add: word_less_def i32_roundtrip(2))
next
  fix i assume "i \<in> {i. i < i32_as_u32 n}"
  then have "uint i < n" using assms by (simp add: word_less_def i32_roundtrip(2))
  moreover have "i = i32_as_u32 (uint i)" by (simp add: i32_as_u32_def)
  moreover have "0 \<le> uint i" by simp
  ultimately show "i \<in> i32_as_u32 ` {0..<n}" by auto
qed

lemma reapply_seal_rows:
  assumes "seal_ok db mr" and "\<not> cm_sealed m" and "cm_chunk_count m = None" and "cm_artifact_digest m = None"
    and look: "\<And>i c. fmlookup (cm_chunks m) i = Some c \<longleftrightarrow>
      (\<exists>r \<in> rows_for db (mr_artifact_id mr). row_index r = i \<and> row_chunk r = c)"
  shows "reapply_seal mr m = Ok (m\<lparr> cm_sealed := mr_sealed mr,
     cm_chunk_count := map_option i32_as_u32 (mr_chunk_count mr),
     cm_artifact_digest := map_option Digest (mr_artifact_digest mr) \<rparr>)"
proof (cases "mr_sealed mr")
  case False
  with assms show ?thesis by (simp add: reapply_seal_def seal_ok_def)
next
  case True
  then obtain n d where nd: "mr_chunk_count mr = Some n" "mr_artifact_digest mr = Some d" "0 \<le> n" "n < 2 ^ 31"
      "length d = 32" "cr_index ` rows_for db (mr_artifact_id mr) = {0..<n}"
    using assms(1) by (auto simp: seal_ok_def)
  have "fmdom' (cm_chunks m) = row_index ` rows_for db (mr_artifact_id mr)"
    by (force simp: fmlookup_dom'_iff look)
  also have "\<dots> = i32_as_u32 ` cr_index ` rows_for db (mr_artifact_id mr)"
    by (simp add: row_index_def image_image)
  also have "\<dots> = {i. i < i32_as_u32 n}" using nd column_range by simp
  finally have dom: "fmdom' (cm_chunks m) = {i. i < i32_as_u32 n}" .
  have "length d = digest_len (cm_digest_algorithm m)"
    using nd by (cases "cm_digest_algorithm m") (simp add: digest_len_def)
  from manifest_seal_exact [OF assms(2) this dom] show ?thesis
    using True nd by (simp add: reapply_seal_def)
qed

lemma find_by_key:
  "distinct (map f xs) \<Longrightarrow> find (\<lambda>x. f x = k) xs = Some x \<longleftrightarrow> x \<in> set xs \<and> f x = k"
  by (induction xs) (auto simp: image_iff)

lemma chunk_rows_of_facts:
  assumes "transfer_inv db"
  shows "set (chunk_rows_of db aid) = rows_for db aid"
    and "\<forall>r \<in> set (chunk_rows_of db aid). chunk_row_ok r"
    and "distinct (map row_index (chunk_rows_of db aid))"
proof -
  show rows: "set (chunk_rows_of db aid) = rows_for db aid"
    by (auto simp: chunk_rows_of_def rows_for_def)
  then show ok: "\<forall>r \<in> set (chunk_rows_of db aid). chunk_row_ok r"
    using assms by (auto simp: transfer_inv_def rows_for_def)
  have dist: "distinct (map (\<lambda>r. (cr_artifact_id r, cr_index r)) (xd_chunks db))"
    using assms by (simp add: transfer_inv_def)
  then have "distinct (chunk_rows_of db aid)"
    by (simp add: chunk_rows_of_def distinct_map)
  moreover have "inj_on row_index (set (chunk_rows_of db aid))"
  proof (rule inj_onI)
    fix r q assume "r \<in> set (chunk_rows_of db aid)" "q \<in> set (chunk_rows_of db aid)"
      and "row_index r = row_index q"
    then show "r = q"
      using ok dist by (auto simp: rows rows_for_def row_index_inject intro: distinct_map_eq)
  qed
  ultimately show "distinct (map row_index (chunk_rows_of db aid))" by (simp add: distinct_map)
qed

lemma find_transfer_iff:
  "transfer_inv db \<Longrightarrow>
   find_transfer (xd_jobs db) tid = Some t \<longleftrightarrow> t \<in> set (jd_transfers (xd_jobs db)) \<and> tr_id t = tid"
  by (simp add: transfer_inv_def transfer_rows_ok_def find_transfer_def find_by_key)

lemma load_transfer_row_ok:
  "chunk_size_get (tr_chunk_size t) \<noteq> 0 \<Longrightarrow> load_transfer_row t = Ok t"
  by (cases "tr_chunk_size t") (simp add: load_transfer_row_def chunk_size_new_def chunk_size_get_def)

lemma load_locked_facts_known:
  assumes inv: "transfer_inv db" and t: "find_transfer (xd_jobs db) tid = Some t"
  shows "\<exists>f. load_locked_facts db tid = Ok (Some f) \<and> facts_of db t f"
proof -
  let ?aid = "tr_artifact_id t"
  have tin: "t \<in> set (jd_transfers (xd_jobs db))" using find_transfer_iff [OF inv] t by simp
  have row: "load_transfer_row t = Ok t"
    using inv tin by (intro load_transfer_row_ok) (auto simp: transfer_inv_def transfer_rows_ok_def)
  have dist: "distinct (map ar_id (xd_artifacts db))" "distinct (map mr_artifact_id (xd_manifests db))"
    using inv by (simp_all add: transfer_inv_def)
  obtain a where a: "a \<in> set (xd_artifacts db)" "ar_id a = ?aid"
    using inv tin by (fastforce simp: transfer_inv_def transfer_rows_ok_def)
  obtain mr where mr: "mr \<in> set (xd_manifests db)" "mr_artifact_id mr = ?aid"
    using inv tin by (fastforce simp: transfer_inv_def transfer_rows_ok_def)
  have found: "find_artifact db ?aid = Some a" "find_manifest_row db ?aid = Some mr"
    using a mr dist by (simp_all add: find_artifact_def find_manifest_row_def find_by_key)
  let ?m0 = "manifest_new ?aid (tr_digest_algorithm t) (tr_chunk_size t)"
  obtain m held where replay: "replay_chunk_rows (chunk_rows_of db ?aid) ?m0 {||} = Ok (m, held)"
    and m: "m = ?m0\<lparr> cm_chunks := cm_chunks m \<rparr>"
    and look: "\<And>i c. fmlookup (cm_chunks m) i = Some c \<longleftrightarrow>
        (\<exists>r \<in> rows_for db ?aid. row_index r = i \<and> row_chunk r = c)"
    and held: "\<And>i. ChunkIndex i |\<in>| held \<longleftrightarrow> (\<exists>r \<in> rows_for db ?aid. row_index r = i \<and> cr_held r)"
    using replay_rows [of ?m0 "chunk_rows_of db ?aid" "{||}"] chunk_rows_of_facts [OF inv, of ?aid]
    by (auto simp: manifest_new_def)
  have m_fields: "cm_artifact_id m = ?aid" "cm_digest_algorithm m = tr_digest_algorithm t"
      "cm_chunk_size m = tr_chunk_size t" "\<not> cm_sealed m" "cm_chunk_count m = None"
      "cm_artifact_digest m = None"
    by (subst m, simp add: manifest_new_def)+
  let ?m1 = "m\<lparr> cm_sealed := mr_sealed mr, cm_chunk_count := map_option i32_as_u32 (mr_chunk_count mr),
     cm_artifact_digest := map_option Digest (mr_artifact_digest mr) \<rparr>"
  have "reapply_seal mr m = Ok ?m1"
    using inv mr m_fields look by (intro reapply_seal_rows [of db]) (auto simp: transfer_inv_def)
  then have "load_locked_facts db tid =
      Ok (Some \<lparr> lf_transfer = t, lf_artifact = a, lf_manifest = ?m1, lf_held = held \<rparr>)"
    using t row found replay
    by (simp add: load_locked_facts_def load_locked_transfer_and_artifact_def)
  moreover have "facts_of db t \<lparr> lf_transfer = t, lf_artifact = a, lf_manifest = ?m1, lf_held = held \<rparr>"
    using a mr m_fields look held by (auto simp: facts_of_def)
  ultimately show ?thesis by blast
qed

lemma load_locked_facts_iff:
  assumes "transfer_inv db"
  shows "load_locked_facts db tid = Ok (Some f) \<longleftrightarrow>
    (\<exists>t. find_transfer (xd_jobs db) tid = Some t \<and> facts_of db t f)"
proof
  assume l: "load_locked_facts db tid = Ok (Some f)"
  then obtain t where "find_transfer (xd_jobs db) tid = Some t"
    by (cases "find_transfer (xd_jobs db) tid")
      (auto simp: load_locked_facts_def load_locked_transfer_and_artifact_def)
  with load_locked_facts_known [OF assms this] l
  show "\<exists>t. find_transfer (xd_jobs db) tid = Some t \<and> facts_of db t f" by auto
next
  assume "\<exists>t. find_transfer (xd_jobs db) tid = Some t \<and> facts_of db t f"
  then obtain t where t: "find_transfer (xd_jobs db) tid = Some t" "facts_of db t f" by blast
  then obtain g where "load_locked_facts db tid = Ok (Some g)" "facts_of db t g"
    using load_locked_facts_known [OF assms] by blast
  with facts_of_unique [OF assms] t(2) show "load_locked_facts db tid = Ok (Some f)" by blast
qed

lemma load_locked_facts_unknown:
  "find_transfer (xd_jobs db) tid = None \<Longrightarrow> load_locked_facts db tid = Ok None"
  by (simp add: load_locked_facts_def load_locked_transfer_and_artifact_def)

section \<open>The abstract store\<close>

type_synonym transfer_spec = "transfer_id \<rightharpoonup> transfer_locked_facts"

definition abs_transfers :: "transfer_db \<Rightarrow> transfer_spec" where
  "abs_transfers db tid = (case load_locked_facts db tid of Inl _ \<Rightarrow> None | Inr x \<Rightarrow> x)"

lemma load_abs: "transfer_inv db \<Longrightarrow> load_locked_facts db tid = Ok (abs_transfers db tid)"
  using load_locked_facts_known [of db tid] load_locked_facts_unknown [of db tid]
  by (cases "find_transfer (xd_jobs db) tid") (auto simp: abs_transfers_def)

lemma abs_transfers_iff:
  "transfer_inv db \<Longrightarrow> abs_transfers db tid = Some f \<longleftrightarrow>
     (\<exists>t. find_transfer (xd_jobs db) tid = Some t \<and> facts_of db t f)"
  using load_locked_facts_iff [of db tid f] load_abs [of db tid] by simp

lemma with_locked_facts_abs:
  "transfer_inv db \<Longrightarrow>
   with_locked_facts db tid body =
     (case abs_transfers db tid of None \<Rightarrow> (db, Err XTransferNotFound) | Some f \<Rightarrow> body f)"
  by (simp add: with_locked_facts_def load_abs split: option.splits)

section \<open>Statements\<close>

text \<open>A statement about one Artifact leaves the values of every other Transfer alone.\<close>

definition same_rows :: "artifact_id \<Rightarrow> transfer_db \<Rightarrow> transfer_db \<Rightarrow> bool" where
  "same_rows aid db db' \<longleftrightarrow>
     {a \<in> set (xd_artifacts db). ar_id a = aid} = {a \<in> set (xd_artifacts db'). ar_id a = aid} \<and>
     {m \<in> set (xd_manifests db). mr_artifact_id m = aid} = {m \<in> set (xd_manifests db'). mr_artifact_id m = aid} \<and>
     rows_for db aid = rows_for db' aid"

lemma same_rowsI:
  assumes "\<And>a. ar_id a = aid \<Longrightarrow> a \<in> set (xd_artifacts db) \<longleftrightarrow> a \<in> set (xd_artifacts db')"
    and "\<And>m. mr_artifact_id m = aid \<Longrightarrow> m \<in> set (xd_manifests db) \<longleftrightarrow> m \<in> set (xd_manifests db')"
    and "\<And>r. cr_artifact_id r = aid \<Longrightarrow> r \<in> set (xd_chunks db) \<longleftrightarrow> r \<in> set (xd_chunks db')"
  shows "same_rows aid db db'"
  using assms by (auto simp: same_rows_def rows_for_def)

lemma facts_of_same_rows:
  assumes "same_rows (tr_artifact_id t) db db'" and "facts_of db t f"
  shows "facts_of db' t f"
proof -
  have "\<exists>mr \<in> set (xd_manifests db'). mr_artifact_id mr = tr_artifact_id t \<and> P mr"
    if "\<exists>mr \<in> set (xd_manifests db). mr_artifact_id mr = tr_artifact_id t \<and> P mr" for P
    using that assms(1) unfolding same_rows_def by blast
  moreover have "lf_artifact f \<in> set (xd_artifacts db')"
    using assms unfolding same_rows_def facts_of_def by blast
  ultimately show ?thesis
    using assms unfolding facts_of_def same_rows_def by presburger
qed

lemma abs_update:
  assumes inv: "transfer_inv db" "transfer_inv db'"
    and jobs: "xd_jobs db' = xd_jobs db"
    and t: "find_transfer (xd_jobs db) tid = Some t"
    and f: "facts_of db' t f"
    and others: "\<And>aid. aid \<noteq> tr_artifact_id t \<Longrightarrow> same_rows aid db db'"
  shows "abs_transfers db' = (abs_transfers db)(tid \<mapsto> f)"
proof
  fix x
  show "abs_transfers db' x = ((abs_transfers db)(tid \<mapsto> f)) x"
  proof (cases "x = tid")
    case True
    have "abs_transfers db' tid = Some f"
      using t f by (subst abs_transfers_iff [OF inv(2)]) (auto simp: jobs)
    with True show ?thesis by simp
  next
    case False
    show ?thesis
    proof (cases "find_transfer (xd_jobs db) x")
      case None
      with False show ?thesis by (simp add: abs_transfers_def load_locked_facts_unknown jobs)
    next
      case (Some u)
      then obtain g where g: "facts_of db u g" "abs_transfers db x = Some g"
        using load_locked_facts_known [OF inv(1) Some] by (auto simp: abs_transfers_def)
      have "u \<noteq> t" using Some t False inv(1) by (auto simp: find_transfer_iff)
      then have "tr_artifact_id u \<noteq> tr_artifact_id t"
        using Some t inv(1)
        by (auto simp: find_transfer_iff transfer_inv_def transfer_rows_ok_def dest: distinct_map_eq)
      then have "facts_of db' u g" using g(1) others by (blast intro: facts_of_same_rows)
      then have "abs_transfers db' x = Some g"
        using Some by (subst abs_transfers_iff [OF inv(2)]) (auto simp: jobs)
      with False g(2) show ?thesis by simp
    qed
  qed
qed

text \<open>The invariant seen from one Transfer.\<close>

lemma facts_of_manifest_row:
  assumes "transfer_inv db" and "facts_of db t f"
    and "mr \<in> set (xd_manifests db)" and "mr_artifact_id mr = tr_artifact_id t"
  shows "cm_sealed (lf_manifest f) = mr_sealed mr"
    "cm_chunk_count (lf_manifest f) = map_option i32_as_u32 (mr_chunk_count mr)"
    "cm_artifact_digest (lf_manifest f) = map_option Digest (mr_artifact_digest mr)"
proof -
  obtain q where q: "q \<in> set (xd_manifests db)" "mr_artifact_id q = tr_artifact_id t"
    "cm_sealed (lf_manifest f) = mr_sealed q"
    "cm_chunk_count (lf_manifest f) = map_option i32_as_u32 (mr_chunk_count q)"
    "cm_artifact_digest (lf_manifest f) = map_option Digest (mr_artifact_digest q)"
    using assms(2) unfolding facts_of_def by blast
  moreover have "q = mr"
    using assms q(1,2) by (auto simp: transfer_inv_def intro: distinct_map_eq)
  ultimately show "cm_sealed (lf_manifest f) = mr_sealed mr"
    "cm_chunk_count (lf_manifest f) = map_option i32_as_u32 (mr_chunk_count mr)"
    "cm_artifact_digest (lf_manifest f) = map_option Digest (mr_artifact_digest mr)" by simp_all
qed

lemma facts_of_dom:
  assumes "facts_of db t f"
  shows "fmdom' (cm_chunks (lf_manifest f)) = row_index ` rows_for db (tr_artifact_id t)"
  using assms by (force simp: facts_of_def fmlookup_dom'_iff)

definition facts_ok :: "transfer_locked_facts \<Rightarrow> bool" where
  "facts_ok f \<longleftrightarrow>
     manifest_wf (lf_manifest f) \<and> cm_artifact_id (lf_manifest f) = ar_id (lf_artifact f) \<and>
     tr_artifact_id (lf_transfer f) = ar_id (lf_artifact f) \<and>
     lf_held f |\<subseteq>| chunk_indices (lf_manifest f) \<and>
     (ar_state (lf_artifact f) = Ar_PendingVerification \<or> ar_state (lf_artifact f) = Ar_Verified \<longrightarrow>
        cm_sealed (lf_manifest f) \<and> lf_held f = chunk_indices (lf_manifest f))"

lemma in_chunk_indices:
  "ChunkIndex i |\<in>| chunk_indices m \<longleftrightarrow> fmlookup (cm_chunks m) i \<noteq> None"
  by (auto simp: chunk_indices_def fimage_iff fmlookup_dom_iff)

lemma facts_of_manifest_wf:
  assumes inv: "transfer_inv db" and f: "facts_of db t f"
  shows "manifest_wf (lf_manifest f)"
proof -
  obtain mr where mr: "mr \<in> set (xd_manifests db)" "mr_artifact_id mr = tr_artifact_id t"
    using f unfolding facts_of_def by blast
  have seal: "seal_ok db mr" using inv mr by (simp add: transfer_inv_def)
  note row = facts_of_manifest_row [OF inv f mr]
  have alg: "digest_len (cm_digest_algorithm (lf_manifest f)) = 32"
    by (cases "cm_digest_algorithm (lf_manifest f)") (simp add: digest_len_def)
  have chunks: "ec_index c = ChunkIndex i \<and> length (digest_bytes (ec_digest c)) = 32"
    if "fmlookup (cm_chunks (lf_manifest f)) i = Some c" for i c
    using that inv f
    by (auto simp: facts_of_def row_chunk_def rows_for_def transfer_inv_def chunk_row_ok_def)
  show ?thesis
  proof (cases "mr_sealed mr")
    case False
    then show ?thesis using chunks row seal alg by (auto simp: manifest_wf_def wf_digest_def seal_ok_def)
  next
    case True
    then obtain n d where nd: "mr_chunk_count mr = Some n" "mr_artifact_digest mr = Some d"
      "0 \<le> n" "n < 2 ^ 31" "length d = 32" "cr_index ` rows_for db (tr_artifact_id t) = {0..<n}"
      using seal mr by (auto simp: seal_ok_def)
    have "fmdom' (cm_chunks (lf_manifest f)) = i32_as_u32 ` cr_index ` rows_for db (tr_artifact_id t)"
      by (simp add: facts_of_dom [OF f] row_index_def image_image)
    then have "fmdom' (cm_chunks (lf_manifest f)) = {i. i < i32_as_u32 n}"
      using nd column_range by simp
    then show ?thesis
      using True chunks row nd alg by (auto simp: manifest_wf_def wf_digest_def)
  qed
qed

lemma facts_of_ok:
  assumes inv: "transfer_inv db" and f: "facts_of db t f"
  shows "facts_ok f"
proof -
  have sub: "lf_held f |\<subseteq>| chunk_indices (lf_manifest f)"
  proof
    fix x assume "x |\<in>| lf_held f"
    then show "x |\<in>| chunk_indices (lf_manifest f)"
      using f by (cases x) (auto simp: facts_of_def in_chunk_indices)
  qed
  have "cm_sealed (lf_manifest f) \<and> lf_held f = chunk_indices (lf_manifest f)"
    if "ar_state (lf_artifact f) = Ar_PendingVerification \<or> ar_state (lf_artifact f) = Ar_Verified"
  proof -
    have b: "artifact_backed db (lf_artifact f)" and a: "ar_id (lf_artifact f) = tr_artifact_id t"
      using inv f by (auto simp: transfer_inv_def facts_of_def)
    obtain mr where mr: "mr \<in> set (xd_manifests db)" "mr_artifact_id mr = tr_artifact_id t"
      using f unfolding facts_of_def by blast
    have "cm_sealed (lf_manifest f)"
      using b a that mr facts_of_manifest_row(1) [OF inv f mr] by (auto simp: artifact_backed_def)
    moreover have "lf_held f = chunk_indices (lf_manifest f)"
    proof (rule held_eqI)
      fix i show "ChunkIndex i |\<in>| lf_held f \<longleftrightarrow> ChunkIndex i |\<in>| chunk_indices (lf_manifest f)"
        using f b a that by (fastforce simp: facts_of_def in_chunk_indices artifact_backed_def)
    qed
    ultimately show ?thesis by blast
  qed
  then show ?thesis
    using sub f facts_of_manifest_wf [OF inv f] by (auto simp: facts_ok_def facts_of_def)
qed

lemma facts_of_chunks:
  assumes "facts_of db t f" and "xd_artifacts db' = xd_artifacts db" and "xd_manifests db' = xd_manifests db"
    and "\<And>i c. fmlookup chunks i = Some c \<longleftrightarrow>
      (\<exists>r \<in> rows_for db' (tr_artifact_id t). row_index r = i \<and> row_chunk r = c)"
    and "\<And>i. ChunkIndex i |\<in>| held \<longleftrightarrow>
      (\<exists>r \<in> rows_for db' (tr_artifact_id t). row_index r = i \<and> cr_held r)"
  shows "facts_of db' t (f\<lparr> lf_manifest := (lf_manifest f)\<lparr> cm_chunks := chunks \<rparr>, lf_held := held \<rparr>)"
  using assms by (simp add: facts_of_def)

text \<open>What the integer columns can hold of a chunk.\<close>

definition storable :: "u32 \<Rightarrow> u32 \<Rightarrow> bool" where
  "storable i sz \<longleftrightarrow> uint i < 2 ^ 31 \<and> 0 < uint sz \<and> uint sz < 2 ^ 31"

lemma u32_as_i32_pos_iff: "0 < u32_as_i32 w \<longleftrightarrow> 0 < uint w \<and> uint w < 2 ^ 31"
proof (cases "uint w < 2 ^ 31")
  case True
  then show ?thesis by (simp add: u32_as_i32_nonneg)
next
  case False
  then have "\<not> 0 \<le> u32_as_i32 w" using u32_as_i32_nonneg_iff [of w] by blast
  with False show ?thesis by auto
qed

lemma row_of_chunk [simp]:
  "cr_artifact_id (chunk_row_of aid c held i) = aid" "row_index (chunk_row_of aid c held i) = i"
  "cr_held (chunk_row_of aid c held i) = held" "cr_index (chunk_row_of aid c held i) = u32_as_i32 i"
  by (simp_all add: chunk_row_of_def row_index_def)

lemma row_chunk_of: "ec_index c = ChunkIndex i \<Longrightarrow> row_chunk (chunk_row_of aid c held i) = c"
  by (simp add: row_chunk_def row_index_def chunk_row_of_def)

lemma chunk_row_of_ok:
  assumes "storable i (ec_size c)" and "length (digest_bytes (ec_digest c)) = 32"
  shows "chunk_row_ok (chunk_row_of aid c held i)"
  using assms u32_as_i32_nonneg_iff [of i] u32_as_i32_bounds(2) [of i] u32_as_i32_pos_iff [of "ec_size c"]
  by (simp add: chunk_row_ok_def chunk_row_of_def storable_def)

lemma insert_chunk_identity_iff:
  assumes inv: "transfer_inv db" and f: "facts_of db t f"
    and new: "fmlookup (cm_chunks (lf_manifest f)) i = None"
    and d: "length (digest_bytes (ec_digest c)) = 32"
  shows "insert_chunk_identity (chunk_row_of (tr_artifact_id t) c held i) db =
    (if storable i (ec_size c)
     then Some (db\<lparr> xd_chunks := xd_chunks db @ [chunk_row_of (tr_artifact_id t) c held i] \<rparr>) else None)"
proof -
  have "\<not> list_ex (\<lambda>q. cr_artifact_id q = tr_artifact_id t \<and> cr_index q = u32_as_i32 i) (xd_chunks db)"
  proof
    assume "list_ex (\<lambda>q. cr_artifact_id q = tr_artifact_id t \<and> cr_index q = u32_as_i32 i) (xd_chunks db)"
    then obtain q where "q \<in> rows_for db (tr_artifact_id t)" "row_index q = i"
      by (auto simp: list_ex_iff rows_for_def row_index_def)
    with f have "fmlookup (cm_chunks (lf_manifest f)) i = Some (row_chunk q)" by (auto simp: facts_of_def)
    with new show False by simp
  qed
  moreover have "u32_as_i32 i < 0 \<or> u32_as_i32 (ec_size c) \<le> 0 \<longleftrightarrow> \<not> storable i (ec_size c)"
    using u32_as_i32_nonneg_iff [of i] u32_as_i32_pos_iff [of "ec_size c"] unfolding storable_def by linarith
  ultimately show ?thesis
    using d by (auto simp: insert_chunk_identity_def chunk_row_of_def)
qed

lemma abs_insert_identity:
  fixes f :: transfer_locked_facts and held :: bool
  assumes inv: "transfer_inv db" and t: "find_transfer (xd_jobs db) tid = Some t" and f: "facts_of db t f"
    and open_manifest: "\<not> cm_sealed (lf_manifest f)"
    and new: "fmlookup (cm_chunks (lf_manifest f)) i = None"
    and c: "ec_index c = ChunkIndex i" "length (digest_bytes (ec_digest c)) = 32" "storable i (ec_size c)"
  defines "db' \<equiv> db\<lparr> xd_chunks := xd_chunks db @ [chunk_row_of (tr_artifact_id t) c held i] \<rparr>"
  shows "transfer_inv db' \<and>
    abs_transfers db' = (abs_transfers db)(tid \<mapsto>
      f\<lparr> lf_manifest := (lf_manifest f)\<lparr> cm_chunks := map_insert i c (cm_chunks (lf_manifest f)) \<rparr>,
         lf_held := if held then finsert (ChunkIndex i) (lf_held f) else lf_held f \<rparr>)"
proof -
  let ?aid = "tr_artifact_id t" and ?row = "chunk_row_of (tr_artifact_id t) c held i"
  have mr_open: "\<not> mr_sealed mr" if "mr \<in> set (xd_manifests db)" "mr_artifact_id mr = ?aid" for mr
    using facts_of_manifest_row(1) [OF inv f that] open_manifest by simp
  have tin: "t \<in> set (jd_transfers (xd_jobs db))" using t by (simp add: find_transfer_iff [OF inv])
  then have known: "?aid \<in> mr_artifact_id ` set (xd_manifests db)"
    using inv by (simp add: transfer_inv_def transfer_rows_ok_def)
  have rows: "rows_for db' x = (if x = ?aid then insert ?row (rows_for db x) else rows_for db x)" for x
    by (auto simp: rows_for_def db'_def)
  have fresh: "(?aid, u32_as_i32 i) \<notin> (\<lambda>r. (cr_artifact_id r, cr_index r)) ` set (xd_chunks db)"
  proof
    assume "(?aid, u32_as_i32 i) \<in> (\<lambda>r. (cr_artifact_id r, cr_index r)) ` set (xd_chunks db)"
    then obtain q where q: "q \<in> rows_for db ?aid" "cr_index q = u32_as_i32 i"
      by (auto simp: rows_for_def)
    then have "row_index q = i" by (simp add: row_index_def)
    with q(1) f have "fmlookup (cm_chunks (lf_manifest f)) i = Some (row_chunk q)"
      unfolding facts_of_def by blast
    with new show False by simp
  qed
  have seals: "seal_ok db' mr" if "mr \<in> set (xd_manifests db)" for mr
  proof -
    have "seal_ok db mr" using inv that by (simp add: transfer_inv_def)
    then show ?thesis using mr_open [OF that] by (auto simp: seal_ok_def rows)
  qed
  have backed: "artifact_backed db' a" if "a \<in> set (xd_artifacts db)" for a
  proof -
    have "artifact_backed db a" using inv that by (simp add: transfer_inv_def)
    moreover have "xd_manifests db' = xd_manifests db" by (simp add: db'_def)
    moreover obtain mr where "mr \<in> set (xd_manifests db)" "?aid = mr_artifact_id mr" using known by blast
    ultimately show ?thesis using mr_open [of mr] by (auto simp: artifact_backed_def rows)
  qed
  have inv': "transfer_inv db'"
    using inv fresh known seals backed chunk_row_of_ok [OF c(3,2), of ?aid held]
    by (auto simp: transfer_inv_def transfer_rows_ok_def db'_def)
  have look: "fmlookup (cm_chunks (lf_manifest f)) j = Some x \<longleftrightarrow>
      (\<exists>r \<in> rows_for db ?aid. row_index r = j \<and> row_chunk r = x)" for j x
    using f by (simp add: facts_of_def)
  have held_iff: "ChunkIndex j |\<in>| lf_held f \<longleftrightarrow> (\<exists>r \<in> rows_for db ?aid. row_index r = j \<and> cr_held r)" for j
    using f by (simp add: facts_of_def)
  have "facts_of db' t (f\<lparr> lf_manifest := (lf_manifest f)\<lparr> cm_chunks := map_insert i c (cm_chunks (lf_manifest f)) \<rparr>,
         lf_held := if held then finsert (ChunkIndex i) (lf_held f) else lf_held f \<rparr>)"
  proof (rule facts_of_chunks [OF f])
    fix j x
    show "fmlookup (map_insert i c (cm_chunks (lf_manifest f))) j = Some x \<longleftrightarrow>
        (\<exists>r \<in> rows_for db' ?aid. row_index r = j \<and> row_chunk r = x)"
    proof (cases "j = i")
      case True
      have "\<not> (\<exists>r \<in> rows_for db ?aid. row_index r = i)" using look [of i] new by auto
      then show ?thesis using True row_chunk_of [OF c(1), of ?aid held] unfolding rows by auto
    next
      case False
      then show ?thesis using look [of j x] unfolding rows by simp
    qed
    show "ChunkIndex j |\<in>| (if held then finsert (ChunkIndex i) (lf_held f) else lf_held f) \<longleftrightarrow>
        (\<exists>r \<in> rows_for db' ?aid. row_index r = j \<and> cr_held r)"
      using held_iff [of j] by (auto simp: rows)
  qed (simp_all add: db'_def)
  with inv' show ?thesis
    by (intro conjI abs_update [OF inv inv' _ t]) (auto simp: db'_def intro!: same_rowsI)
qed

lemma abs_mark_held:
  fixes f :: transfer_locked_facts
  assumes inv: "transfer_inv db" and t: "find_transfer (xd_jobs db) tid = Some t" and f: "facts_of db t f"
    and known: "fmlookup (cm_chunks (lf_manifest f)) i \<noteq> None"
  shows "transfer_inv (mark_chunk_held (tr_artifact_id t) (u32_as_i32 i) db) \<and>
    abs_transfers (mark_chunk_held (tr_artifact_id t) (u32_as_i32 i) db) =
      (abs_transfers db)(tid \<mapsto> f\<lparr> lf_held := finsert (ChunkIndex i) (lf_held f) \<rparr>)"
proof -
  let ?aid = "tr_artifact_id t"
  let ?g = "\<lambda>r. if cr_artifact_id r = ?aid \<and> cr_index r = u32_as_i32 i then r\<lparr> cr_held := True \<rparr> else r"
  define db' where "db' = mark_chunk_held ?aid (u32_as_i32 i) db"
  have chunks: "xd_chunks db' = map ?g (xd_chunks db)" by (simp add: db'_def mark_chunk_held_def)
  have others: "xd_jobs db' = xd_jobs db" "xd_artifacts db' = xd_artifacts db"
      "xd_manifests db' = xd_manifests db" by (simp_all add: db'_def mark_chunk_held_def)
  have g [simp]: "cr_artifact_id (?g r) = cr_artifact_id r" "cr_index (?g r) = cr_index r"
    "row_index (?g r) = row_index r" "row_chunk (?g r) = row_chunk r" "chunk_row_ok (?g r) = chunk_row_ok r" for r
    by (simp_all add: row_index_def row_chunk_def chunk_row_ok_def)
  have rows: "rows_for db' x = ?g ` rows_for db x" for x
    by (auto simp: rows_for_def chunks)
  have key: "cr_index r = u32_as_i32 i \<longleftrightarrow> row_index r = i" if "r \<in> set (xd_chunks db)" for r
  proof -
    have "chunk_row_ok r" using inv that by (simp add: transfer_inv_def)
    then show ?thesis by (metis chunk_row_ok_def i32_roundtrip(1) i32_u32_roundtrip row_index_def)
  qed
  have idx: "cr_index ` rows_for db' x = cr_index ` rows_for db x" for x
    unfolding rows image_image by simp
  have seals: "seal_ok db' mr = seal_ok db mr" for mr by (simp add: seal_ok_def idx)
  have backed: "artifact_backed db' a" if "artifact_backed db a" for a
    using that by (auto simp: artifact_backed_def rows others)
  have keys: "map (\<lambda>r. (cr_artifact_id r, cr_index r)) (xd_chunks db') =
      map (\<lambda>r. (cr_artifact_id r, cr_index r)) (xd_chunks db)"
    unfolding chunks map_map comp_def by simp
  have row_ok: "chunk_row_ok r \<and> cr_artifact_id r \<in> mr_artifact_id ` set (xd_manifests db)"
    if "r \<in> set (xd_chunks db')" for r
  proof -
    from that obtain q where "q \<in> set (xd_chunks db)" "r = ?g q" unfolding chunks set_map by blast
    with inv show ?thesis by (simp only: g) (simp add: transfer_inv_def)
  qed
  have inv': "transfer_inv db'"
    using inv seals backed row_ok by (simp add: transfer_inv_def transfer_rows_ok_def others keys)
  have "facts_of db' t (f\<lparr> lf_held := finsert (ChunkIndex i) (lf_held f) \<rparr>)"
  proof -
    obtain r where r: "r \<in> rows_for db ?aid" "row_index r = i"
      using known f unfolding facts_of_def by blast
    have "(\<exists>r \<in> rows_for db' ?aid. row_index r = j \<and> cr_held r) \<longleftrightarrow>
        j = i \<or> (\<exists>r \<in> rows_for db ?aid. row_index r = j \<and> cr_held r)" for j
    proof -
      have "cr_held (?g q) \<longleftrightarrow> row_index q = i \<or> cr_held q" if "q \<in> rows_for db ?aid" for q
        using that key [of q] by (auto simp: rows_for_def)
      then have "(\<exists>q \<in> rows_for db ?aid. row_index (?g q) = j \<and> cr_held (?g q)) \<longleftrightarrow>
          (\<exists>q \<in> rows_for db ?aid. row_index q = j \<and> (row_index q = i \<or> cr_held q))"
        unfolding g by (intro bex_cong) simp_all
      also have "\<dots> \<longleftrightarrow> j = i \<or> (\<exists>r \<in> rows_for db ?aid. row_index r = j \<and> cr_held r)" using r by blast
      finally show ?thesis unfolding rows by (simp only: Set.bex_simps)
    qed
    moreover have "(\<exists>r \<in> rows_for db' ?aid. row_index r = j \<and> row_chunk r = c) \<longleftrightarrow>
        (\<exists>r \<in> rows_for db ?aid. row_index r = j \<and> row_chunk r = c)" for j c
      unfolding rows by (simp only: Set.bex_simps g)
    ultimately show ?thesis using f by (simp add: facts_of_def others)
  qed
  moreover have "same_rows x db db'" if "x \<noteq> ?aid" for x
  proof -
    have "rows_for db' x = rows_for db x"
    proof -
      have "?g ` rows_for db x = (\<lambda>r. r) ` rows_for db x"
        using that by (intro image_cong) (auto simp: rows_for_def)
      then show ?thesis by (simp only: rows) simp
    qed
    then show ?thesis by (simp add: same_rows_def others)
  qed
  ultimately show ?thesis
    using inv' abs_update [OF inv inv' others(1) t] by (simp add: db'_def)
qed

lemma abs_artifact_state:
  fixes f :: transfer_locked_facts
  assumes inv: "transfer_inv db" and t: "find_transfer (xd_jobs db) tid = Some t" and f: "facts_of db t f"
    and ready: "st = Ar_PendingVerification \<or> st = Ar_Verified \<Longrightarrow>
      cm_sealed (lf_manifest f) \<and> chunk_indices (lf_manifest f) |\<subseteq>| lf_held f"
  shows "transfer_inv (update_artifact_state (tr_artifact_id t) st db) \<and>
    abs_transfers (update_artifact_state (tr_artifact_id t) st db) =
      (abs_transfers db)(tid \<mapsto> f\<lparr> lf_artifact := (lf_artifact f)\<lparr> ar_state := st \<rparr> \<rparr>)"
proof -
  let ?aid = "tr_artifact_id t"
  let ?g = "\<lambda>a. if ar_id a = ?aid then a\<lparr> ar_state := st \<rparr> else a"
  define db' where "db' = update_artifact_state ?aid st db"
  have arts: "xd_artifacts db' = map ?g (xd_artifacts db)" by (simp add: db'_def update_artifact_state_def)
  have others: "xd_jobs db' = xd_jobs db" "xd_chunks db' = xd_chunks db" "xd_manifests db' = xd_manifests db"
    by (simp_all add: db'_def update_artifact_state_def)
  have g [simp]: "ar_id (?g a) = ar_id a" for a by simp
  have rows: "rows_for db' x = rows_for db x" for x by (simp add: rows_for_def others)
  have seals: "seal_ok db' mr = seal_ok db mr" for mr by (simp add: seal_ok_def rows)
  have ids: "map ar_id (xd_artifacts db') = map ar_id (xd_artifacts db)"
    unfolding arts map_map comp_def by simp
  have id_set: "ar_id ` set (xd_artifacts db') = ar_id ` set (xd_artifacts db)"
    using arg_cong [OF ids, of set] by (simp only: set_map)
  have held: "cr_held r" if "chunk_indices (lf_manifest f) |\<subseteq>| lf_held f" "r \<in> rows_for db ?aid" for r
  proof -
    have "fmlookup (cm_chunks (lf_manifest f)) (row_index r) = Some (row_chunk r)"
      using f that(2) unfolding facts_of_def by blast
    then have "ChunkIndex (row_index r) |\<in>| lf_held f" using that(1) by (auto simp: in_chunk_indices)
    then obtain q where q: "q \<in> rows_for db ?aid" "row_index q = row_index r" "cr_held q"
      using f unfolding facts_of_def by blast
    then have "q = r"
      using that(2) distinct_map_eq [OF chunk_rows_of_facts(3) [OF inv, of ?aid], of q r]
      by (simp add: chunk_rows_of_facts(1) [OF inv])
    with q show ?thesis by simp
  qed
  have backed: "artifact_backed db' a" if a: "a \<in> set (xd_artifacts db')" for a
  proof -
    from a obtain b where b: "b \<in> set (xd_artifacts db)" "a = ?g b" unfolding arts set_map by blast
    have "artifact_backed db b" using inv b by (simp add: transfer_inv_def)
    show ?thesis
    proof (cases "ar_id b = ?aid")
      case True
      then have "a = b\<lparr> ar_state := st \<rparr>" using b by simp
      moreover have "mr_sealed mr" if "cm_sealed (lf_manifest f)" "mr \<in> set (xd_manifests db)"
        "mr_artifact_id mr = ?aid" for mr
        using facts_of_manifest_row(1) [OF inv f that(2,3)] that(1) by simp
      ultimately show ?thesis using True ready held by (auto simp: artifact_backed_def rows others)
    next
      case False
      with \<open>artifact_backed db b\<close> b show ?thesis by (simp add: artifact_backed_def rows others)
    qed
  qed
  have inv': "transfer_inv db'"
    using inv backed by (simp add: transfer_inv_def transfer_rows_ok_def others seals ids id_set)
  have "(lf_artifact f)\<lparr> ar_state := st \<rparr> = ?g (lf_artifact f)" using f by (simp add: facts_of_def)
  moreover have "lf_artifact f \<in> set (xd_artifacts db)" using f by (simp add: facts_of_def)
  ultimately have "(lf_artifact f)\<lparr> ar_state := st \<rparr> \<in> set (xd_artifacts db')"
    unfolding arts set_map by (rule image_eqI)
  then have "facts_of db' t (f\<lparr> lf_artifact := (lf_artifact f)\<lparr> ar_state := st \<rparr> \<rparr>)"
    using f by (simp add: facts_of_def rows others)
  moreover have "same_rows x db db'" if "x \<noteq> ?aid" for x
    using that by (intro same_rowsI) (auto simp: arts others)
  ultimately show ?thesis using inv' abs_update [OF inv inv' others(1) t] by (simp add: db'_def)
qed

lemma persist_seal_iff:
  assumes "length (digest_bytes d) = 32"
  shows "persist_seal aid n d db =
    (if uint n < 2 ^ 31
     then Some (db\<lparr> xd_manifests := map (\<lambda>m. if mr_artifact_id m = aid
             then m\<lparr> mr_sealed := True, mr_chunk_count := Some (u32_as_i32 n),
                     mr_artifact_digest := Some (digest_bytes d) \<rparr> else m) (xd_manifests db) \<rparr>)
     else None)"
proof -
  have "u32_as_i32 n < 0 \<longleftrightarrow> \<not> uint n < 2 ^ 31" using u32_as_i32_nonneg_iff [of n] by linarith
  with assms show ?thesis by (simp add: persist_seal_def)
qed

lemma abs_seal:
  fixes f :: transfer_locked_facts
  assumes inv: "transfer_inv db" and t: "find_transfer (xd_jobs db) tid = Some t" and f: "facts_of db t f"
    and sealed: "manifest_seal (lf_manifest f) n (digest_bytes d) = Ok (ManifestSealed m)"
    and fits: "uint n < 2 ^ 31" and d: "length (digest_bytes d) = 32"
    and db': "persist_seal (tr_artifact_id t) n d db = Some db'"
  shows "transfer_inv db' \<and> xd_jobs db' = xd_jobs db \<and> facts_of db' t (f\<lparr> lf_manifest := m \<rparr>) \<and>
    abs_transfers db' = (abs_transfers db)(tid \<mapsto> f\<lparr> lf_manifest := m \<rparr>)"
proof -
  let ?aid = "tr_artifact_id t"
  let ?s = "\<lambda>q. q\<lparr> mr_sealed := True, mr_chunk_count := Some (u32_as_i32 n),
                 mr_artifact_digest := Some (digest_bytes d) \<rparr>"
  let ?g = "\<lambda>q. if mr_artifact_id q = ?aid then ?s q else q"
  note m = manifest_seal_Sealed [OF sealed]
  have mans: "xd_manifests db' = map ?g (xd_manifests db)"
    and others: "xd_jobs db' = xd_jobs db" "xd_chunks db' = xd_chunks db" "xd_artifacts db' = xd_artifacts db"
    using db' fits by (auto simp: persist_seal_iff [OF d])
  have g: "mr_artifact_id (?g q) = mr_artifact_id q" for q by simp
  have rows: "rows_for db' x = rows_for db x" for x by (simp add: rows_for_def others)
  have ids: "map mr_artifact_id (xd_manifests db') = map mr_artifact_id (xd_manifests db)"
    unfolding mans map_map comp_def by simp
  have id_set: "mr_artifact_id ` set (xd_manifests db') = mr_artifact_id ` set (xd_manifests db)"
    using arg_cong [OF ids, of set] by (simp only: set_map)
  have "i32_as_u32 ` cr_index ` rows_for db ?aid = {i. i < n}"
    using m facts_of_dom [OF f] by (simp add: row_index_def image_image)
  then have "u32_as_i32 ` i32_as_u32 ` cr_index ` rows_for db ?aid = u32_as_i32 ` {i. i < n}" by simp
  moreover have "u32_as_i32 (i32_as_u32 (cr_index r)) = cr_index r" if "r \<in> rows_for db ?aid" for r
    using inv that by (intro i32_roundtrip) (auto simp: transfer_inv_def rows_for_def chunk_row_ok_def)
  ultimately have "cr_index ` rows_for db ?aid = u32_as_i32 ` {i. i < n}"
    by (simp add: image_image)
  moreover have "u32_as_i32 ` {i. i < n} = {0..<u32_as_i32 n}"
  proof -
    have "{i. i < n} = i32_as_u32 ` {0..<u32_as_i32 n}"
      using column_range [of "u32_as_i32 n"] fits by (simp add: u32_as_i32_nonneg)
    moreover have "u32_as_i32 ` i32_as_u32 ` {0..<u32_as_i32 n} = {0..<u32_as_i32 n}"
    proof -
      have "u32_as_i32 (i32_as_u32 k) = k" if "k \<in> {0..<u32_as_i32 n}" for k
        using that u32_as_i32_bounds(2) [of n] by (intro i32_roundtrip) auto
      then show ?thesis by (simp add: image_image)
    qed
    ultimately show ?thesis by simp
  qed
  ultimately have range: "cr_index ` rows_for db ?aid = {0..<u32_as_i32 n}" by simp
  have seals: "seal_ok db' q" if q: "q \<in> set (xd_manifests db')" for q
  proof -
    from q obtain p where p: "p \<in> set (xd_manifests db)" "q = ?g p" unfolding mans set_map by blast
    have "seal_ok db p" using inv p by (simp add: transfer_inv_def)
    then show ?thesis
      using p range d u32_as_i32_nonneg [OF fits] u32_as_i32_bounds(2) [of n]
      by (cases "mr_artifact_id p = ?aid") (auto simp: seal_ok_def rows)
  qed
  have backed: "artifact_backed db' a" if "a \<in> set (xd_artifacts db)" for a
  proof -
    have "artifact_backed db a" using inv that by (simp add: transfer_inv_def)
    then show ?thesis by (auto simp: artifact_backed_def rows mans)
  qed
  have inv': "transfer_inv db'"
    using inv seals backed by (simp add: transfer_inv_def transfer_rows_ok_def others ids id_set)
  obtain mr where mr: "mr \<in> set (xd_manifests db)" "mr_artifact_id mr = ?aid"
    using f unfolding facts_of_def by blast
  then have "?s mr = ?g mr" by simp
  then have "?s mr \<in> set (xd_manifests db')" using mr(1) unfolding mans set_map by (rule image_eqI)
  then have "\<exists>q \<in> set (xd_manifests db'). mr_artifact_id q = ?aid \<and> cm_sealed m = mr_sealed q \<and>
      cm_chunk_count m = map_option i32_as_u32 (mr_chunk_count q) \<and>
      cm_artifact_digest m = map_option Digest (mr_artifact_digest q)"
    by (rule bexI [rotated]) (use m mr in simp)
  then have f': "facts_of db' t (f\<lparr> lf_manifest := m \<rparr>)"
    using f m unfolding facts_of_def rows others by simp
  moreover have "same_rows x db db'" if "x \<noteq> ?aid" for x
    using that by (intro same_rowsI) (auto simp: mans others)
  ultimately show ?thesis using inv' abs_update [OF inv inv' others(1) t f'] others(1) by simp
qed

end
