(* ===== verification/Transfer_Evidence.thy ===== *)
theory Transfer_Evidence
  imports Transfer_Store
begin

text \<open>
  What ends a transfer: the results, cancellation acknowledgements and status reports of the Agent
  for an Attempt that a Transfer is bound to. \<open>TransferTerminalEvidenceService\<close> of
  \<open>src/crates/server/src/application/mod.rs\<close> decides,
  \<open>apply_transfer_terminal_evidence\<close> of \<open>adapters/postgres/job_repository.rs\<close> commits the Job and
  the Artifact together, and the handlers of \<open>adapters/agent_gateway.rs\<close> choose between this path
  and the one of Jobs without a Transfer.

  The handlers are those of a gateway with all services configured. They give the tables after the
  message and what goes back to the Agent; the release of reservations is not part of them.
\<close>

section \<open>The detail of a result\<close>

datatype action_result_outcome = OutcomeSucceeded | OutcomeFailed | OutcomeCancelled

text \<open>A detail object is given by its string-valued fields.\<close>

type_synonym detail_fields = "string \<Rightarrow> string option"

definition m1_result_detail_matches :: "action_result_outcome \<Rightarrow> detail_fields \<Rightarrow> bool" where
  "m1_result_detail_matches outcome detail =
     (case outcome of
        OutcomeSucceeded \<Rightarrow> detail ''code'' = Some ''SIMULATED_COMPLETION''
      | OutcomeFailed \<Rightarrow> detail ''code'' = Some ''SIMULATED_FAILURE''
      | OutcomeCancelled \<Rightarrow> False)"

datatype transfer_result_code =
  TransferVerified | ArtifactVerificationFailed | ChunkVerificationFailed | TransferAbandoned

record transfer_result_detail =
  rd_code :: transfer_result_code
  rd_artifact_id :: uuid

datatype transfer_result_detail_error =
  MissingCode | UnknownCode | OutcomeCodeMismatch | MissingArtifactId | MalformedArtifactId

definition transfer_result_code_of :: "string \<Rightarrow> transfer_result_code option" where
  "transfer_result_code_of s =
     (if s = ''TRANSFER_VERIFIED'' then Some TransferVerified
      else if s = ''ARTIFACT_VERIFICATION_FAILED'' then Some ArtifactVerificationFailed
      else if s = ''CHUNK_VERIFICATION_FAILED'' then Some ChunkVerificationFailed
      else if s = ''TRANSFER_ABANDONED'' then Some TransferAbandoned
      else None)"

text \<open>\<open>parse_str\<close> and \<open>hyphenated\<close> are the uuid crate's parser and printer.\<close>

definition parse_transfer_result_detail ::
  "(string \<Rightarrow> uuid option) \<Rightarrow> (uuid \<Rightarrow> string) \<Rightarrow> action_result_outcome \<Rightarrow> detail_fields
    \<Rightarrow> transfer_result_detail_error + transfer_result_detail" where
  "parse_transfer_result_detail parse_str hyphenated outcome detail =
     (case detail ''code'' of
        None \<Rightarrow> Err MissingCode
      | Some code_str \<Rightarrow>
          (case transfer_result_code_of code_str of
             None \<Rightarrow> Err UnknownCode
           | Some code \<Rightarrow>
               if \<not> (outcome = OutcomeSucceeded \<and> code = TransferVerified \<or>
                     outcome = OutcomeFailed \<and> code \<noteq> TransferVerified)
               then Err OutcomeCodeMismatch
               else case detail ''artifact_id'' of
                 None \<Rightarrow> Err MissingArtifactId
               | Some artifact_str \<Rightarrow>
                   (case parse_str artifact_str of
                      None \<Rightarrow> Err MalformedArtifactId
                    | Some artifact_id \<Rightarrow>
                        if hyphenated artifact_id \<noteq> artifact_str then Err MalformedArtifactId
                        else Ok \<lparr> rd_code = code, rd_artifact_id = artifact_id \<rparr>)))"

section \<open>Decisions\<close>

record transfer_evidence_facts =
  te_job :: job
  te_job_step :: job_step
  te_attempt :: attempt
  te_transfer :: transfer
  te_artifact :: artifact

datatype transfer_evidence_decision =
    DecideNoOp
  | DecideConflict
  | DecideFailClosed
  | DecideApplied action_evidence_applied "artifact option"

definition transfer_bound :: "transfer_evidence_facts \<Rightarrow> bool" where
  "transfer_bound f \<longleftrightarrow>
     tr_artifact_id (te_transfer f) = ar_id (te_artifact f) \<and>
     tr_attempt_id (te_transfer f) = Some (at_id (te_attempt f))"

definition decide_transfer_terminal_evidence ::
  "uuid_source \<Rightarrow> transfer_result_detail \<Rightarrow> time \<Rightarrow> transfer_evidence_facts
    \<Rightarrow> transfer_evidence_decision" where
  "decide_transfer_terminal_evidence new_v4 detail now f =
     (if ArtifactId (rd_artifact_id detail) \<noteq> ar_id (te_artifact f) \<or> \<not> transfer_bound f
      then DecideFailClosed
      else case apply_action_evidence new_v4 (te_job f) (te_job_step f) (te_attempt f)
             (if rd_code detail = TransferVerified then ResultSucceeded else ResultFailed) now of
        EvidenceNoOp \<Rightarrow> DecideNoOp
      | EvidenceConflict \<Rightarrow> DecideConflict
      | EvidenceApplied ap \<Rightarrow>
          (case rd_code detail of
             TransferVerified \<Rightarrow>
               if ar_state (te_artifact f) \<noteq> Ar_Verified then DecideFailClosed
               else DecideApplied ap None
           | ArtifactVerificationFailed \<Rightarrow>
               if ar_state (te_artifact f) \<noteq> Ar_Failed then DecideFailClosed
               else DecideApplied ap None
           | _ \<Rightarrow>
               if ar_state (te_artifact f) \<noteq> Ar_Incomplete then DecideFailClosed
               else case fail_incomplete (te_artifact f) of
                 Inl _ \<Rightarrow> DecideFailClosed
               | Inr failed \<Rightarrow> DecideApplied ap (Some failed)))"

text \<open>
  The leg that the other three decisions share: the Artifact fails together with an Attempt that
  ends in the given state while it is still \<open>Incomplete\<close>.
\<close>

definition with_artifact_leg ::
  "attempt_state \<Rightarrow> transfer_evidence_facts \<Rightarrow> action_evidence_applied \<Rightarrow> transfer_evidence_decision" where
  "with_artifact_leg final f ap =
     (if ap_terminal ap \<and> at_state (ap_attempt ap) = final \<and> ar_state (te_artifact f) = Ar_Incomplete
      then case fail_incomplete (te_artifact f) of
        Inl _ \<Rightarrow> DecideNoOp
      | Inr failed \<Rightarrow> DecideApplied ap (Some failed)
      else DecideApplied ap None)"

definition decide_transfer_cancel_ack ::
  "uuid_source \<Rightarrow> cancel_ack_evidence \<Rightarrow> time \<Rightarrow> transfer_evidence_facts \<Rightarrow> transfer_evidence_decision" where
  "decide_transfer_cancel_ack new_v4 evidence now f =
     (if \<not> transfer_bound f then DecideNoOp
      else case apply_cancel_ack new_v4 (te_job f) (te_job_step f) (te_attempt f) evidence now of
        CancelAckNoOp \<Rightarrow> DecideNoOp
      | CancelAckApplied ap \<Rightarrow> with_artifact_leg A_Cancelled f ap)"

definition decide_transfer_status_report_cancelled ::
  "uuid_source \<Rightarrow> time \<Rightarrow> transfer_evidence_facts \<Rightarrow> transfer_evidence_decision" where
  "decide_transfer_status_report_cancelled new_v4 now f =
     (if \<not> transfer_bound f then DecideNoOp
      else case apply_status_report new_v4 (te_job f) (te_job_step f) (te_attempt f) ReportCancelled now of
        ReconciliationNoOp \<Rightarrow> DecideNoOp
      | ReconciliationApplied ap \<Rightarrow> with_artifact_leg A_Cancelled f ap)"

definition decide_transfer_status_report_failed ::
  "uuid_source \<Rightarrow> time \<Rightarrow> transfer_evidence_facts \<Rightarrow> transfer_evidence_decision" where
  "decide_transfer_status_report_failed new_v4 now f =
     (if \<not> transfer_bound f then DecideNoOp
      else case apply_status_report new_v4 (te_job f) (te_job_step f) (te_attempt f) ReportFailed now of
        ReconciliationNoOp \<Rightarrow> DecideNoOp
      | ReconciliationApplied ap \<Rightarrow> with_artifact_leg A_Failed f ap)"

section \<open>The transaction\<close>

definition bound_transfer :: "job_db \<Rightarrow> action_id \<Rightarrow> transfer option" where
  "bound_transfer jobs act =
     find (\<lambda>t. case tr_attempt_id t of
             None \<Rightarrow> False
           | Some aid \<Rightarrow> list_ex (\<lambda>a. at_id a = aid \<and> at_action_id a = act) (jd_attempts jobs))
       (jd_transfers jobs)"

definition action_has_bound_transfer :: "job_db \<Rightarrow> action_id \<Rightarrow> bool" where
  "action_has_bound_transfer jobs act = (bound_transfer jobs act \<noteq> None)"

definition action_targets_endpoint :: "job_db \<Rightarrow> action_id \<Rightarrow> endpoint_id \<Rightarrow> bool" where
  "action_targets_endpoint jobs act endpoint =
     list_ex (\<lambda>a. at_action_id a = act \<and> attempt_endpoint jobs a = Some endpoint) (jd_attempts jobs)"

datatype transfer_evidence_result =
    ResultNotTransferAction
  | ResultNoOp
  | ResultConflict
  | ResultFailClosed
  | ResultApplied action_evidence_applied

datatype transfer_evidence_error = EvidenceUnknownAction | EvidenceBackend

type_synonym transfer_evidence_tx =
  "transfer_db \<times> (transfer_evidence_error + transfer_evidence_result)"

definition load_evidence_facts ::
  "transfer_db \<Rightarrow> action_id \<Rightarrow> endpoint_id
    \<Rightarrow> transfer_evidence_error + transfer_evidence_facts option" where
  "load_evidence_facts db act endpoint =
     (case bound_transfer (xd_jobs db) act of
        None \<Rightarrow> Ok None
      | Some t0 \<Rightarrow>
          (case load_locked_transfer_and_artifact db (tr_id t0) of
             Inl _ \<Rightarrow> Err EvidenceBackend
           | Inr None \<Rightarrow> Err EvidenceBackend
           | Inr (Some (t, a)) \<Rightarrow>
               (case tr_attempt_id t of
                  None \<Rightarrow> Ok None
                | Some aid \<Rightarrow>
                    (case find_attempt (xd_jobs db) aid of
                       None \<Rightarrow> Err EvidenceBackend
                     | Some attempt \<Rightarrow>
                         if at_action_id attempt \<noteq> act then Err EvidenceBackend
                         else case find_step_row (xd_jobs db) (at_job_step_id attempt) of
                           None \<Rightarrow> Err EvidenceBackend
                         | Some step \<Rightarrow>
                             (case find_job (xd_jobs db) (js_job_id step) of
                                None \<Rightarrow> Err EvidenceBackend
                              | Some job \<Rightarrow>
                                  if jb_endpoint_id job \<noteq> endpoint then Err EvidenceUnknownAction
                                  else Ok (Some \<lparr> te_job = job, te_job_step = step,
                                    te_attempt = attempt, te_transfer = t, te_artifact = a \<rparr>))))))"

definition commit_evidence ::
  "transfer_db \<Rightarrow> uuid_source \<Rightarrow> job \<Rightarrow> action_evidence_applied \<Rightarrow> time \<Rightarrow> string \<Rightarrow> transfer_evidence_tx" where
  "commit_evidence db new_v4 job ap now detail =
     (case commit_applied (xd_jobs db) new_v4 System job ap now detail of
        (_, Inl _) \<Rightarrow> (db, Err EvidenceBackend)
      | (jobs', Inr _) \<Rightarrow> (db\<lparr> xd_jobs := jobs' \<rparr>, Ok (ResultApplied ap)))"

definition apply_transfer_terminal_evidence ::
  "transfer_db \<Rightarrow> uuid_source \<Rightarrow> action_id \<Rightarrow> endpoint_id
    \<Rightarrow> (transfer_evidence_facts \<Rightarrow> transfer_evidence_decision) \<Rightarrow> time \<Rightarrow> string
    \<Rightarrow> transfer_evidence_tx" where
  "apply_transfer_terminal_evidence db new_v4 act endpoint decide now detail =
     (case load_evidence_facts db act endpoint of
        Inl e \<Rightarrow> (db, Err e)
      | Inr None \<Rightarrow> (db, Ok ResultNotTransferAction)
      | Inr (Some facts) \<Rightarrow>
          (case decide facts of
             DecideNoOp \<Rightarrow> (db, Ok ResultNoOp)
           | DecideConflict \<Rightarrow> (db, Ok ResultConflict)
           | DecideFailClosed \<Rightarrow> (db, Ok ResultFailClosed)
           | DecideApplied ap None \<Rightarrow> commit_evidence db new_v4 (te_job facts) ap now detail
           | DecideApplied ap (Some _) \<Rightarrow>
               (case persist_incomplete_artifact_failed (ar_id (te_artifact facts)) db of
                  (db1, failed) \<Rightarrow>
                    if \<not> failed then (db, Ok ResultFailClosed)
                    else (case commit_evidence db1 new_v4 (te_job facts) ap now detail of
                        (_, Inl e) \<Rightarrow> (db, Err e)
                      | r \<Rightarrow> r))))"

section \<open>Routing\<close>

datatype transfer_action_classification = DataPlaneTransfer | SimulatedExecution | UnknownActionClass

definition classify_action :: "job_db \<Rightarrow> action_id \<Rightarrow> endpoint_id \<Rightarrow> transfer_action_classification" where
  "classify_action jobs act endpoint =
     (if \<not> action_targets_endpoint jobs act endpoint then UnknownActionClass
      else if action_has_bound_transfer jobs act then DataPlaneTransfer
      else SimulatedExecution)"

datatype gateway_reply = ReplyNothing | ReplyProtocolError | ReplyGatewayError

text \<open>The generic path of Jobs without a Transfer, on the Job tables.\<close>

definition generic_evidence ::
  "transfer_db \<Rightarrow> 'a job_tx \<Rightarrow> transfer_db \<times> gateway_reply" where
  "generic_evidence db tx =
     (case tx of
        (jobs', Inr _) \<Rightarrow> (db\<lparr> xd_jobs := jobs' \<rparr>, ReplyNothing)
      | (_, Inl StoreUnknownAction) \<Rightarrow> (db, ReplyNothing)
      | (_, Inl _) \<Rightarrow> (db, ReplyGatewayError))"

definition handle_action_ack ::
  "transfer_db \<Rightarrow> uuid_source \<Rightarrow> endpoint_id \<Rightarrow> action_id option \<Rightarrow> action_id \<Rightarrow> bool \<Rightarrow> time \<Rightarrow> string
    \<Rightarrow> transfer_db \<times> gateway_reply" where
  "handle_action_ack db new_v4 endpoint correlation act accepted now detail =
     (if correlation \<noteq> Some act then (db, ReplyProtocolError)
      else generic_evidence db (apply_action_evidence_tx (xd_jobs db) new_v4 act endpoint
        (if accepted then AckAccepted else AckRejected) now detail))"

definition handle_action_result ::
  "(string \<Rightarrow> uuid option) \<Rightarrow> (uuid \<Rightarrow> string) \<Rightarrow> transfer_db \<Rightarrow> uuid_source \<Rightarrow> endpoint_id
    \<Rightarrow> action_id option \<Rightarrow> action_id \<Rightarrow> action_result_outcome \<Rightarrow> detail_fields \<Rightarrow> time \<Rightarrow> string
    \<Rightarrow> transfer_db \<times> gateway_reply" where
  "handle_action_result parse_str hyphenated db new_v4 endpoint correlation act outcome body now detail =
     (if correlation \<noteq> Some act then (db, ReplyProtocolError)
      else if outcome = OutcomeCancelled then (db, ReplyNothing)
      else case classify_action (xd_jobs db) act endpoint of
        UnknownActionClass \<Rightarrow> (db, ReplyNothing)
      | DataPlaneTransfer \<Rightarrow>
          (case parse_transfer_result_detail parse_str hyphenated outcome body of
             Inl _ \<Rightarrow> (db, ReplyProtocolError)
           | Inr parsed \<Rightarrow>
               (case apply_transfer_terminal_evidence db new_v4 act endpoint
                       (decide_transfer_terminal_evidence new_v4 parsed now) now detail of
                  (db', Inr ResultFailClosed) \<Rightarrow> (db', ReplyProtocolError)
                | (db', Inr ResultNotTransferAction) \<Rightarrow> (db', ReplyProtocolError)
                | (db', Inr _) \<Rightarrow> (db', ReplyNothing)
                | (db', Inl EvidenceUnknownAction) \<Rightarrow> (db', ReplyNothing)
                | (db', Inl EvidenceBackend) \<Rightarrow> (db', ReplyGatewayError)))
      | SimulatedExecution \<Rightarrow>
          if \<not> m1_result_detail_matches outcome body then (db, ReplyProtocolError)
          else generic_evidence db (apply_action_evidence_tx (xd_jobs db) new_v4 act endpoint
                 (if outcome = OutcomeSucceeded then ResultSucceeded else ResultFailed) now detail))"

text \<open>What a cancellation or reconciliation decision on the transfer path gives back; \<open>generic\<close> is the
  fallback for an action that lost its Transfer in between.\<close>

definition reconciliation_reply ::
  "transfer_evidence_tx \<Rightarrow> transfer_db \<times> gateway_reply \<Rightarrow> transfer_db \<times> gateway_reply" where
  "reconciliation_reply r generic =
     (case r of
        (db', Inr (ResultApplied _)) \<Rightarrow> (db', ReplyNothing)
      | (db', Inr ResultNoOp) \<Rightarrow> (db', ReplyNothing)
      | (db', Inr ResultNotTransferAction) \<Rightarrow> generic
      | (db', Inr _) \<Rightarrow> (db', ReplyGatewayError)
      | (db', Inl EvidenceUnknownAction) \<Rightarrow> (db', ReplyNothing)
      | (db', Inl EvidenceBackend) \<Rightarrow> (db', ReplyGatewayError))"

definition handle_cancel_ack ::
  "transfer_db \<Rightarrow> uuid_source \<Rightarrow> endpoint_id \<Rightarrow> action_id option \<Rightarrow> action_id \<Rightarrow> cancel_ack_evidence
    \<Rightarrow> time \<Rightarrow> string \<Rightarrow> transfer_db \<times> gateway_reply" where
  "handle_cancel_ack db new_v4 endpoint correlation act evidence now detail =
     (if correlation \<noteq> Some act then (db, ReplyProtocolError)
      else let generic = generic_evidence db
             (apply_cancel_ack_tx (xd_jobs db) new_v4 act endpoint evidence now detail)
           in case classify_action (xd_jobs db) act endpoint of
                UnknownActionClass \<Rightarrow> (db, ReplyNothing)
              | DataPlaneTransfer \<Rightarrow>
                  reconciliation_reply
                    (apply_transfer_terminal_evidence db new_v4 act endpoint
                       (decide_transfer_cancel_ack new_v4 evidence now) now detail) generic
              | SimulatedExecution \<Rightarrow> generic)"

definition handle_status_report ::
  "transfer_db \<Rightarrow> uuid_source \<Rightarrow> endpoint_id \<Rightarrow> action_id option \<Rightarrow> action_id \<Rightarrow> status_report_evidence
    \<Rightarrow> time \<Rightarrow> string \<Rightarrow> transfer_db \<times> gateway_reply" where
  "handle_status_report db new_v4 endpoint correlation act known_state now detail =
     (if correlation \<noteq> Some act then (db, ReplyProtocolError)
      else let generic = generic_evidence db
             (apply_status_report_tx (xd_jobs db) new_v4 act endpoint known_state now detail)
           in if known_state \<noteq> ReportCancelled \<and> known_state \<noteq> ReportFailed then generic
              else case classify_action (xd_jobs db) act endpoint of
                UnknownActionClass \<Rightarrow> (db, ReplyNothing)
              | DataPlaneTransfer \<Rightarrow>
                  reconciliation_reply
                    (apply_transfer_terminal_evidence db new_v4 act endpoint
                       (if known_state = ReportCancelled
                        then decide_transfer_status_report_cancelled new_v4 now
                        else decide_transfer_status_report_failed new_v4 now) now detail) generic
              | SimulatedExecution \<Rightarrow> generic)"

end
