(* ===== verification/Transfer_Spec.thy ===== *)
theory Transfer_Spec
  imports Transfer_Refine Transfer_Evidence
begin

text \<open>
  The specification of the transfer store as operations on the abstract map, and the simulation of
  each transaction by its operation: same result, and the tables afterwards mean the specified map.
\<close>

section \<open>Specification\<close>

definition spec_with ::
  "transfer_spec \<Rightarrow> transfer_id
    \<Rightarrow> (transfer_locked_facts \<Rightarrow> transfer_locked_facts option \<times> (transfer_store_error + 'a))
    \<Rightarrow> transfer_spec \<times> (transfer_store_error + 'a)" where
  "spec_with s tid body =
     (case s tid of
        None \<Rightarrow> (s, Err XTransferNotFound)
      | Some f \<Rightarrow>
          (case body f of
             (None, r) \<Rightarrow> (s, r)
           | (Some f', r) \<Rightarrow> (s(tid \<mapsto> f'), r)))"

definition spec_record ::
  "transfer_spec \<Rightarrow> transfer_id \<Rightarrow> chunk_index \<Rightarrow> u32 \<Rightarrow> byte list
    \<Rightarrow> transfer_spec \<times> (transfer_store_error + chunk_record_outcome)" where
  "spec_record s tid index sz bytes = spec_with s tid (\<lambda>f.
     case record_expected_chunk (lf_manifest f) index sz bytes of
       Inl e \<Rightarrow> (None, Err (XRecord e))
     | Inr ChunkAlreadyRecorded \<Rightarrow> (None, Ok ChunkAlreadyRecorded)
     | Inr (ChunkAdded m) \<Rightarrow>
         if storable (index_value index) sz then (Some (f\<lparr> lf_manifest := m \<rparr>), Ok (ChunkAdded m))
         else (None, Err XBackend))"

definition spec_accept ::
  "transfer_spec \<Rightarrow> transfer_id \<Rightarrow> chunk_index \<Rightarrow> byte list
    \<Rightarrow> transfer_spec \<times> (transfer_store_error + accept_chunk_outcome)" where
  "spec_accept s tid index bytes = spec_with s tid (\<lambda>f.
     case validate_verified_chunk (lf_manifest f) index bytes of
       Inl e \<Rightarrow> (None, Err (XAccept e))
     | Inr _ \<Rightarrow>
         if index |\<in>| lf_held f then (None, Ok ChunkAlreadyHeld)
         else (Some (f\<lparr> lf_held := finsert index (lf_held f) \<rparr>), Ok ChunkAccepted))"

definition spec_seal_manifest ::
  "transfer_spec \<Rightarrow> transfer_id \<Rightarrow> u32 \<Rightarrow> byte list
    \<Rightarrow> transfer_spec \<times> (transfer_store_error + seal_outcome)" where
  "spec_seal_manifest s tid count bytes = spec_with s tid (\<lambda>f.
     case manifest_seal (lf_manifest f) count bytes of
       Inl e \<Rightarrow> (None, Err (XSeal e))
     | Inr AlreadySealed \<Rightarrow> (None, Ok AlreadySealed)
     | Inr (ManifestSealed m) \<Rightarrow>
         if uint count < 2 ^ 31 then (Some (f\<lparr> lf_manifest := m \<rparr>), Ok (ManifestSealed m))
         else (None, Err XBackend))"

definition spec_transition ::
  "transfer_spec \<Rightarrow> transfer_id \<Rightarrow> (transfer_locked_facts \<Rightarrow> artifact_transition_error + artifact)
    \<Rightarrow> transfer_spec \<times> (transfer_store_error + artifact)" where
  "spec_transition s tid decide = spec_with s tid (\<lambda>f.
     case decide f of
       Inl e \<Rightarrow> (None, Err (XTransition e))
     | Inr a \<Rightarrow> (Some (f\<lparr> lf_artifact := a \<rparr>), Ok a))"

definition spec_chunk_acceptance ::
  "(attempt_id \<Rightarrow> attempt option) \<Rightarrow> b64_engine \<Rightarrow> transfer_spec \<Rightarrow> transfer_id \<Rightarrow> chunk_index \<Rightarrow> string
    \<Rightarrow> u32 \<Rightarrow> transfer_spec \<times> (transfer_store_error + chunk_acceptance_commit)" where
  "spec_chunk_acceptance attempts eng s tid index wire sz = spec_with s tid (\<lambda>f.
     case decide_chunk_acceptance eng index wire sz f
            (Option.bind (tr_attempt_id (lf_transfer f)) attempts) of
       RejectConflict \<Rightarrow> (None, Ok AcceptanceRejectedConflict)
     | RejectNotContinuable \<Rightarrow> (None, Ok AcceptanceRejectedNotContinuable)
     | AcceptanceFailClosed \<Rightarrow> (None, Ok AcceptanceFailedClosed)
     | CommitChunk ChunkAlreadyRecorded \<Rightarrow>
         if index |\<in>| lf_held f then (None, Ok AcceptanceAlreadyCommitted)
         else (Some (f\<lparr> lf_held := finsert index (lf_held f) \<rparr>), Ok AcceptanceCommitted)
     | CommitChunk (ChunkAdded m) \<Rightarrow>
         if storable (index_value index) sz
         then (Some (f\<lparr> lf_manifest := m, lf_held := finsert index (lf_held f) \<rparr>), Ok AcceptanceCommitted)
         else (None, Err XBackend))"

definition spec_verification ::
  "b64_engine \<Rightarrow> transfer_spec \<Rightarrow> artifact_verification_input
    \<Rightarrow> transfer_spec \<times> (transfer_store_error + artifact_verification_commit)" where
  "spec_verification eng s input =
     (case s (vi_transfer_id input) of
        None \<Rightarrow> (s, Ok VerificationFailClosed)
      | Some f \<Rightarrow>
          (case decide_artifact_verification eng input f of
             None \<Rightarrow> (s, Ok VerificationFailClosed)
           | Some a \<Rightarrow> (s(vi_transfer_id input \<mapsto> f\<lparr> lf_artifact := a \<rparr>),
                        Ok (VerificationCommitted (ar_state a = Ar_Verified)))))"

section \<open>Simulation\<close>

text \<open>A transaction simulates an operation when it keeps the invariant and commutes with the abstraction.\<close>

definition simulates :: "'a transfer_tx \<Rightarrow> transfer_spec \<times> (transfer_store_error + 'a) \<Rightarrow> bool" where
  "simulates tx spec \<longleftrightarrow> transfer_inv (fst tx) \<and> abs_transfers (fst tx) = fst spec \<and> snd tx = snd spec"

lemma simulates_unchanged: "transfer_inv db \<Longrightarrow> simulates (db, r) (abs_transfers db, r)"
  by (simp add: simulates_def)

lemma simulates_with:
  assumes inv: "transfer_inv db"
    and body: "\<And>t f. find_transfer (xd_jobs db) tid = Some t \<Longrightarrow> facts_of db t f \<Longrightarrow> facts_ok f \<Longrightarrow>
      case spec_body f of
        (None, r) \<Rightarrow> tx_body f = (db, r)
      | (Some f', r) \<Rightarrow> simulates (tx_body f) ((abs_transfers db)(tid \<mapsto> f'), r)"
  shows "simulates (with_locked_facts db tid tx_body) (spec_with (abs_transfers db) tid spec_body)"
proof (cases "abs_transfers db tid")
  case None
  then show ?thesis
    using inv by (simp add: with_locked_facts_abs spec_with_def simulates_unchanged)
next
  case (Some f)
  then obtain t where t: "find_transfer (xd_jobs db) tid = Some t" "facts_of db t f"
    using abs_transfers_iff [OF inv] by blast
  from body [OF t facts_of_ok [OF inv t(2)]] show ?thesis
    using Some inv by (auto simp: with_locked_facts_abs spec_with_def simulates_unchanged split: prod.splits option.splits)
qed

lemma digest_len_32 [simp]: "digest_len a = 32"
  by (cases a) (simp add: digest_len_def)

lemma new_chunk_index_insert:
  assumes "fmlookup (cm_chunks m) i = None"
  shows "new_chunk_index (m\<lparr> cm_chunks := map_insert i c (cm_chunks m) \<rparr>) m = Some i"
proof -
  let ?P = "\<lambda>j. fmlookup (cm_chunks m) j = None"
  let ?xs = "sorted_list_of_fset (fmdom (map_insert i c (cm_chunks m)))"
  have set: "set ?xs = insert i (fmdom' (cm_chunks m))"
    by (simp add: sorted_list_of_fset_simps map_insert_def fmdom'_alt_def)
  have "find ?P ?xs \<noteq> None" using assms set by (auto simp: find_None_iff)
  then obtain j where j: "find ?P ?xs = Some j" by blast
  then have "j \<in> set ?xs" "?P j" by (auto dest: find_SomeD)
  then have "j = i" using set by (auto simp: fmlookup_dom'_iff)
  with j show ?thesis by (simp add: new_chunk_index_def)
qed

lemma facts_of_ids:
  assumes "facts_of db t f"
  shows "ar_id (lf_artifact f) = tr_artifact_id t" "lf_transfer f = t"
  using assms by (simp_all add: facts_of_def)

lemma record_simulates:
  assumes inv: "transfer_inv db"
  shows "simulates (record_expected_chunk_tx db tid index sz bytes)
           (spec_record (abs_transfers db) tid index sz bytes)"
  unfolding record_expected_chunk_tx_def spec_record_def
proof (rule simulates_with [OF inv], goal_cases)
  case (1 t f)
  show ?case
  proof (cases "record_expected_chunk (lf_manifest f) index sz bytes")
    case (Inr outcome)
    show ?thesis
    proof (cases outcome)
      case (ChunkAdded m)
      let ?c = "\<lparr> ec_index = index, ec_size = sz, ec_digest = Digest bytes \<rparr>" and ?i = "index_value index"
      note m = record_expected_chunk_Added [OF Inr [unfolded ChunkAdded]]
      have c: "ec_index ?c = ChunkIndex ?i" "length (digest_bytes (ec_digest ?c)) = 32" using m by simp_all
      let ?row = "chunk_row_of (tr_artifact_id t) ?c False ?i"
      have new: "fmlookup (cm_chunks (lf_manifest f)) ?i = None" using m by blast
      have index: "new_chunk_index m (lf_manifest f) = Some ?i" "fmlookup (cm_chunks m) ?i = Some ?c"
        using m new_chunk_index_insert [OF new] by simp_all
      note ins = insert_chunk_identity_iff [OF inv 1(2) new c(2), of False]
      show ?thesis
      proof (cases "storable ?i sz")
        case False
        then show ?thesis using ins facts_of_ids(1) [OF 1(2)] by (simp add: Inr ChunkAdded index)
      next
        case True
        have "transfer_inv (db\<lparr> xd_chunks := xd_chunks db @ [?row] \<rparr>) \<and>
            abs_transfers (db\<lparr> xd_chunks := xd_chunks db @ [?row] \<rparr>) =
              (abs_transfers db)(tid \<mapsto> f\<lparr> lf_manifest := m \<rparr>)"
          using abs_insert_identity [OF inv 1(1,2) _ new c, of False] m True by simp
        then show ?thesis
          using ins True facts_of_ids(1) [OF 1(2)] by (simp add: Inr ChunkAdded index simulates_def)
      qed
    qed (simp add: Inr)
  qed simp
qed

lemma accept_simulates:
  assumes inv: "transfer_inv db"
  shows "simulates (accept_verified_chunk_tx db tid index bytes) (spec_accept (abs_transfers db) tid index bytes)"
  unfolding accept_verified_chunk_tx_def spec_accept_def
proof (rule simulates_with [OF inv], goal_cases)
  case (1 t f)
  show ?case
  proof (cases "validate_verified_chunk (lf_manifest f) index bytes")
    case (Inr u)
    then have "fmlookup (cm_chunks (lf_manifest f)) (index_value index) \<noteq> None"
      by (auto simp: validate_verified_chunk_def manifest_expected_chunk_def split: option.splits)
    from abs_mark_held [OF inv 1(1,2) this] show ?thesis
      using Inr facts_of_ids(1) [OF 1(2)] by (simp add: simulates_def)
  qed simp
qed

lemma seal_manifest_simulates:
  assumes inv: "transfer_inv db"
  shows "simulates (seal_manifest_tx db tid count bytes) (spec_seal_manifest (abs_transfers db) tid count bytes)"
  unfolding seal_manifest_tx_def spec_seal_manifest_def
proof (rule simulates_with [OF inv], goal_cases)
  case (1 t f)
  show ?case
  proof (cases "manifest_seal (lf_manifest f) count bytes")
    case (Inr outcome)
    show ?thesis
    proof (cases outcome)
      case (ManifestSealed m)
      note sealed = Inr [unfolded ManifestSealed]
      note m = manifest_seal_Sealed [OF sealed]
      have d: "length (digest_bytes (Digest bytes)) = 32" using m by simp
      have fields: "cm_chunk_count m = Some count" "cm_artifact_digest m = Some (Digest bytes)"
        using m by simp_all
      note persist = persist_seal_iff [OF d, of "tr_artifact_id t" count db]
      show ?thesis
      proof (cases "uint count < 2 ^ 31")
        case False
        then show ?thesis
          using persist facts_of_ids(1) [OF 1(2)] by (simp add: Inr ManifestSealed fields)
      next
        case True
        then obtain db' where db': "persist_seal (tr_artifact_id t) count (Digest bytes) db = Some db'"
          using persist by simp
        have "transfer_inv db' \<and> abs_transfers db' = (abs_transfers db)(tid \<mapsto> f\<lparr> lf_manifest := m \<rparr>)"
          using abs_seal [OF inv 1(1,2) _ True d db', of m] sealed by simp
        then show ?thesis
          using True db' facts_of_ids(1) [OF 1(2)] by (simp add: Inr ManifestSealed fields simulates_def)
      qed
    qed (simp add: Inr)
  qed simp
qed

lemma transition_simulates:
  assumes inv: "transfer_inv db"
    and decide: "\<And>f a. facts_ok f \<Longrightarrow> decide f = Ok a \<Longrightarrow> \<exists>st. a = (lf_artifact f)\<lparr> ar_state := st \<rparr> \<and>
      (st = Ar_PendingVerification \<or> st = Ar_Verified \<longrightarrow>
        cm_sealed (lf_manifest f) \<and> chunk_indices (lf_manifest f) |\<subseteq>| lf_held f)"
  shows "simulates (commit_artifact_transition db tid decide) (spec_transition (abs_transfers db) tid decide)"
  unfolding commit_artifact_transition_def spec_transition_def
proof (rule simulates_with [OF inv], goal_cases)
  case (1 t f)
  show ?case
  proof (cases "decide f")
    case (Inr a)
    then obtain st where "a = (lf_artifact f)\<lparr> ar_state := st \<rparr>"
      "st = Ar_PendingVerification \<or> st = Ar_Verified \<longrightarrow>
        cm_sealed (lf_manifest f) \<and> chunk_indices (lf_manifest f) |\<subseteq>| lf_held f"
      using decide [OF 1(3)] by blast
    note a = this
    have "transfer_inv (update_artifact_state (tr_artifact_id t) st db) \<and>
        abs_transfers (update_artifact_state (tr_artifact_id t) st db) =
          (abs_transfers db)(tid \<mapsto> f\<lparr> lf_artifact := a \<rparr>)"
      using abs_artifact_state [OF inv 1(1,2), of st] a by blast
    then show ?thesis using Inr a(1) facts_of_ids(1) [OF 1(2)] by (simp add: simulates_def)
  qed simp
qed

lemma artifact_txs_simulate:
  assumes inv: "transfer_inv db"
  shows "simulates (begin_artifact_verification_tx db tid) (spec_transition (abs_transfers db) tid
           (\<lambda>f. begin_verification (lf_artifact f) (lf_manifest f) (lf_held f)))"
    and "simulates (complete_artifact_verification_tx db tid ok) (spec_transition (abs_transfers db) tid
           (\<lambda>f. complete_verification (lf_artifact f) ok))"
    and "simulates (fail_incomplete_artifact_tx db tid) (spec_transition (abs_transfers db) tid
           (\<lambda>f. fail_incomplete (lf_artifact f)))"
  unfolding begin_artifact_verification_tx_def complete_artifact_verification_tx_def
    fail_incomplete_artifact_tx_def
  by (rule transition_simulates [OF inv],
      auto simp: begin_verification_Ok_iff complete_verification_Ok_iff fail_incomplete_Ok_iff facts_ok_def)+

lemma decide_chunk_commit:
  assumes "decide_chunk_acceptance eng index wire sz f attempt = CommitChunk outcome"
  shows "\<exists>d. digest_parse_wire_value eng (cm_digest_algorithm (lf_manifest f)) wire = Ok d \<and>
    record_expected_chunk (lf_manifest f) index sz (digest_bytes d) = Ok outcome"
  using assms
  by (auto simp: decide_chunk_acceptance_def Let_def
      split: if_splits sum.splits option.splits chunk_record_error.splits)

lemma record_AlreadyRecorded:
  assumes "record_expected_chunk m index sz bytes = Ok ChunkAlreadyRecorded"
  shows "\<exists>c. fmlookup (cm_chunks m) (index_value index) = Some c \<and> ec_size c = sz \<and> ec_digest c = Digest bytes"
  using assms
  by (auto simp: record_expected_chunk_def digest_new_def Let_def split: if_splits option.splits sum.splits)

lemma chunk_acceptance_tx_simulates:
  assumes inv: "transfer_inv db"
  shows "simulates (commit_chunk_acceptance_tx db eng tid index wire sz)
    (spec_chunk_acceptance (find_attempt (xd_jobs db)) eng (abs_transfers db) tid index wire sz)"
  unfolding commit_chunk_acceptance_tx_def spec_chunk_acceptance_def
proof (rule simulates_with [OF inv], goal_cases)
  case (1 t f)
  let ?attempt = "Option.bind (tr_attempt_id (lf_transfer f)) (find_attempt (xd_jobs db))"
  show ?case
  proof (cases "decide_chunk_acceptance eng index wire sz f ?attempt")
    case (CommitChunk outcome)
    then obtain d where rec: "record_expected_chunk (lf_manifest f) index sz (digest_bytes d) = Ok outcome"
      using decide_chunk_commit by blast
    show ?thesis
    proof (cases outcome)
      case (ChunkAdded m)
      let ?c = "\<lparr> ec_index = index, ec_size = sz, ec_digest = Digest (digest_bytes d) \<rparr>" and ?i = "index_value index"
      let ?row = "chunk_row_of (tr_artifact_id t) ?c True ?i"
      note m = record_expected_chunk_Added [OF rec [unfolded ChunkAdded]]
      have c: "ec_index ?c = ChunkIndex ?i" "length (digest_bytes (ec_digest ?c)) = 32" using m by simp_all
      have new: "fmlookup (cm_chunks (lf_manifest f)) ?i = None" using m by blast
      have expected: "manifest_expected_chunk m index = Some ?c"
        using m by (simp add: manifest_expected_chunk_def)
      note ins = insert_chunk_identity_iff [OF inv 1(2) new c(2), of True]
      show ?thesis
      proof (cases "storable ?i sz")
        case False
        then show ?thesis
          using ins facts_of_ids(1) [OF 1(2)] by (simp add: CommitChunk ChunkAdded expected)
      next
        case True
        have "transfer_inv (db\<lparr> xd_chunks := xd_chunks db @ [?row] \<rparr>) \<and>
            abs_transfers (db\<lparr> xd_chunks := xd_chunks db @ [?row] \<rparr>) =
              (abs_transfers db)(tid \<mapsto> f\<lparr> lf_manifest := m, lf_held := finsert index (lf_held f) \<rparr>)"
          using abs_insert_identity [OF inv 1(1,2) _ new c, of True] m True by simp
        then show ?thesis
          using ins True facts_of_ids(1) [OF 1(2)]
          by (simp add: CommitChunk ChunkAdded expected simulates_def)
      qed
    next
      case ChunkAlreadyRecorded
      then have "fmlookup (cm_chunks (lf_manifest f)) (index_value index) \<noteq> None"
        using rec record_AlreadyRecorded by fastforce
      from abs_mark_held [OF inv 1(1,2) this] show ?thesis
        using facts_of_ids(1) [OF 1(2)] by (simp add: CommitChunk ChunkAlreadyRecorded simulates_def)
    qed
  qed simp_all
qed

text \<open>The service on top: a 64-bit index and the answer for an unknown Transfer.\<close>

definition spec_commit_chunk ::
  "(attempt_id \<Rightarrow> attempt option) \<Rightarrow> b64_engine \<Rightarrow> transfer_spec \<Rightarrow> transfer_id \<Rightarrow> u64 \<Rightarrow> string
    \<Rightarrow> u32 \<Rightarrow> transfer_spec \<times> (transfer_store_error + chunk_acceptance_commit)" where
  "spec_commit_chunk attempts eng s tid chunk_index wire sz =
     (if s tid = None then (s, Ok AcceptanceFailedClosed)
      else case u64_to_u32 chunk_index of
        None \<Rightarrow> (s, Ok AcceptanceFailedClosed)
      | Some i \<Rightarrow> spec_chunk_acceptance attempts eng s tid (ChunkIndex i) wire sz)"

lemma spec_chunk_acceptance_known:
  "s tid = Some f \<Longrightarrow> snd (spec_chunk_acceptance attempts eng s tid i wire sz) \<noteq> Err XTransferNotFound"
  by (auto simp: spec_chunk_acceptance_def spec_with_def
      split: chunk_acceptance_decided.splits chunk_record_outcome.splits)

lemma chunk_acceptance_simulates:
  assumes inv: "transfer_inv db"
  shows "simulates (commit_chunk_acceptance db eng tid chunk_index wire sz)
    (spec_commit_chunk (find_attempt (xd_jobs db)) eng (abs_transfers db) tid chunk_index wire sz)"
proof (cases "u64_to_u32 chunk_index")
  case None
  then show ?thesis
    by (simp add: commit_chunk_acceptance_def spec_commit_chunk_def simulates_unchanged [OF inv])
next
  case (Some i)
  obtain db' r where tx: "commit_chunk_acceptance_tx db eng tid (ChunkIndex i) wire sz = (db', r)"
    by (cases "commit_chunk_acceptance_tx db eng tid (ChunkIndex i) wire sz")
  note sim = chunk_acceptance_tx_simulates [OF inv, of eng tid "ChunkIndex i" wire sz]
  show ?thesis
  proof (cases "abs_transfers db tid")
    case None
    then have "(db', r) = (db, Err XTransferNotFound)"
      using tx by (simp add: commit_chunk_acceptance_tx_def with_locked_facts_abs [OF inv])
    then show ?thesis
      using Some None tx simulates_unchanged [OF inv]
      by (simp add: commit_chunk_acceptance_def spec_commit_chunk_def)
  next
    case (Some f)
    then have "r \<noteq> Err XTransferNotFound"
      using sim tx spec_chunk_acceptance_known by (metis simulates_def snd_conv)
    then have "commit_chunk_acceptance db eng tid chunk_index wire sz = (db', r)"
      using \<open>u64_to_u32 chunk_index = Some i\<close> tx
      by (auto simp: commit_chunk_acceptance_def split: sum.splits transfer_store_error.splits)
    then show ?thesis
      using Some \<open>u64_to_u32 chunk_index = Some i\<close> sim tx by (simp add: spec_commit_chunk_def)
  qed
qed

lemma decide_verification_Some:
  assumes "decide_artifact_verification eng input f = Some a"
  shows "\<exists>expected computed. ar_id (lf_artifact f) = vi_artifact_id input \<and>
    ar_state (lf_artifact f) = Ar_PendingVerification \<and> cm_sealed (lf_manifest f) \<and>
    cm_artifact_digest (lf_manifest f) = Some expected \<and>
    digest_parse_wire_value eng (cm_digest_algorithm (lf_manifest f)) (vi_computed_artifact_digest input) = Ok computed \<and>
    a = (lf_artifact f)\<lparr> ar_state := (if computed = expected then Ar_Verified else Ar_Failed) \<rparr>"
proof -
  have "computed = expected \<longleftrightarrow> digest_bytes computed = digest_bytes expected" for computed expected
    by (cases computed; cases expected) simp
  then show ?thesis
    using assms
    by (auto simp: decide_artifact_verification_def complete_verification_Ok_iff
        split: if_splits option.splits sum.splits)
qed

lemma verification_simulates:
  assumes inv: "transfer_inv db"
  shows "simulates (commit_artifact_verification db eng input)
    (spec_verification eng (abs_transfers db) input)"
proof (cases "abs_transfers db (vi_transfer_id input)")
  case None
  then show ?thesis
    using simulates_unchanged [OF inv]
    by (simp add: commit_artifact_verification_def spec_verification_def load_abs [OF inv])
next
  case (Some f)
  then obtain t where t: "find_transfer (xd_jobs db) (vi_transfer_id input) = Some t" "facts_of db t f"
    using abs_transfers_iff [OF inv] by blast
  show ?thesis
  proof (cases "decide_artifact_verification eng input f")
    case None
    then show ?thesis
      using Some simulates_unchanged [OF inv]
      by (simp add: commit_artifact_verification_def spec_verification_def load_abs [OF inv])
  next
    case (Some a)
    from decide_verification_Some [OF this] obtain st where
      a: "a = (lf_artifact f)\<lparr> ar_state := st \<rparr>" and "ar_state (lf_artifact f) = Ar_PendingVerification"
      by blast
    then have "cm_sealed (lf_manifest f) \<and> chunk_indices (lf_manifest f) |\<subseteq>| lf_held f"
      using facts_of_ok [OF inv t(2)] by (simp add: facts_ok_def)
    from abs_artifact_state [OF inv t this, of st] show ?thesis
      using Some a \<open>abs_transfers db (vi_transfer_id input) = Some f\<close> facts_of_ids(1) [OF t(2)]
      by (simp add: commit_artifact_verification_def spec_verification_def load_abs [OF inv] simulates_def)
  qed
qed

section \<open>Sealing with authorization\<close>

text \<open>What a seal decision of the service means for the abstract value.\<close>

definition seal_effect ::
  "auth_env \<Rightarrow> transfer_locked_facts \<Rightarrow> manifest_seal_decided \<Rightarrow> transfer_locked_facts option" where
  "seal_effect env f decided =
     (case decided of
        SealCommit n d \<Rightarrow>
          (case manifest_seal (lf_manifest f) n (digest_bytes d) of
             Inr (ManifestSealed m) \<Rightarrow>
               if uint n < 2 ^ 31
               then Some (f\<lparr> lf_manifest := m,
                             lf_artifact := (lf_artifact f)\<lparr> ar_state := Ar_PendingVerification \<rparr> \<rparr>)
               else None
           | _ \<Rightarrow> None)
      | _ \<Rightarrow> None)"

lemma compose_seal_Commit:
  assumes "compose_seal n d state = SealCommit n' d'"
  shows "n' = n \<and> d' = d \<and> ar_state (ad_artifact state) = Ar_Incomplete \<and>
    (\<exists>m. manifest_seal (ad_manifest state) n (digest_bytes d) = Ok (ManifestSealed m) \<and>
      chunk_indices (ad_manifest state) |\<subseteq>| ad_held state)"
proof (cases "ar_state (ad_artifact state)")
  case Ar_Incomplete
  obtain m b where ms: "manifest_seal (ad_manifest state) n (digest_bytes d) = Ok (ManifestSealed m)"
    and b: "begin_verification (ad_artifact state) m (ad_held state) = Ok b" and eq: "n' = n" "d' = d"
    using assms Ar_Incomplete
    by (auto simp: compose_seal_def
        split: if_splits sum.splits seal_outcome.splits seal_error.splits artifact_transition_error.splits)
  have "chunk_indices m = chunk_indices (ad_manifest state)"
    using manifest_seal_Sealed [OF ms] by (simp add: chunk_indices_def)
  then show ?thesis using Ar_Incomplete ms b eq by (simp add: begin_verification_Ok_iff)
qed (use assms in \<open>auto simp: compose_seal_def split: if_splits sum.splits seal_outcome.splits seal_error.splits\<close>)

lemma decide_seal_Commit:
  assumes "decide_manifest_seal env binding pid now issued n wire replay state = (replay', SealCommit n' d)"
  shows "n' = n \<and> binding_is_backed binding now state \<and>
    digest_parse_wire_value (en_b64 env) (cm_digest_algorithm (ad_manifest state)) wire = Ok d \<and>
    compose_seal n d state = SealCommit n d"
proof -
  have "binding_is_backed binding now state \<and>
      digest_parse_wire_value (en_b64 env) (cm_digest_algorithm (ad_manifest state)) wire = Ok d \<and>
      compose_seal n d state = SealCommit n' d"
  proof (cases "digest_parse_wire_value (en_b64 env) (cm_digest_algorithm (ad_manifest state)) wire")
    case (Inr e)
    then have c: "binding_is_backed binding now state" "compose_seal n e state = SealCommit n' d"
      using assms by (auto simp: decide_manifest_seal_def split: if_splits sum.splits prod.splits)
    have "d = e" using compose_seal_Commit [OF c(2)] by simp
    with c show ?thesis using Inr by simp
  qed (use assms in \<open>simp add: decide_manifest_seal_def split: if_splits\<close>)
  moreover have "n' = n" using compose_seal_Commit [of n d state n' d] calculation by simp
  ultimately show ?thesis by simp
qed

lemma digest_parse_length:
  "digest_parse_wire_value eng a s = Ok d \<Longrightarrow> length (digest_bytes d) = 32"
  by (auto simp: digest_parse_wire_value_def digest_new_def Let_def split: option.splits if_splits sum.splits)

lemma seal_tx_abs:
  assumes inv: "transfer_inv db" and known: "abs_transfers db tid = Some f"
    and endpoint: "endpoints (tr_endpoint_id (lf_transfer f)) = Some e"
    and state: "state = durable_state f (Option.bind (tr_attempt_id (lf_transfer f)) (find_attempt (xd_jobs db))) e"
    and decided: "decide_manifest_seal env binding pid now issued n wire replay state = (replay', decided)"
    and tx: "commit_manifest_seal_tx db (en_b64 env) endpoints tid
        (decide_manifest_seal env binding pid now issued n wire replay) replay = (replay'', db', r)"
  shows "transfer_inv db' \<and> xd_jobs db' = xd_jobs db \<and>
    abs_transfers db' = (case seal_effect env f decided of None \<Rightarrow> abs_transfers db | Some f' \<Rightarrow> (abs_transfers db)(tid \<mapsto> f'))"
proof (cases "\<exists>n' d. decided = SealCommit n' d")
  case False
  then have "db' = db"
    using tx decided endpoint
    by (auto simp: commit_manifest_seal_tx_def load_abs [OF inv] known state [symmetric] Let_def
        split: manifest_seal_decided.splits option.splits prod.splits)
  then show ?thesis using inv False by (cases decided) (auto simp: seal_effect_def)
next
  case True
  then obtain n' d where nd: "decided = SealCommit n' d" by blast
  obtain t where t: "find_transfer (xd_jobs db) tid = Some t" "facts_of db t f"
    using abs_transfers_iff [OF inv] known by blast
  note dec = decide_seal_Commit [OF decided [unfolded nd]]
  have st: "ad_manifest state = lf_manifest f" "ad_artifact state = lf_artifact f" "ad_held state = lf_held f"
    by (simp_all add: state durable_state_def)
  obtain m where
    sealed: "manifest_seal (lf_manifest f) n (digest_bytes d) = Ok (ManifestSealed m)"
    and held: "chunk_indices (lf_manifest f) |\<subseteq>| lf_held f"
    using st compose_seal_Commit [of n d state n d] dec by auto
  note m = manifest_seal_Sealed [OF sealed]
  have d: "length (digest_bytes d) = 32" using dec digest_parse_length by blast
  have run: "db' = (case persist_seal (tr_artifact_id t) n d db of
        None \<Rightarrow> db
      | Some db1 \<Rightarrow> update_artifact_state (tr_artifact_id t) Ar_PendingVerification db1)"
    using tx decided nd dec endpoint facts_of_ids(1) [OF t(2)]
    by (auto simp: commit_manifest_seal_tx_def load_abs [OF inv] known state Let_def split: option.splits)
  show ?thesis
  proof (cases "uint n < 2 ^ 31")
    case False
    then show ?thesis using run inv nd dec sealed by (simp add: persist_seal_iff [OF d] seal_effect_def)
  next
    case True
    then obtain db1 where db1: "persist_seal (tr_artifact_id t) n d db = Some db1"
      by (simp add: persist_seal_iff [OF d])
    note step = abs_seal [OF inv t sealed True d db1]
    have t1: "find_transfer (xd_jobs db1) tid = Some t" using step t(1) by simp
    have ready: "cm_sealed (lf_manifest (f\<lparr> lf_manifest := m \<rparr>)) \<and>
        chunk_indices (lf_manifest (f\<lparr> lf_manifest := m \<rparr>)) |\<subseteq>| lf_held (f\<lparr> lf_manifest := m \<rparr>)"
      using m held by (simp add: chunk_indices_def)
    from abs_artifact_state [OF _ t1 _ ready, of Ar_PendingVerification] step run db1 nd dec sealed True
    show ?thesis by (simp add: seal_effect_def update_artifact_state_def)
  qed
qed

lemma seal_not_found:
  assumes inv: "transfer_inv db" and "abs_transfers db tid = None"
  shows "commit_manifest_seal_tx db eng endpoints tid decide replay = (replay, db, Err XTransferNotFound)"
  using assms by (simp add: commit_manifest_seal_tx_def load_abs)

lemma seal_effect_cases:
  assumes "seal_effect env f decided = Some f'"
  obtains n d m where "decided = SealCommit n d" and "uint n < 2 ^ 31"
    and "manifest_seal (lf_manifest f) n (digest_bytes d) = Ok (ManifestSealed m)"
    and "f' = f\<lparr> lf_manifest := m, lf_artifact := (lf_artifact f)\<lparr> ar_state := Ar_PendingVerification \<rparr> \<rparr>"
  using assms
  by (auto simp: seal_effect_def split: manifest_seal_decided.splits sum.splits seal_outcome.splits if_splits)

text \<open>The whole request: it either changes nothing or seals, and then moves the Artifact along.\<close>

lemma commit_manifest_seal_abs:
  assumes inv: "transfer_inv db"
    and run: "commit_manifest_seal env caps now endpoints replay db input = (replay', db', r)"
  shows "transfer_inv db' \<and> xd_jobs db' = xd_jobs db \<and>
    (abs_transfers db' = abs_transfers db \<or>
     (\<exists>f n d m. abs_transfers db (TransferId (si_transfer_id input)) = Some f \<and>
        ar_state (lf_artifact f) = Ar_Incomplete \<and>
        manifest_seal (lf_manifest f) n (digest_bytes d) = Ok (ManifestSealed m) \<and>
        chunk_indices (lf_manifest f) |\<subseteq>| lf_held f \<and>
        abs_transfers db' = (abs_transfers db)(TransferId (si_transfer_id input) \<mapsto>
          f\<lparr> lf_manifest := m, lf_artifact := (lf_artifact f)\<lparr> ar_state := Ar_PendingVerification \<rparr> \<rparr>)))"
proof (cases "db' = db")
  case True
  then show ?thesis using inv by simp
next
  case False
  let ?tid = "TransferId (si_transfer_id input)"
  obtain binding pid where checked: "check_proof env caps now SealManifest ?tid None (si_token input)
      (si_proof_id input) (si_issued_at_millis input) (si_signature input) = Some (binding, pid)"
    using run False by (auto simp: commit_manifest_seal_def split: option.splits)
  obtain count where count: "u64_to_u32 (si_chunk_count input) = Some count"
    using run False checked by (auto simp: commit_manifest_seal_def split: option.splits)
  have tx: "fst (snd (commit_manifest_seal_tx db (en_b64 env) endpoints ?tid
       (decide_manifest_seal env binding pid now (si_issued_at_millis input) count (si_artifact_digest input) replay)
       replay)) = db'"
    using run by (auto simp: commit_manifest_seal_def checked count
        split: prod.splits sum.splits transfer_store_error.splits)
  let ?decide = "decide_manifest_seal env binding pid now (si_issued_at_millis input) count
     (si_artifact_digest input) replay"
  obtain r1 r2 where tx': "commit_manifest_seal_tx db (en_b64 env) endpoints ?tid ?decide replay = (r1, db', r2)"
    using tx by (metis prod.collapse)
  obtain f where f: "abs_transfers db ?tid = Some f"
    using tx False by (cases "abs_transfers db ?tid") (auto simp: seal_not_found [OF inv])
  obtain e where e: "endpoints (tr_endpoint_id (lf_transfer f)) = Some e"
    using tx False f by (cases "endpoints (tr_endpoint_id (lf_transfer f))")
      (auto simp: commit_manifest_seal_tx_def load_abs [OF inv])
  define state where "state = durable_state f (Option.bind (tr_attempt_id (lf_transfer f)) (find_attempt (xd_jobs db))) e"
  obtain r3 decided where d: "?decide state = (r3, decided)" by (cases "?decide state")
  note abs = seal_tx_abs [OF inv f e state_def d tx']
  show ?thesis
  proof (cases "seal_effect env f decided")
    case None
    with abs show ?thesis by simp
  next
    case (Some f')
    then obtain n dg m where c: "decided = SealCommit n dg"
      "manifest_seal (lf_manifest f) n (digest_bytes dg) = Ok (ManifestSealed m)"
      "f' = f\<lparr> lf_manifest := m, lf_artifact := (lf_artifact f)\<lparr> ar_state := Ar_PendingVerification \<rparr> \<rparr>"
      by (rule seal_effect_cases)
    have "compose_seal n dg state = SealCommit n dg"
      using decide_seal_Commit [OF d [unfolded c(1)]] by simp
    from compose_seal_Commit [OF this] have "ar_state (lf_artifact f) = Ar_Incomplete"
      "chunk_indices (lf_manifest f) |\<subseteq>| lf_held f"
      by (auto simp: state_def durable_state_def)
    with abs Some c f show ?thesis by auto
  qed
qed

section \<open>Creation\<close>

definition context_facts :: "transfer_context \<Rightarrow> transfer_locked_facts" where
  "context_facts c = \<lparr> lf_transfer = tc_transfer c, lf_artifact = tc_artifact c,
     lf_manifest = tc_manifest c, lf_held = {||} \<rparr>"

lemma create_tx_Err:
  "create_transfer_context_tx db u exists ep j s dir alg sz prov = (db', Err e) \<Longrightarrow> db' = db"
  by (auto simp: create_transfer_context_tx_def Let_def split: if_splits prod.splits sum.splits)

lemma create_tx_Ok:
  assumes "create_transfer_context_tx db u exists ep j s dir alg sz prov = (db', Ok c)"
  shows "c = create_transfer_context u ep j s dir alg sz prov"
    and "0 < u32_as_i32 (chunk_size_get sz)"
    and "tr_id (tc_transfer c) \<notin> tr_id ` set (jd_transfers (xd_jobs db))"
    and "ar_id (tc_artifact c) \<notin> tr_artifact_id ` set (jd_transfers (xd_jobs db))"
    and "ar_id (tc_artifact c) \<notin> ar_id ` set (xd_artifacts db)"
    and "ar_id (tc_artifact c) \<notin> mr_artifact_id ` set (xd_manifests db)"
    and "db' = db\<lparr> xd_jobs := (xd_jobs db)\<lparr> jd_transfers := jd_transfers (xd_jobs db) @ [tc_transfer c] \<rparr>,
                 xd_artifacts := xd_artifacts db @ [tc_artifact c],
                 xd_manifests := xd_manifests db @ [\<lparr> mr_artifact_id = ar_id (tc_artifact c), mr_sealed = False,
                   mr_chunk_count = None, mr_artifact_digest = None \<rparr>] \<rparr>"
  using assms
  by (fastforce simp: create_transfer_context_tx_def create_transfer_tx_def create_transfer_context_def
      new_incomplete_def Let_def list_ex_iff split: if_splits option.splits)+

lemma context_ids:
  assumes "c = create_transfer_context u ep j s dir alg sz prov"
  shows "tr_artifact_id (tc_transfer c) = ar_id (tc_artifact c)" "tr_chunk_size (tc_transfer c) = sz"
    "tc_artifact c = new_incomplete (ar_id (tc_artifact c))"
    "tc_manifest c = manifest_new (ar_id (tc_artifact c)) (tr_digest_algorithm (tc_transfer c)) sz"
  by (simp_all add: assms create_transfer_context_def new_incomplete_def Let_def)

lemma create_abs:
  assumes inv: "transfer_inv db"
    and run: "create_transfer_context_tx db u exists ep j s dir alg sz prov = (db', Ok c)"
  shows "transfer_inv db' \<and> abs_transfers db (tr_id (tc_transfer c)) = None \<and>
    abs_transfers db' = (abs_transfers db)(tr_id (tc_transfer c) \<mapsto> context_facts c)"
proof -
  let ?t = "tc_transfer c" and ?aid = "ar_id (tc_artifact c)"
  let ?mr = "\<lparr> mr_artifact_id = ?aid, mr_sealed = False, mr_chunk_count = None, mr_artifact_digest = None \<rparr>"
  note c = create_tx_Ok(1) [OF run] and size = create_tx_Ok(2) [OF run]
    and fresh = create_tx_Ok(3-6) [OF run] and db' = create_tx_Ok(7) [OF run]
  note ids = context_ids [OF c]
  have tables: "jd_transfers (xd_jobs db') = jd_transfers (xd_jobs db) @ [?t]"
    "xd_artifacts db' = xd_artifacts db @ [tc_artifact c]" "xd_manifests db' = xd_manifests db @ [?mr]"
    "xd_chunks db' = xd_chunks db" by (simp_all add: db')
  have rows: "rows_for db' x = rows_for db x" for x by (simp add: rows_for_def tables)
  have none: "rows_for db ?aid = {}" using inv fresh(4) by (force simp: transfer_inv_def rows_for_def)
  have size0: "chunk_size_get sz \<noteq> 0" using size by (auto simp: u32_as_i32_def)
  have seals: "seal_ok db' m" if "m \<in> set (xd_manifests db')" for m
    using that inv by (auto simp: tables transfer_inv_def seal_ok_def rows)
  have backed: "artifact_backed db' a" if "a \<in> set (xd_artifacts db')" for a
  proof (cases "a = tc_artifact c")
    case True
    then show ?thesis by (subst True, subst ids(3)) (simp add: artifact_backed_def new_incomplete_def)
  next
    case False
    then have "a \<in> set (xd_artifacts db)" using that by (simp add: tables)
    moreover from this have "artifact_backed db a" using inv by (simp add: transfer_inv_def)
    ultimately show ?thesis using fresh(3) by (auto simp: artifact_backed_def rows tables)
  qed
  have inv': "transfer_inv db'"
    using inv fresh size0 seals backed ids(1,2)
    by (auto simp: transfer_inv_def transfer_rows_ok_def tables)
  have found: "find_transfer (xd_jobs db') x = Some v \<longleftrightarrow>
      (if x = tr_id ?t then v = ?t else find_transfer (xd_jobs db) x = Some v)" for x v
  proof -
    have "tr_id w \<noteq> tr_id ?t" if "w \<in> set (jd_transfers (xd_jobs db))" for w
      using fresh(1) that by (metis imageI)
    then show ?thesis
      unfolding find_transfer_iff [OF inv'] find_transfer_iff [OF inv] tables by auto
  qed
  have find: "find_transfer (xd_jobs db') x =
      (if x = tr_id ?t then Some ?t else find_transfer (xd_jobs db) x)" for x
  proof (cases "x = tr_id ?t")
    case True
    then show ?thesis using found [of x ?t] by simp
  next
    case False
    note iff = found [of x, unfolded if_not_P [OF this]]
    show ?thesis
    proof (cases "find_transfer (xd_jobs db') x")
      case None
      then have "\<not> (\<exists>v. find_transfer (xd_jobs db) x = Some v)" using iff by simp
      with None False show ?thesis by simp
    next
      case (Some v)
      with iff [of v] False show ?thesis by simp
    qed
  qed
  have unknown: "abs_transfers db (tr_id ?t) = None"
  proof -
    have "find_transfer (xd_jobs db) (tr_id ?t) = None"
    proof (cases "find_transfer (xd_jobs db) (tr_id ?t)")
      case (Some v)
      then have "v \<in> set (jd_transfers (xd_jobs db))" "tr_id v = tr_id ?t"
        by (simp_all add: find_transfer_iff [OF inv])
      with fresh(1) show ?thesis by (metis imageI)
    qed
    then show ?thesis by (simp add: abs_transfers_def load_locked_facts_unknown)
  qed
  have new: "facts_of db' ?t (context_facts c)"
    using none by (simp add: facts_of_def context_facts_def rows tables ids(1,2,4) manifest_new_def)
  have "abs_transfers db' x = ((abs_transfers db)(tr_id ?t \<mapsto> context_facts c)) x" for x
  proof (cases "x = tr_id ?t")
    case True
    have "abs_transfers db' (tr_id ?t) = Some (context_facts c)"
      by (subst abs_transfers_iff [OF inv']) (auto simp: find new)
    with True show ?thesis by simp
  next
    case False
    show ?thesis
    proof (cases "find_transfer (xd_jobs db) x")
      case None
      with False show ?thesis by (simp add: abs_transfers_def load_locked_facts_unknown find)
    next
      case (Some v)
      then obtain g where g: "facts_of db v g" "abs_transfers db x = Some g"
        using load_locked_facts_known [OF inv Some] by (auto simp: abs_transfers_def)
      have "v \<in> set (jd_transfers (xd_jobs db))" using Some by (simp add: find_transfer_iff [OF inv])
      then have "tr_artifact_id v \<noteq> ?aid" using fresh(2) by (metis imageI)
      then have "same_rows (tr_artifact_id v) db db'" by (intro same_rowsI) (auto simp: tables)
      then have "facts_of db' v g" using g(1) by (rule facts_of_same_rows)
      then have "abs_transfers db' x = Some g"
        using Some False by (subst abs_transfers_iff [OF inv']) (auto simp: find)
      with False g(2) show ?thesis by simp
    qed
  qed
  with inv' unknown show ?thesis by blast
qed

end
