(* ===== verification/Transfer_Rebind.thy ===== *)
theory Transfer_Rebind
  imports Transfer_Spec Job_History
begin

text \<open>
  How the transactions of the Job repository act on the abstract map of Transfers: they leave it
  alone, but for the Attempt that an unbound Transfer is bound to.
\<close>

section \<open>Job transactions\<close>

text \<open>A Job transaction may bind unbound Transfers to Attempts and changes nothing else of them.\<close>

definition rebinds :: "transfer \<Rightarrow> transfer \<Rightarrow> bool" where
  "rebinds t u \<longleftrightarrow> u = t \<or> tr_attempt_id t = None \<and> u = t\<lparr> tr_attempt_id := tr_attempt_id u \<rparr>"

definition rebound :: "job_db \<Rightarrow> job_db \<Rightarrow> bool" where
  "rebound jobs jobs' \<longleftrightarrow> list_all2 rebinds (jd_transfers jobs) (jd_transfers jobs')"

lemma rebinds_refl [simp]: "rebinds t t"
  by (simp add: rebinds_def)

lemma rebinds_trans:
  assumes "rebinds t u" and "rebinds u v"
  shows "rebinds t v"
proof (cases "u = t \<or> v = u")
  case False
  then have "tr_attempt_id t = None" "u = t\<lparr> tr_attempt_id := None \<rparr>" using assms by (auto simp: rebinds_def)
  then have "u = t" by (cases t) simp
  with assms(2) show ?thesis by simp
qed (use assms in auto)

lemma rebinds_keeps:
  assumes "rebinds t u"
  shows "tr_id u = tr_id t" "tr_artifact_id u = tr_artifact_id t" "tr_chunk_size u = tr_chunk_size t"
    "tr_digest_algorithm u = tr_digest_algorithm t" "tr_endpoint_id u = tr_endpoint_id t"
    "tr_attempt_id t = Some a \<Longrightarrow> u = t"
proof -
  have u: "u = t\<lparr> tr_attempt_id := tr_attempt_id u \<rparr>" using assms by (auto simp: rebinds_def)
  show "tr_id u = tr_id t" "tr_artifact_id u = tr_artifact_id t" "tr_chunk_size u = tr_chunk_size t"
    "tr_digest_algorithm u = tr_digest_algorithm t" "tr_endpoint_id u = tr_endpoint_id t"
    by (subst u, simp)+
  show "tr_attempt_id t = Some a \<Longrightarrow> u = t" using assms by (auto simp: rebinds_def)
qed

lemma rebound_same [simp]: "jd_transfers jobs' = jd_transfers jobs \<Longrightarrow> rebound jobs jobs'"
  by (simp add: rebound_def list_all2_same)

lemma rebound_trans: "rebound a b \<Longrightarrow> rebound b c \<Longrightarrow> rebound a c"
  unfolding rebound_def by (rule list_all2_trans [OF rebinds_trans])

lemma rebound_binding:
  assumes distinct: "distinct (map tr_id (jd_transfers jobs))"
    and t: "find_transfer jobs tid = Some t" "tr_attempt_id t \<in> {None, Some aid}"
    and bind: "persist_attempt_binding tid aid jobs = Some jobs'"
  shows "rebound jobs jobs'"
proof -
  have "t \<in> set (jd_transfers jobs)" "tr_id t = tid"
    using t(1) by (auto simp: find_transfer_def dest: find_SomeD)
  then have "v = t" if "v \<in> set (jd_transfers jobs)" "tr_id v = tid" for v
    using distinct that by (metis distinct_map inj_onD)
  then have "rebinds v (if tr_id v = tid then v\<lparr> tr_attempt_id := Some aid \<rparr> else v)"
    if "v \<in> set (jd_transfers jobs)" for v
    using that t(2) by (auto simp: rebinds_def)
  then show ?thesis
    using bind by (auto simp: persist_attempt_binding_def rebound_def list_all2_map2 list_all2_same split: if_splits)
qed

lemma rebound_find:
  assumes "rebound jobs jobs'"
  shows "rel_option rebinds (find_transfer jobs tid) (find_transfer jobs' tid)"
proof -
  have "rel_option rebinds (find (\<lambda>t. tr_id t = tid) ts) (find (\<lambda>t. tr_id t = tid) us)"
    if "list_all2 rebinds ts us" for ts us
    using that by (induction rule: list_all2_induct) (auto dest: rebinds_keeps(1))
  then show ?thesis using assms by (simp add: rebound_def find_transfer_def)
qed

lemma rebound_map:
  assumes "rebound jobs jobs'" and "\<And>t u. rebinds t u \<Longrightarrow> f u = f t"
  shows "map f (jd_transfers jobs') = map f (jd_transfers jobs)"
  using assms(1) unfolding rebound_def
  by (induction rule: list_all2_induct) (simp_all add: assms(2))

lemma rebound_mem:
  assumes "rebound jobs jobs'" and "u \<in> set (jd_transfers jobs')"
  shows "\<exists>t \<in> set (jd_transfers jobs). rebinds t u"
  using assms unfolding rebound_def list_all2_conv_all_nth by (metis in_set_conv_nth)

lemma rebound_abs:
  assumes inv: "transfer_inv db" and re: "rebound (xd_jobs db) jobs'"
  shows "transfer_inv (db\<lparr> xd_jobs := jobs' \<rparr>)"
    and "abs_transfers (db\<lparr> xd_jobs := jobs' \<rparr>) tid =
      (case abs_transfers db tid of None \<Rightarrow> None
       | Some f \<Rightarrow> Some (f\<lparr> lf_transfer := the (find_transfer jobs' tid) \<rparr>))"
proof -
  let ?db' = "db\<lparr> xd_jobs := jobs' \<rparr>"
  have rows: "rows_for ?db' x = rows_for db x" for x by (simp add: rows_for_def)

  have old: "chunk_size_get (tr_chunk_size t) \<noteq> 0" "tr_artifact_id t \<in> ar_id ` set (xd_artifacts db)"
      "tr_artifact_id t \<in> mr_artifact_id ` set (xd_manifests db)"
    if "t \<in> set (jd_transfers (xd_jobs db))" for t
    using inv that by (simp_all add: transfer_inv_def transfer_rows_ok_def)
  have "chunk_size_get (tr_chunk_size u) \<noteq> 0 \<and> tr_artifact_id u \<in> ar_id ` set (xd_artifacts db) \<and>
      tr_artifact_id u \<in> mr_artifact_id ` set (xd_manifests db)" if "u \<in> set (jd_transfers jobs')" for u
  proof -
    from rebound_mem [OF re that] obtain t
      where t: "t \<in> set (jd_transfers (xd_jobs db))" "rebinds t u" by blast
    with old [OF t(1)] rebinds_keeps [OF t(2)] show ?thesis by simp
  qed
  then have "transfer_rows_ok ?db'"
    using inv rebound_map [OF re rebinds_keeps(1)] rebound_map [OF re rebinds_keeps(2)]
    by (simp add: transfer_inv_def transfer_rows_ok_def)
  then show inv': "transfer_inv ?db'"
  proof -
    have "seal_ok ?db' mr = seal_ok db mr" "artifact_backed ?db' a = artifact_backed db a" for mr a
      by (simp_all add: seal_ok_def artifact_backed_def rows)
    then show ?thesis using \<open>transfer_rows_ok ?db'\<close> inv by (simp add: transfer_inv_def)
  qed
  show "abs_transfers ?db' tid =
      (case abs_transfers db tid of None \<Rightarrow> None
       | Some f \<Rightarrow> Some (f\<lparr> lf_transfer := the (find_transfer jobs' tid) \<rparr>))"
  proof (cases "find_transfer (xd_jobs db) tid")
    case None
    then have "find_transfer jobs' tid = None" using rebound_find [OF re, of tid] by simp
    with None show ?thesis by (simp add: abs_transfers_def load_locked_facts_unknown)
  next
    case (Some t)
    then obtain u where u: "find_transfer jobs' tid = Some u" "rebinds t u"
      using rebound_find [OF re, of tid] by (auto simp: option_rel_Some1)
    obtain f where f: "facts_of db t f" "abs_transfers db tid = Some f"
      using load_locked_facts_known [OF inv Some] by (auto simp: abs_transfers_def)
    have "facts_of ?db' u (f\<lparr> lf_transfer := u \<rparr>)"
      using f(1) rebinds_keeps [OF u(2)] by (simp add: facts_of_def rows)
    then have "abs_transfers ?db' tid = Some (f\<lparr> lf_transfer := u \<rparr>)"
      using u(1) by (subst abs_transfers_iff [OF inv']) auto
    with u(1) f(2) show ?thesis by simp
  qed
qed

lemma commit_applied_rebound: "jd_transfers (fst (commit_applied jobs u actor job ap now detail)) = jd_transfers jobs"
  by (auto simp: commit_applied_def persist_applied_def update_job_state_def set_job_state_def update_step_def
      update_attempt_state_def insert_events_def insert_audit_record_def
      split: option.split Option.bind_splits if_splits)

lemma evidence_rebound:
  "jd_transfers (fst (apply_action_evidence_tx jobs u act ep ev now detail)) = jd_transfers jobs"
  "jd_transfers (fst (apply_status_report_tx jobs u act ep sr now detail)) = jd_transfers jobs"
  "jd_transfers (fst (apply_cancel_ack_tx jobs u act ep ca now detail)) = jd_transfers jobs"
  "jd_transfers (fst (close_indeterminate_tx jobs rows u operator jid now detail)) = jd_transfers jobs"
  by (auto simp: apply_action_evidence_tx_def apply_status_report_tx_def apply_cancel_ack_tx_def
      close_indeterminate_tx_def commit_applied_rebound split: sum.split prod.split action_evidence_outcome.split
      reconciliation_outcome.split cancel_ack_outcome.split list.split option.split close_indeterminate_outcome.split)

lemma reconcile_rebound: "jd_transfers (fst (reconcile_attempts aids jobs)) = jd_transfers jobs"
  by (induction aids jobs rule: reconcile_attempts.induct)
    (auto simp: update_attempt_state_def Let_def split: option.splits prod.splits)

lemma cancellation_rebound:
  "request_cancellation_pass jobs rows u operator jid now detail = PassDone r \<Longrightarrow>
   jd_transfers (fst r) = jd_transfers jobs"
  by (auto simp: request_cancellation_pass_def decide_cancellation_def Let_def update_job_state_def
      set_job_state_def insert_events_def insert_audit_record_def
      split: list.splits option.splits if_splits sum.splits cancellation_request_error.splits
        cancellation_request_outcome.splits Option.bind_splits)

lemma update_step_transfers [simp]: "jd_transfers (update_step sid f jobs) = jd_transfers jobs"
  by (simp add: update_step_def)

lemma transfer_dispatch_rebound:
  assumes distinct: "distinct (map tr_id (jd_transfers jobs))"
  shows "rebound jobs (fst (commit_transfer_dispatch_tx jobs u jid sid tid))"
proof -
  have bound: "rebound jobs jobs2"
    if t: "find_transfer jobs tid = Some t"
      and ev: "evaluate_transfer_dispatch u \<lparr> td_job = job, td_step_id = sid,
        td_existing_active_attempt = active, td_transfer = t \<rparr> = Ok out"
      and ins: "Option.bind (insert_attempt a (update_step sid f jobs))
        (persist_attempt_binding tid (at_id (to_attempt out))) = Some jobs2"
    for t job active out a f jobs2
  proof -
    from ins obtain jobs1 where jobs1: "insert_attempt a (update_step sid f jobs) = Some jobs1"
      and bind: "persist_attempt_binding tid (at_id (to_attempt out)) jobs1 = Some jobs2"
      by (auto split: Option.bind_splits)
    have same: "jd_transfers jobs1 = jd_transfers jobs"
      using jobs1 by (auto simp: insert_attempt_def split: if_splits)
    have "tr_attempt_id t \<in> {None, Some (at_id (to_attempt out))}"
      using ev by (auto simp: transfer_dispatch_Ok_iff dispatched_attempt_def)
    then have "rebound jobs1 jobs2"
      using rebound_binding [OF _ _ _ bind] distinct t same by (simp add: find_transfer_def)
    with same show ?thesis by (simp add: rebound_def)
  qed
  show ?thesis
    by (simp add: commit_transfer_dispatch_tx_def Let_def split: option.split sum.split) (blast intro: bound)
qed

fun creates_transfer :: "job_op \<Rightarrow> bool" where
  "creates_transfer (OpCreateTransfer _ _) = True"
| "creates_transfer _ = False"

lemma job_step_rebound:
  assumes "\<not> creates_transfer op" and "distinct (map tr_id (jd_transfers jobs))"
  shows "rebound jobs (job_store_step jobs op)"
proof (cases op)
  case (OpRequestCancellation rows u operator jid now detail)
  then show ?thesis using cancellation_rebound by (auto split: cancellation_pass.split)
next
  case (OpCommitTransfer u jid sid tid)
  then show ?thesis using assms(2) by (simp add: transfer_dispatch_rebound)
next
  case (OpCommitDestructive u jid sid facts)
  then show ?thesis
    by (auto simp: commit_destructive_dispatch_tx_def Let_def update_step_def insert_attempt_def
        insert_audit_record_def split: option.split sum.split Option.bind_splits if_splits)
qed (use assms in \<open>auto simp: evidence_rebound reconcile_on_startup_tx_def reconcile_rebound
    create_workflow_tx_def insert_workflow_def authorize_intent_tx_def satisfy_preconditions_tx_def
    admit_job_tx_def update_job_state_def set_job_state_def insert_events_def update_step_def
    mark_endpoint_uncertain_tx_def update_attempt_state_def
    split: option.split sum.split list.split destructive_intent_error.split
      job_step_eligibility_error.split job_admission_error.split if_splits\<close>)

end
