(* ===== verification/Transfer_Machine.thy ===== *)
theory Transfer_Machine
  imports Transfer_Rebind
begin

text \<open>
  All transactions that touch a Transfer as one machine: those of the transfer repository, those of
  the Job repository, and the Agent's evidence, which may fail the Artifact together with its Job.
  Both invariants hold along every run, and what a run records of a Transfer is never taken back.
\<close>

section \<open>What is never taken back\<close>

text \<open>An Artifact leaves \<open>Incomplete\<close> once and a final state never.\<close>

definition artifact_advances :: "artifact \<Rightarrow> artifact \<Rightarrow> bool" where
  "artifact_advances a b \<longleftrightarrow>
     ar_id b = ar_id a \<and>
     (ar_state b = ar_state a \<or> ar_state a = Ar_Incomplete \<or>
      ar_state a = Ar_PendingVerification \<and> ar_state b \<in> {Ar_Verified, Ar_Failed})"

text \<open>A recorded chunk keeps its identity, and a sealed manifest does not change at all.\<close>

definition manifest_advances :: "chunk_manifest \<Rightarrow> chunk_manifest \<Rightarrow> bool" where
  "manifest_advances m n \<longleftrightarrow>
     cm_artifact_id n = cm_artifact_id m \<and> cm_chunk_size n = cm_chunk_size m \<and>
     cm_digest_algorithm n = cm_digest_algorithm m \<and>
     (\<forall>i c. fmlookup (cm_chunks m) i = Some c \<longrightarrow> fmlookup (cm_chunks n) i = Some c) \<and>
     (cm_sealed m \<longrightarrow> n = m)"

definition facts_advance :: "transfer_locked_facts \<Rightarrow> transfer_locked_facts \<Rightarrow> bool" where
  "facts_advance f g \<longleftrightarrow>
     rebinds (lf_transfer f) (lf_transfer g) \<and> artifact_advances (lf_artifact f) (lf_artifact g) \<and>
     manifest_advances (lf_manifest f) (lf_manifest g) \<and> lf_held f |\<subseteq>| lf_held g"

text \<open>\<open>V\<close> names the Transfers whose Artifact may become \<open>Verified\<close> on the way.\<close>

definition transfers_advance :: "transfer_id set \<Rightarrow> transfer_spec \<Rightarrow> transfer_spec \<Rightarrow> bool" where
  "transfers_advance V s s' \<longleftrightarrow> (\<forall>tid f. s tid = Some f \<longrightarrow>
     (\<exists>g. s' tid = Some g \<and> facts_advance f g \<and>
       (ar_state (lf_artifact g) = Ar_Verified \<longrightarrow> ar_state (lf_artifact f) = Ar_Verified \<or> tid \<in> V)))"

lemma artifact_advances_refl [simp]: "artifact_advances a a"
  by (simp add: artifact_advances_def)

lemma manifest_advances_refl [simp]: "manifest_advances m m"
  by (simp add: manifest_advances_def)

lemma facts_advance_refl [simp]: "facts_advance f f"
  by (simp add: facts_advance_def)

lemma artifact_advances_trans: "artifact_advances a b \<Longrightarrow> artifact_advances b c \<Longrightarrow> artifact_advances a c"
  by (auto simp: artifact_advances_def)

lemma manifest_advances_trans: "manifest_advances m n \<Longrightarrow> manifest_advances n k \<Longrightarrow> manifest_advances m k"
  by (auto simp: manifest_advances_def)

lemma facts_advance_trans: "facts_advance f g \<Longrightarrow> facts_advance g h \<Longrightarrow> facts_advance f h"
  by (auto simp: facts_advance_def intro: rebinds_trans artifact_advances_trans manifest_advances_trans)

lemma transfers_advance_refl [simp]: "transfers_advance V s s"
  by (simp add: transfers_advance_def)

lemma transfers_advance_trans:
  "transfers_advance V s t \<Longrightarrow> transfers_advance V t u \<Longrightarrow> transfers_advance V s u"
  unfolding transfers_advance_def by (meson facts_advance_trans)

lemma transfers_advance_mono: "transfers_advance V s t \<Longrightarrow> V \<subseteq> W \<Longrightarrow> transfers_advance W s t"
  unfolding transfers_advance_def by blast

lemma transfers_advance_upd:
  "s tid = Some f \<Longrightarrow> facts_advance f g \<Longrightarrow>
   (ar_state (lf_artifact g) = Ar_Verified \<Longrightarrow> ar_state (lf_artifact f) = Ar_Verified \<or> tid \<in> V) \<Longrightarrow>
   transfers_advance V s (s(tid \<mapsto> g))"
  by (simp add: transfers_advance_def)

lemma transfers_advance_new: "s tid = None \<Longrightarrow> transfers_advance V s (s(tid \<mapsto> g))"
  by (simp add: transfers_advance_def)

lemma spec_with_advances:
  assumes "\<And>f g r. s tid = Some f \<Longrightarrow> body f = (Some g, r) \<Longrightarrow> facts_advance f g \<and>
      (ar_state (lf_artifact g) = Ar_Verified \<longrightarrow> ar_state (lf_artifact f) = Ar_Verified \<or> tid \<in> V)"
  shows "transfers_advance V s (fst (spec_with s tid body))"
  using assms by (auto simp: spec_with_def intro: transfers_advance_upd split: option.split prod.split)

lemma record_advances:
  "record_expected_chunk m index sz bytes = Ok (ChunkAdded m') \<Longrightarrow> manifest_advances m m'"
  by (auto dest!: record_expected_chunk_Added simp: manifest_advances_def)

lemma seal_advances: "manifest_seal m n bytes = Ok (ManifestSealed m') \<Longrightarrow> manifest_advances m m'"
  by (drule manifest_seal_Sealed) (simp add: manifest_advances_def)

lemma spec_record_advances: "transfers_advance {} s (fst (spec_record s tid index sz bytes))"
  unfolding spec_record_def
  by (rule spec_with_advances)
    (auto simp: facts_advance_def record_advances split: sum.splits chunk_record_outcome.splits if_splits)

lemma spec_accept_advances: "transfers_advance {} s (fst (spec_accept s tid index bytes))"
  unfolding spec_accept_def
  by (rule spec_with_advances) (auto simp: facts_advance_def split: sum.splits if_splits)

lemma spec_seal_advances: "transfers_advance {} s (fst (spec_seal_manifest s tid count bytes))"
  unfolding spec_seal_manifest_def
  by (rule spec_with_advances)
    (auto simp: facts_advance_def seal_advances split: sum.splits seal_outcome.splits if_splits)

lemma spec_chunk_advances:
  "transfers_advance {} s (fst (spec_chunk_acceptance attempts eng s tid index wire sz))"
  unfolding spec_chunk_acceptance_def
proof (rule spec_with_advances, goal_cases)
  case (1 f g r)
  then show ?case
  proof (cases "decide_chunk_acceptance eng index wire sz f (Option.bind (tr_attempt_id (lf_transfer f)) attempts)")
    case (CommitChunk outcome)
    then obtain bytes where "record_expected_chunk (lf_manifest f) index sz bytes = Ok outcome"
      using decide_chunk_commit by blast
    with 1 CommitChunk show ?thesis
      by (auto simp: facts_advance_def record_advances split: chunk_record_outcome.splits if_splits)
  qed simp_all
qed

lemma spec_commit_chunk_advances:
  "transfers_advance {} s (fst (spec_commit_chunk attempts eng s tid index wire sz))"
  by (simp add: spec_commit_chunk_def spec_chunk_advances split: option.split)

lemma spec_transition_advances:
  assumes "\<And>f a. decide f = Ok a \<Longrightarrow> artifact_advances (lf_artifact f) a \<and>
    (ar_state a = Ar_Verified \<longrightarrow> tid \<in> V)"
  shows "transfers_advance V s (fst (spec_transition s tid decide))"
  unfolding spec_transition_def
  by (rule spec_with_advances) (auto simp: facts_advance_def assms split: sum.splits)

lemma spec_verification_advances: "transfers_advance {vi_transfer_id input} s (fst (spec_verification eng s input))"
  by (auto simp: spec_verification_def facts_advance_def artifact_advances_def
      intro!: transfers_advance_upd dest!: decide_verification_Some split: option.split)

lemma simulates_advances:
  assumes "simulates tx spec" and "transfers_advance V (abs_transfers db) (fst spec)"
  shows "transfer_inv (fst tx) \<and> transfers_advance V (abs_transfers db) (abs_transfers (fst tx))"
  using assms by (simp add: simulates_def)

lemma rebound_advances:
  assumes inv: "transfer_inv db" and re: "rebound (xd_jobs db) jobs'"
  shows "transfer_inv (db\<lparr> xd_jobs := jobs' \<rparr>) \<and>
    transfers_advance {} (abs_transfers db) (abs_transfers (db\<lparr> xd_jobs := jobs' \<rparr>))"
proof -
  have "facts_advance f (f\<lparr> lf_transfer := the (find_transfer jobs' tid) \<rparr>)"
    if known: "abs_transfers db tid = Some f" for tid f
  proof -
    obtain t where t: "find_transfer (xd_jobs db) tid = Some t" "lf_transfer f = t"
      using known facts_of_ids(2) unfolding abs_transfers_iff [OF inv] by blast
    with rebound_find [OF re, of tid] show ?thesis by (auto simp: facts_advance_def option_rel_Some1)
  qed
  then show ?thesis
    using rebound_abs [OF inv re] by (simp add: transfers_advance_def)
qed

section \<open>Binding and evidence\<close>

lemma binding_allowed: "bind_attempt t a = Ok b \<Longrightarrow> tr_attempt_id t \<in> {None, Some (at_id a)} \<and>
    tr_attempt_id b = Some (at_id a)"
  by (auto simp: bind_attempt_def split: if_splits option.splits)

lemma bind_attempt_tx_cases:
  assumes inv: "transfer_inv db"
  shows "fst (bind_attempt_tx db tid a) = db \<or>
    (\<exists>t jobs'. find_transfer (xd_jobs db) tid = Some t \<and> tr_attempt_id t \<in> {None, Some (at_id a)} \<and>
       persist_attempt_binding tid (at_id a) (xd_jobs db) = Some jobs' \<and>
       fst (bind_attempt_tx db tid a) = db\<lparr> xd_jobs := jobs' \<rparr>)"
proof (cases "abs_transfers db tid")
  case None
  then show ?thesis using inv by (simp add: bind_attempt_tx_def with_locked_facts_abs)
next
  case (Some f)
  then obtain t where t: "find_transfer (xd_jobs db) tid = Some t" "lf_transfer f = t"
    using facts_of_ids(2) unfolding abs_transfers_iff [OF inv] by blast
  show ?thesis
  proof (cases "bind_attempt t a")
    case (Inl e)
    then show ?thesis using inv Some t by (simp add: bind_attempt_tx_def with_locked_facts_abs)
  next
    case (Inr b)
    with binding_allowed [OF Inr] t Some inv show ?thesis
      by (auto simp: bind_attempt_tx_def with_locked_facts_abs split: option.split)
  qed
qed

lemma transfer_ids_distinct: "transfer_inv db \<Longrightarrow> distinct (map tr_id (jd_transfers (xd_jobs db)))"
  by (simp add: transfer_inv_def transfer_rows_ok_def)

lemma bind_attempt_advances:
  assumes inv: "transfer_inv db"
  shows "transfer_inv (fst (bind_attempt_tx db tid a)) \<and>
    transfers_advance {} (abs_transfers db) (abs_transfers (fst (bind_attempt_tx db tid a)))"
  using bind_attempt_tx_cases [OF inv, of tid a]
proof
  assume "\<exists>t jobs'. find_transfer (xd_jobs db) tid = Some t \<and> tr_attempt_id t \<in> {None, Some (at_id a)} \<and>
       persist_attempt_binding tid (at_id a) (xd_jobs db) = Some jobs' \<and>
       fst (bind_attempt_tx db tid a) = db\<lparr> xd_jobs := jobs' \<rparr>"
  then obtain jobs' where "rebound (xd_jobs db) jobs'" "fst (bind_attempt_tx db tid a) = db\<lparr> xd_jobs := jobs' \<rparr>"
    using rebound_binding [OF transfer_ids_distinct [OF inv]] by blast
  with rebound_advances [OF inv] show ?thesis by simp
qed (use inv in simp)

lemma commit_evidence_cases:
  "commit_evidence db u job ap now detail = (db, Err EvidenceBackend) \<or>
   (\<exists>jobs'. commit_applied (xd_jobs db) u System job ap now detail = (jobs', Ok (Some ap)) \<and>
      commit_evidence db u job ap now detail = (db\<lparr> xd_jobs := jobs' \<rparr>, Ok (ResultApplied ap)))"
  by (auto simp: commit_evidence_def commit_applied_def split: prod.split sum.split option.split)

lemma commit_evidence_advances:
  assumes "transfer_inv db"
  shows "transfer_inv (fst (commit_evidence db u job ap now detail)) \<and>
    transfers_advance {} (abs_transfers db) (abs_transfers (fst (commit_evidence db u job ap now detail)))"
  using commit_evidence_cases [of db u job ap now detail]
proof (elim disjE exE conjE)
  fix jobs' assume "commit_applied (xd_jobs db) u System job ap now detail = (jobs', Ok (Some ap))"
  then have "rebound (xd_jobs db) jobs'"
    using commit_applied_rebound [of "xd_jobs db" u System job ap now detail] by simp
  moreover assume "commit_evidence db u job ap now detail = (db\<lparr> xd_jobs := jobs' \<rparr>, Ok (ResultApplied ap))"
  ultimately show ?thesis using rebound_advances [OF assms] by simp
qed (use assms in simp)

lemma incomplete_row_exists:
  assumes "persist_incomplete_artifact_failed aid db = (db1, True)"
  shows "\<exists>a. a \<in> set (xd_artifacts db) \<and> ar_id a = aid \<and> ar_state a = Ar_Incomplete"
proof -
  have "length (filter (\<lambda>a. ar_id a = aid \<and> ar_state a = Ar_Incomplete) (xd_artifacts db)) = 1"
    using assms by (simp add: persist_incomplete_artifact_failed_def)
  then have "filter (\<lambda>a. ar_id a = aid \<and> ar_state a = Ar_Incomplete) (xd_artifacts db) \<noteq> []" by auto
  then show ?thesis by (auto simp: filter_empty_conv)
qed

lemma persist_failed_eq:
  assumes "distinct (map ar_id (xd_artifacts db))"
    and "persist_incomplete_artifact_failed aid db = (db1, True)"
  shows "db1 = update_artifact_state aid Ar_Failed db"
proof -
  obtain a where a: "a \<in> set (xd_artifacts db)" "ar_id a = aid" "ar_state a = Ar_Incomplete"
    using assms(2) incomplete_row_exists by blast
  have "b = a" if "b \<in> set (xd_artifacts db)" "ar_id b = aid" for b
    using assms(1) a that by (metis distinct_map inj_onD)
  then have "(ar_id b = aid \<and> ar_state b = Ar_Incomplete) = (ar_id b = aid)" if "b \<in> set (xd_artifacts db)" for b
    using a that by blast
  then have "map (\<lambda>b. if ar_id b = aid \<and> ar_state b = Ar_Incomplete then b\<lparr> ar_state := Ar_Failed \<rparr> else b)
      (xd_artifacts db) = map (\<lambda>b. if ar_id b = aid then b\<lparr> ar_state := Ar_Failed \<rparr> else b) (xd_artifacts db)"
    by (intro map_cong) auto
  then show ?thesis
    using assms(2) by (auto simp: persist_incomplete_artifact_failed_def update_artifact_state_def)
qed

lemma locked_pair_abs:
  assumes inv: "transfer_inv db" and load: "load_locked_transfer_and_artifact db tid = Ok (Some (t, a))"
  shows "\<exists>f. abs_transfers db tid = Some f \<and> lf_transfer f = t \<and> lf_artifact f = a"
proof -
  obtain row where "find_transfer (xd_jobs db) tid = Some row"
    using load by (auto simp: load_locked_transfer_and_artifact_def split: option.splits)
  then obtain f where "load_locked_facts db tid = Ok (Some f)" using load_locked_facts_known [OF inv] by blast
  then show ?thesis
    using load by (auto simp: abs_transfers_def load_locked_facts_def split: option.splits sum.splits)
qed

lemma load_evidence_OkD:
  assumes "load_evidence_facts db act ep = Ok (Some e)"
  obtains aid where "tr_attempt_id (te_transfer e) = Some aid"
    and "find_attempt (xd_jobs db) aid = Some (te_attempt e)" and "at_action_id (te_attempt e) = act"
    and "find_step_row (xd_jobs db) (at_job_step_id (te_attempt e)) = Some (te_job_step e)"
    and "find_job (xd_jobs db) (js_job_id (te_job_step e)) = Some (te_job e)" and "jb_endpoint_id (te_job e) = ep"
    and "\<exists>tid. load_locked_transfer_and_artifact db tid = Ok (Some (te_transfer e, te_artifact e))"
  using assms by (fastforce simp: load_evidence_facts_def split: option.splits sum.splits if_splits)

lemma load_evidence_locked:
  assumes "job_inv (xd_jobs db)" and "load_evidence_facts db act ep = Ok (Some e)"
  shows "locked_facts (xd_jobs db) act ep = Ok (te_job e, te_job_step e, te_attempt e)"
  using assms(2)
proof (rule load_evidence_OkD)
  fix aid
  assume "find_attempt (xd_jobs db) aid = Some (te_attempt e)" and act: "at_action_id (te_attempt e) = act"
  then have "find_attempt_by_action (xd_jobs db) act = Some (te_attempt e)"
    using job_invD(1) [OF assms(1)] by (simp add: find_attempt_Some_iff find_attempt_by_action_Some_iff)
  moreover assume "find_step_row (xd_jobs db) (at_job_step_id (te_attempt e)) = Some (te_job_step e)"
    "find_job (xd_jobs db) (js_job_id (te_job_step e)) = Some (te_job e)" "jb_endpoint_id (te_job e) = ep"
  ultimately show ?thesis by (simp add: locked_facts_def)
qed

lemma fail_artifact_advances:
  assumes inv: "transfer_inv db" and load: "load_evidence_facts db act ep = Ok (Some e)"
    and failed: "persist_incomplete_artifact_failed (ar_id (te_artifact e)) db = (db1, True)"
  shows "transfer_inv db1 \<and> xd_jobs db1 = xd_jobs db \<and>
    transfers_advance {} (abs_transfers db) (abs_transfers db1)"
proof -
  obtain tid where "load_locked_transfer_and_artifact db tid = Ok (Some (te_transfer e, te_artifact e))"
    using load by (rule load_evidence_OkD) blast
  then obtain f where f: "abs_transfers db tid = Some f" "lf_transfer f = te_transfer e" "lf_artifact f = te_artifact e"
    using locked_pair_abs [OF inv] by blast
  then obtain t where t: "find_transfer (xd_jobs db) tid = Some t" "facts_of db t f"
    using abs_transfers_iff [OF inv] by blast
  have id: "ar_id (te_artifact e) = tr_artifact_id t" using facts_of_ids(1) [OF t(2)] f(3) by simp
  have db1: "db1 = update_artifact_state (tr_artifact_id t) Ar_Failed db"
    using persist_failed_eq [OF _ failed] inv id by (simp add: transfer_inv_def)
  obtain a where "a \<in> set (xd_artifacts db)" "ar_id a = tr_artifact_id t" "ar_state a = Ar_Incomplete"
    using incomplete_row_exists [OF failed] id by auto
  moreover have "lf_artifact f \<in> set (xd_artifacts db)" "ar_id (lf_artifact f) = tr_artifact_id t"
    "distinct (map ar_id (xd_artifacts db))" using inv t(2) by (simp_all add: facts_of_def transfer_inv_def)
  ultimately have "ar_state (lf_artifact f) = Ar_Incomplete" by (metis distinct_map inj_onD)
  then have "transfers_advance {} (abs_transfers db)
      ((abs_transfers db)(tid \<mapsto> f\<lparr> lf_artifact := (lf_artifact f)\<lparr> ar_state := Ar_Failed \<rparr> \<rparr>))"
    by (intro transfers_advance_upd [where f = f]) (simp_all add: f facts_advance_def artifact_advances_def)
  then show ?thesis
    using abs_artifact_state [OF inv t, of Ar_Failed]
    by (simp add: db1) (simp add: update_artifact_state_def)
qed

lemma terminal_evidence_advances:
  assumes inv: "transfer_inv db"
  shows "transfer_inv (fst (apply_transfer_terminal_evidence db u act ep decide now detail)) \<and>
    transfers_advance {} (abs_transfers db)
      (abs_transfers (fst (apply_transfer_terminal_evidence db u act ep decide now detail)))"
proof (cases "\<exists>e ap a. load_evidence_facts db act ep = Ok (Some e) \<and> decide e = DecideApplied ap (Some a)")
  case True
  then obtain e ap a where e: "load_evidence_facts db act ep = Ok (Some e)" "decide e = DecideApplied ap (Some a)"
    by blast
  obtain db1 failed where p: "persist_incomplete_artifact_failed (ar_id (te_artifact e)) db = (db1, failed)" by fastforce
  show ?thesis
  proof (cases failed)
    case True
    note one = fail_artifact_advances [OF inv e(1) p [unfolded eqTrueI [OF True]]]
    note two = commit_evidence_advances [of db1 u "te_job e" ap now detail]
    have "transfers_advance {} (abs_transfers db) (abs_transfers (fst (commit_evidence db1 u (te_job e) ap now detail)))"
      using one two transfers_advance_trans by blast
    then show ?thesis
      using one two inv e p True
      by (auto simp: apply_transfer_terminal_evidence_def split: prod.splits sum.splits)
  qed (use inv e p in \<open>simp add: apply_transfer_terminal_evidence_def\<close>)
next
  case False
  then show ?thesis
    using inv commit_evidence_advances [OF inv]
    by (auto simp: apply_transfer_terminal_evidence_def
        split: sum.split option.split transfer_evidence_decision.split)
qed

lemma terminal_evidence_job_inv:
  assumes inv: "transfer_inv db" and jobs: "job_inv (xd_jobs db)"
    and ok: "\<And>e ap a. locked_facts (xd_jobs db) act ep = Ok (te_job e, te_job_step e, te_attempt e) \<Longrightarrow>
      decide e = DecideApplied ap a \<Longrightarrow> applied_ok (te_job e) (te_job_step e) (te_attempt e) ap"
  shows "job_inv (xd_jobs (fst (apply_transfer_terminal_evidence db u act ep decide now detail)))"
proof (cases "load_evidence_facts db act ep")
  case (Inr r)
  show ?thesis
  proof (cases r)
    case (Some e)
    note load = Inr [unfolded Some] and facts = locked_facts_OkD [OF load_evidence_locked [OF jobs] job_invD(1) [OF jobs]]
    have commit: "job_inv (xd_jobs (fst (commit_evidence db' u (te_job e) ap now detail)))"
      if "xd_jobs db' = xd_jobs db" "decide e = DecideApplied ap a" for db' ap a
    proof -
      have "job_inv (fst (commit_applied (xd_jobs db') u System (te_job e) ap now detail))"
        using commit_applied_inv [OF jobs facts(1,3,4,5)] load ok [OF load_evidence_locked [OF jobs load] that(2)]
          that(1) by simp
      then show ?thesis
        using commit_evidence_cases [of db' u "te_job e" ap now detail] jobs that(1) by auto
    qed
    have same: "xd_jobs db1 = xd_jobs db" if "persist_incomplete_artifact_failed x db = (db1, failed)" for x db1 failed
      using that by (auto simp: persist_incomplete_artifact_failed_def)
    show ?thesis
    proof (cases "decide e")
      case (DecideApplied ap a)
      show ?thesis
      proof (cases a)
        case None
        then show ?thesis using load DecideApplied commit [OF refl] by (simp add: apply_transfer_terminal_evidence_def)
      next
        case (Some b)
        obtain db1 failed where p: "persist_incomplete_artifact_failed (ar_id (te_artifact e)) db = (db1, failed)"
          by fastforce
        show ?thesis
          using load DecideApplied Some p commit [OF same [OF p] DecideApplied] jobs
          by (auto simp: apply_transfer_terminal_evidence_def split: sum.splits prod.splits)
      qed
    qed (use load jobs in \<open>simp_all add: apply_transfer_terminal_evidence_def\<close>)
  qed (use Inr jobs in \<open>simp add: apply_transfer_terminal_evidence_def\<close>)
qed (use jobs in \<open>simp add: apply_transfer_terminal_evidence_def\<close>)

section \<open>The machine\<close>

text \<open>
  The state is the database alone: the stores in memory, the clock and the random source enter a
  request as arguments, so a run may interleave requests against any of their contents.
\<close>

datatype transfer_op =
    TxJob job_op
  | TxCreate uuid_source bool endpoint_id job_id job_step_id transfer_direction digest_algorithm chunk_size
      source_provenance
  | TxRecord transfer_id chunk_index u32 "byte list"
  | TxAcceptVerified transfer_id chunk_index "byte list"
  | TxSealManifest transfer_id u32 "byte list"
  | TxBeginVerification transfer_id
  | TxCompleteVerification transfer_id bool
  | TxFailIncomplete transfer_id
  | TxBindAttempt transfer_id attempt
  | TxChunkAcceptance b64_engine transfer_id u64 string u32
  | TxSealRequest auth_env capability_store time "endpoint_id \<Rightarrow> endpoint_aggregate option" replay_cache manifest_seal_input
  | TxVerification b64_engine artifact_verification_input
  | TxActionAck uuid_source endpoint_id "action_id option" action_id bool time string
  | TxActionResult "string \<Rightarrow> uuid option" "uuid \<Rightarrow> string" uuid_source endpoint_id "action_id option" action_id
      action_result_outcome detail_fields time string
  | TxCancelAck uuid_source endpoint_id "action_id option" action_id cancel_ack_evidence time string
  | TxStatusReport uuid_source endpoint_id "action_id option" action_id status_report_evidence time string

fun transfer_step :: "transfer_db \<Rightarrow> transfer_op \<Rightarrow> transfer_db" where
  "transfer_step db (TxJob op) = db\<lparr> xd_jobs := job_store_step (xd_jobs db) op \<rparr>"
| "transfer_step db (TxCreate u exists ep j s dir alg sz prov) =
     fst (create_transfer_context_tx db u exists ep j s dir alg sz prov)"
| "transfer_step db (TxRecord tid index sz bytes) = fst (record_expected_chunk_tx db tid index sz bytes)"
| "transfer_step db (TxAcceptVerified tid index bytes) = fst (accept_verified_chunk_tx db tid index bytes)"
| "transfer_step db (TxSealManifest tid count bytes) = fst (seal_manifest_tx db tid count bytes)"
| "transfer_step db (TxBeginVerification tid) = fst (begin_artifact_verification_tx db tid)"
| "transfer_step db (TxCompleteVerification tid ok) = fst (complete_artifact_verification_tx db tid ok)"
| "transfer_step db (TxFailIncomplete tid) = fst (fail_incomplete_artifact_tx db tid)"
| "transfer_step db (TxBindAttempt tid a) = fst (bind_attempt_tx db tid a)"
| "transfer_step db (TxChunkAcceptance eng tid index wire sz) =
     fst (commit_chunk_acceptance db eng tid index wire sz)"
| "transfer_step db (TxSealRequest env caps now endpoints replay input) =
     fst (snd (commit_manifest_seal env caps now endpoints replay db input))"
| "transfer_step db (TxVerification eng input) = fst (commit_artifact_verification db eng input)"
| "transfer_step db (TxActionAck u ep corr act accepted now detail) =
     fst (handle_action_ack db u ep corr act accepted now detail)"
| "transfer_step db (TxActionResult parse_str hyphenated u ep corr act outcome body now detail) =
     fst (handle_action_result parse_str hyphenated db u ep corr act outcome body now detail)"
| "transfer_step db (TxCancelAck u ep corr act ev now detail) =
     fst (handle_cancel_ack db u ep corr act ev now detail)"
| "transfer_step db (TxStatusReport u ep corr act ev now detail) =
     fst (handle_status_report db u ep corr act ev now detail)"

definition transfer_run :: "transfer_db \<Rightarrow> transfer_op list \<Rightarrow> transfer_db" where
  "transfer_run db ops = foldl transfer_step db ops"

lemma transfer_run_simps [simp]:
  "transfer_run db [] = db" "transfer_run db (op # ops) = transfer_run (transfer_step db op) ops"
  by (simp_all add: transfer_run_def)

lemma transfer_run_append: "transfer_run db (xs @ ys) = transfer_run (transfer_run db xs) ys"
  by (simp add: transfer_run_def)

text \<open>
  A row of \<open>transfers\<close> is only inserted together with its Artifact and manifest; a late
  \<open>CancelAck\<close> is constrained as for the Job tables alone.
\<close>

fun tx_conforms :: "transfer_db \<Rightarrow> transfer_op \<Rightarrow> bool" where
  "tx_conforms db (TxJob op) = (\<not> creates_transfer op \<and> op_conforms (xd_jobs db) op)"
| "tx_conforms db (TxCancelAck u ep corr act ev now detail) =
     op_conforms (xd_jobs db) (OpCancelAck u act ep ev now detail)"
| "tx_conforms db _ = True"

fun transfer_conforms :: "transfer_db \<Rightarrow> transfer_op list \<Rightarrow> bool" where
  "transfer_conforms db [] = True"
| "transfer_conforms db (op # ops) = (tx_conforms db op \<and> transfer_conforms (transfer_step db op) ops)"

definition platform_inv :: "transfer_db \<Rightarrow> bool" where
  "platform_inv db \<longleftrightarrow> transfer_inv db \<and> job_inv (xd_jobs db)"

text \<open>What a transaction owes: both invariants, and nothing taken back.\<close>

definition keeps :: "transfer_id set \<Rightarrow> transfer_db \<Rightarrow> transfer_db \<Rightarrow> bool" where
  "keeps V db db' \<longleftrightarrow> platform_inv db' \<and> transfers_advance V (abs_transfers db) (abs_transfers db')"

lemma keeps_same [simp]: "platform_inv db \<Longrightarrow> keeps V db db"
  by (simp add: keeps_def)

lemma keeps_simulated:
  assumes "platform_inv db" and "simulates tx spec" and "transfers_advance V (abs_transfers db) (fst spec)"
    and "job_inv (xd_jobs (fst tx))"
  shows "keeps V db (fst tx)"
  using simulates_advances [OF assms(2,3)] assms(4) by (simp add: keeps_def platform_inv_def)

lemma keeps_jobs:
  assumes "platform_inv db" and "rebound (xd_jobs db) jobs'" and "job_inv jobs'"
  shows "keeps {} db (db\<lparr> xd_jobs := jobs' \<rparr>)"
  using rebound_advances [of db jobs'] assms by (simp add: keeps_def platform_inv_def)

text \<open>The transactions of the transfer repository do not touch the Job tables.\<close>

lemma locked_frame:
  "(\<And>f. xd_jobs (fst (body f)) = xd_jobs db) \<Longrightarrow> xd_jobs (fst (with_locked_facts db tid body)) = xd_jobs db"
  by (auto simp: with_locked_facts_def split: sum.split option.split)

lemma row_updates_frame:
  "insert_chunk_identity r db = Some db' \<Longrightarrow> xd_jobs db' = xd_jobs db"
  "xd_jobs (mark_chunk_held aid i db) = xd_jobs db"
  "persist_seal aid count d db = Some db' \<Longrightarrow> xd_jobs db' = xd_jobs db"
  "xd_jobs (update_artifact_state aid st db) = xd_jobs db"
  by (auto simp: insert_chunk_identity_def mark_chunk_held_def persist_seal_def update_artifact_state_def
      Let_def split: if_splits option.splits)

lemma repository_frame:
  "xd_jobs (fst (record_expected_chunk_tx db tid index sz bytes)) = xd_jobs db"
  "xd_jobs (fst (accept_verified_chunk_tx db tid index bytes)) = xd_jobs db"
  "xd_jobs (fst (seal_manifest_tx db tid count bytes)) = xd_jobs db"
  "xd_jobs (fst (commit_artifact_transition db tid decide)) = xd_jobs db"
  "xd_jobs (fst (commit_chunk_acceptance_tx db eng tid index wire sz)) = xd_jobs db"
  unfolding record_expected_chunk_tx_def accept_verified_chunk_tx_def seal_manifest_tx_def
    commit_artifact_transition_def commit_chunk_acceptance_tx_def
  by (rule locked_frame, auto simp: row_updates_frame split: sum.split chunk_record_outcome.split
      seal_outcome.split option.split chunk_acceptance_decided.split)+

lemma service_frame:
  "xd_jobs (fst (commit_chunk_acceptance db eng tid index wire sz)) = xd_jobs db"
  "xd_jobs (fst (commit_artifact_verification db eng input)) = xd_jobs db"
  using repository_frame(5) [of db eng tid _ wire sz]
  by (auto simp: commit_chunk_acceptance_def commit_artifact_verification_def row_updates_frame
      split: option.split sum.split transfer_store_error.split prod.split)
     (metis fst_conv)+

text \<open>Evidence on the Job path and on the transfer path.\<close>

lemma keeps_generic:
  assumes "platform_inv db" and "rebound (xd_jobs db) (fst tx)" and "job_inv (fst tx)"
  shows "keeps {} db (fst (generic_evidence db tx))"
  using assms keeps_jobs [OF assms]
  by (cases tx) (auto simp: generic_evidence_def split: sum.split job_store_error.split)

lemma keeps_terminal_evidence:
  assumes "platform_inv db"
    and "\<And>e ap a. locked_facts (xd_jobs db) act ep = Ok (te_job e, te_job_step e, te_attempt e) \<Longrightarrow>
      decide e = DecideApplied ap a \<Longrightarrow> applied_ok (te_job e) (te_job_step e) (te_attempt e) ap"
  shows "keeps {} db (fst (apply_transfer_terminal_evidence db u act ep decide now detail))"
  using assms terminal_evidence_advances [of db u act ep decide now detail]
    terminal_evidence_job_inv [of db act ep decide u now detail]
  by (simp add: keeps_def platform_inv_def)

lemma reconciliation_reply_fst: "fst (reconciliation_reply r generic) \<in> {fst r, fst generic}"
  by (auto simp: reconciliation_reply_def
      split: prod.split sum.split transfer_evidence_result.split transfer_evidence_error.split)

lemma leg_applied: "with_artifact_leg final e ap = DecideApplied ap' a \<Longrightarrow> ap' = ap"
  by (auto simp: with_artifact_leg_def split: if_splits sum.splits)

lemma decisions_applied:
  "decide_transfer_terminal_evidence u d now e = DecideApplied ap a \<Longrightarrow>
     applied_ok (te_job e) (te_job_step e) (te_attempt e) ap"
  "decide_transfer_status_report_cancelled u now e = DecideApplied ap a \<Longrightarrow>
     applied_ok (te_job e) (te_job_step e) (te_attempt e) ap"
  "decide_transfer_status_report_failed u now e = DecideApplied ap a \<Longrightarrow>
     applied_ok (te_job e) (te_job_step e) (te_attempt e) ap"
  "decide_transfer_cancel_ack u ev now e = DecideApplied ap a \<Longrightarrow>
     apply_cancel_ack u (te_job e) (te_job_step e) (te_attempt e) ev now = CancelAckApplied ap"
  by (auto simp: decide_transfer_terminal_evidence_def decide_transfer_status_report_cancelled_def
      decide_transfer_status_report_failed_def decide_transfer_cancel_ack_def
      dest!: leg_applied intro: action_evidence_ok status_report_ok
      split: if_splits action_evidence_outcome.splits reconciliation_outcome.splits cancel_ack_outcome.splits
        transfer_result_code.splits sum.splits)

lemma cancel_ack_conforming_ok:
  assumes "op_conforms jobs (OpCancelAck u act ep ev now detail)" and "locked_facts jobs act ep = Ok (j, s, a)"
    and "apply_cancel_ack u j s a ev now = CancelAckApplied ap"
  shows "applied_ok j s a ap"
  using cancel_ack_ok [OF assms(3)] cancel_ack_terminal_attempt [OF assms(3)] assms(1,2)
  by (cases "attempt_active (at_state a)") auto

lemma handlers_keep:
  assumes inv: "platform_inv db"
  shows "keeps {} db (fst (handle_action_ack db u ep corr act accepted now detail))"
    and "keeps {} db (fst (handle_action_result ps hy db u ep corr act outcome body now detail))"
    and "keeps {} db (fst (handle_status_report db u ep corr act sr now detail))"
    and "op_conforms (xd_jobs db) (OpCancelAck u act ep ev now detail) \<Longrightarrow>
      keeps {} db (fst (handle_cancel_ack db u ep corr act ev now detail))"
proof -
  have jobs: "job_inv (xd_jobs db)" using inv by (simp add: platform_inv_def)
  have evidence: "keeps {} db (fst (generic_evidence db (apply_action_evidence_tx (xd_jobs db) u act ep e now detail)))"
    and report: "keeps {} db (fst (generic_evidence db (apply_status_report_tx (xd_jobs db) u act ep sr now detail)))" for e sr
    by (intro keeps_generic [OF inv] rebound_same evidence_rebound action_evidence_tx_inv status_report_tx_inv jobs)+
  have result: "keeps {} db (fst (apply_transfer_terminal_evidence db u act ep
      (decide_transfer_terminal_evidence u d now) now detail))"
    and cancelled: "keeps {} db (fst (apply_transfer_terminal_evidence db u act ep
      (decide_transfer_status_report_cancelled u now) now detail))"
    and failed: "keeps {} db (fst (apply_transfer_terminal_evidence db u act ep
      (decide_transfer_status_report_failed u now) now detail))" for d
    by (rule keeps_terminal_evidence [OF inv], erule decisions_applied)+
  show "keeps {} db (fst (handle_action_ack db u ep corr act accepted now detail))"
    using inv evidence by (simp add: handle_action_ack_def)
  show "keeps {} db (fst (handle_action_result ps hy db u ep corr act outcome body now detail))"
    using inv evidence result [of "projr (parse_transfer_result_detail ps hy outcome body)"]
    by (auto simp: handle_action_result_def split: transfer_action_classification.split sum.split prod.split
        transfer_evidence_result.split transfer_evidence_error.split)
  show "keeps {} db (fst (handle_status_report db u ep corr act sr now detail))"
    using inv report [of sr] cancelled failed
      reconciliation_reply_fst [of "apply_transfer_terminal_evidence db u act ep
        (if sr = ReportCancelled then decide_transfer_status_report_cancelled u now
         else decide_transfer_status_report_failed u now) now detail"
        "generic_evidence db (apply_status_report_tx (xd_jobs db) u act ep sr now detail)"]
    by (auto simp: handle_status_report_def Let_def split: transfer_action_classification.split if_splits)
  assume conf: "op_conforms (xd_jobs db) (OpCancelAck u act ep ev now detail)"
  have "keeps {} db (fst (generic_evidence db (apply_cancel_ack_tx (xd_jobs db) u act ep ev now detail)))"
    by (intro keeps_generic [OF inv] rebound_same evidence_rebound cancel_ack_tx_inv jobs conf)
  moreover have "keeps {} db (fst (apply_transfer_terminal_evidence db u act ep
      (decide_transfer_cancel_ack u ev now) now detail))"
    by (rule keeps_terminal_evidence [OF inv]) (rule cancel_ack_conforming_ok [OF conf _ decisions_applied(4)])
  ultimately show "keeps {} db (fst (handle_cancel_ack db u ep corr act ev now detail))"
    using inv reconciliation_reply_fst [of "apply_transfer_terminal_evidence db u act ep
        (decide_transfer_cancel_ack u ev now) now detail"
        "generic_evidence db (apply_cancel_ack_tx (xd_jobs db) u act ep ev now detail)"]
    by (auto simp: handle_cancel_ack_def Let_def split: transfer_action_classification.split)
qed

lemma create_keeps:
  assumes inv: "platform_inv db"
  shows "keeps {} db (fst (create_transfer_context_tx db u exists ep j s dir alg sz prov))"
proof -
  obtain db' r where tx: "create_transfer_context_tx db u exists ep j s dir alg sz prov = (db', r)" by fastforce
  show ?thesis
  proof (cases r)
    case (Inl e)
    then show ?thesis using create_tx_Err [OF tx [unfolded Inl]] inv tx by simp
  next
    case (Inr c)
    note made = create_abs [OF _ tx [unfolded Inr]] and rows = create_tx_Ok(7) [OF tx [unfolded Inr]]
    have "transfer_inv db'" "transfers_advance {} (abs_transfers db) (abs_transfers db')"
      using made inv by (auto simp: platform_inv_def intro: transfers_advance_new)
    moreover have "job_inv (xd_jobs db')" using inv by (simp add: rows platform_inv_def)
    ultimately show ?thesis using tx by (simp add: keeps_def platform_inv_def)
  qed
qed

lemma seal_request_keeps:
  assumes inv: "platform_inv db"
  shows "keeps {} db (fst (snd (commit_manifest_seal env caps now endpoints replay db input)))"
proof -
  obtain r' db' r where tx: "commit_manifest_seal env caps now endpoints replay db input = (r', db', r)"
    by (metis prod.collapse)
  have "transfer_inv db" using inv by (simp add: platform_inv_def)
  note abs = commit_manifest_seal_abs [OF this tx]
  have "facts_advance f (f\<lparr> lf_manifest := m, lf_artifact := (lf_artifact f)\<lparr> ar_state := Ar_PendingVerification \<rparr> \<rparr>)"
    if "ar_state (lf_artifact f) = Ar_Incomplete"
      "manifest_seal (lf_manifest f) n bytes = Ok (ManifestSealed m)" for f m n bytes
    using that by (simp add: facts_advance_def artifact_advances_def seal_advances)
  then have "transfers_advance {} (abs_transfers db) (abs_transfers db')"
    using abs transfers_advance_upd by fastforce
  then show ?thesis using abs tx inv by (simp add: keeps_def platform_inv_def)
qed

lemma bind_keeps:
  assumes inv: "platform_inv db"
  shows "keeps {} db (fst (bind_attempt_tx db tid a))"
proof -
  have t: "transfer_inv db" using inv by (simp add: platform_inv_def)
  have "job_inv (xd_jobs (fst (bind_attempt_tx db tid a)))"
    using bind_attempt_tx_cases [OF t, of tid a] inv
    by (auto simp: platform_inv_def persist_attempt_binding_def split: if_splits)
  then show ?thesis using bind_attempt_advances [OF t] by (simp add: keeps_def platform_inv_def)
qed

lemma transition_keeps:
  assumes inv: "platform_inv db"
  shows "keeps {} db (fst (begin_artifact_verification_tx db tid))"
    and "keeps (if ok then {tid} else {}) db (fst (complete_artifact_verification_tx db tid ok))"
    and "keeps {} db (fst (fail_incomplete_artifact_tx db tid))"
proof -
  have t: "transfer_inv db" and j: "job_inv (xd_jobs db)" using inv by (simp_all add: platform_inv_def)
  note sim = artifact_txs_simulate [OF t]
  have frame: "job_inv (xd_jobs (fst (begin_artifact_verification_tx db tid)))"
    "job_inv (xd_jobs (fst (complete_artifact_verification_tx db tid ok)))"
    "job_inv (xd_jobs (fst (fail_incomplete_artifact_tx db tid)))"
    using j by (simp_all add: begin_artifact_verification_tx_def complete_artifact_verification_tx_def
        fail_incomplete_artifact_tx_def repository_frame)
  show "keeps {} db (fst (begin_artifact_verification_tx db tid))"
    by (rule keeps_simulated [OF inv sim(1) spec_transition_advances frame(1)])
      (simp add: begin_verification_Ok_iff artifact_advances_def)
  show "keeps (if ok then {tid} else {}) db (fst (complete_artifact_verification_tx db tid ok))"
    by (rule keeps_simulated [OF inv sim(2) spec_transition_advances frame(2)])
      (auto simp: complete_verification_Ok_iff artifact_advances_def)
  show "keeps {} db (fst (fail_incomplete_artifact_tx db tid))"
    by (rule keeps_simulated [OF inv sim(3) spec_transition_advances frame(3)])
      (simp add: fail_incomplete_Ok_iff artifact_advances_def)
qed

lemma repository_keeps:
  assumes inv: "platform_inv db"
  shows "keeps {} db (fst (record_expected_chunk_tx db tid index sz bytes))"
    and "keeps {} db (fst (accept_verified_chunk_tx db tid index bytes))"
    and "keeps {} db (fst (seal_manifest_tx db tid count bytes))"
    and "keeps {} db (fst (commit_chunk_acceptance db eng tid i wire sz))"
    and "keeps {vi_transfer_id input} db (fst (commit_artifact_verification db eng input))"
proof -
  have t: "transfer_inv db" and j: "job_inv (xd_jobs db)" using inv by (simp_all add: platform_inv_def)
  show "keeps {} db (fst (record_expected_chunk_tx db tid index sz bytes))"
    by (rule keeps_simulated [OF inv record_simulates [OF t] spec_record_advances]) (simp add: repository_frame j)
  show "keeps {} db (fst (accept_verified_chunk_tx db tid index bytes))"
    by (rule keeps_simulated [OF inv accept_simulates [OF t] spec_accept_advances]) (simp add: repository_frame j)
  show "keeps {} db (fst (seal_manifest_tx db tid count bytes))"
    by (rule keeps_simulated [OF inv seal_manifest_simulates [OF t] spec_seal_advances]) (simp add: repository_frame j)
  show "keeps {} db (fst (commit_chunk_acceptance db eng tid i wire sz))"
    by (rule keeps_simulated [OF inv chunk_acceptance_simulates [OF t] spec_commit_chunk_advances])
      (simp add: service_frame j)
  show "keeps {vi_transfer_id input} db (fst (commit_artifact_verification db eng input))"
    by (rule keeps_simulated [OF inv verification_simulates [OF t] spec_verification_advances])
      (simp add: service_frame j)
qed

fun may_verify :: "transfer_op \<Rightarrow> transfer_id set" where
  "may_verify (TxCompleteVerification tid ok) = (if ok then {tid} else {})"
| "may_verify (TxVerification eng input) = {vi_transfer_id input}"
| "may_verify _ = {}"

theorem transfer_step_keeps:
  assumes inv: "platform_inv db" and conf: "tx_conforms db op"
  shows "keeps (may_verify op) db (transfer_step db op)"
proof (cases op)
  case (TxJob jop)
  have "rebound (xd_jobs db) (job_store_step (xd_jobs db) jop)" "job_inv (job_store_step (xd_jobs db) jop)"
    using job_step_rebound [of jop "xd_jobs db"] transfer_ids_distinct [of db]
      job_store_step_inv [of "xd_jobs db" jop] inv conf TxJob by (simp_all add: platform_inv_def)
  then show ?thesis using keeps_jobs [OF inv] TxJob by simp
next
  case (TxCancelAck u ep corr act ev now detail)
  then show ?thesis using handlers_keep(4) [OF inv] conf by simp
qed (simp_all only: transfer_step.simps may_verify.simps create_keeps seal_request_keeps bind_keeps transition_keeps repository_keeps handlers_keep(1-3) inv)

section \<open>Runs\<close>

inductive transfer_moves :: "transfer_db \<Rightarrow> transfer_db \<Rightarrow> bool" where
  transfer_moves_op: "tx_conforms db op \<Longrightarrow> transfer_moves db (transfer_step db op)"

inductive_cases transfer_moves_cases: "transfer_moves db db'"

lemma platform_inv_empty: "platform_inv empty_transfers"
  by (simp add: platform_inv_def transfer_inv_def transfer_rows_ok_def empty_transfers_def job_inv_empty)
     (simp add: empty_jobs_def)

interpretation transfer_machine: invariant_machine "\<lambda>db. db = empty_transfers" transfer_moves platform_inv
proof
  show "platform_inv db" if "db = empty_transfers" for db using that platform_inv_empty by simp
  show "platform_inv db'" if "platform_inv db" "transfer_moves db db'" for db db'
    using that(2) transfer_step_keeps [OF that(1)] by (auto simp: keeps_def elim!: transfer_moves_cases)
qed

lemma transfer_conforms_moves: "transfer_conforms db ops \<Longrightarrow> transfer_moves\<^sup>*\<^sup>* db (transfer_run db ops)"
  by (induction ops arbitrary: db) (auto intro: transfer_moves_op converse_rtranclp_into_rtranclp)

lemma transfer_run_inv: "transfer_conforms db ops \<Longrightarrow> platform_inv db \<Longrightarrow> platform_inv (transfer_run db ops)"
  by (rule transfer_machine.inv_run [OF transfer_conforms_moves])

lemma transfer_conforms_append:
  "transfer_conforms db (xs @ ys) \<longleftrightarrow> transfer_conforms db xs \<and> transfer_conforms (transfer_run db xs) ys"
  by (induction xs arbitrary: db) simp_all

lemma transfer_run_advances:
  "transfer_conforms db ops \<Longrightarrow> platform_inv db \<Longrightarrow>
   transfers_advance UNIV (abs_transfers db) (abs_transfers (transfer_run db ops))"
proof (induction ops arbitrary: db)
  case (Cons op ops)
  then have "keeps (may_verify op) db (transfer_step db op)" by (simp add: transfer_step_keeps)
  with Cons show ?case
    by (auto simp: keeps_def intro: transfers_advance_trans [OF transfers_advance_mono])
qed simp

end
