(* ===== verification/Transfer_Correct.thy ===== *)
theory Transfer_Correct
  imports Transfer_Machine
begin

text \<open>
  The properties of Transfers: the transfer tables along every run of all transactions, the
  specification they implement, what a verified Artifact stands for, and how the Agent's evidence
  depends on it.
\<close>

section \<open>A sample upload\<close>

text \<open>
  A Job of one upload step, dispatched and acknowledged; one chunk arrives, the manifest is sealed
  and the Artifact waits for verification.
\<close>

definition upload_uuids :: "nat \<Rightarrow> uuid_source" where
  "upload_uuids n = (\<lambda>k. of_nat (n + k))"

definition upload_digest :: "byte list" where
  "upload_digest = replicate 32 0"

definition upload_dispatched :: "transfer_op list" where
  "upload_dispatched =
     [TxJob (OpCreateWorkflow (upload_uuids 100) (Some Enrolled) (EndpointId 7) 1),
      TxJob (OpAdmitJob (upload_uuids 200) (JobId 100) 0),
      TxJob (OpSatisfyPreconditions (JobId 100) (JobStepId 101)),
      TxCreate (upload_uuids 300) True (EndpointId 7) (JobId 100) (JobStepId 101) AgentToServer Sha256
        (ChunkSize 4) (SourceProvenance ''disk''),
      TxJob (OpCommitTransfer (upload_uuids 400) (JobId 100) (JobStepId 101) (TransferId 301)),
      TxActionAck (upload_uuids 500) (EndpointId 7) (Some (ActionId 401)) (ActionId 401) True 1 ''accepted'']"

definition upload_sealed :: "transfer_op list" where
  "upload_sealed =
     [TxRecord (TransferId 301) (ChunkIndex 0) 4 upload_digest,
      TxAcceptVerified (TransferId 301) (ChunkIndex 0) upload_digest,
      TxSealManifest (TransferId 301) 1 upload_digest,
      TxBeginVerification (TransferId 301)]"

definition upload_db :: transfer_db where
  "upload_db = transfer_run empty_transfers upload_dispatched"

definition sealed_db :: transfer_db where
  "sealed_db = transfer_run empty_transfers (upload_dispatched @ upload_sealed)"

lemma upload_conforms: "transfer_conforms empty_transfers upload_dispatched"
  by code_simp

lemma sealed_conforms: "transfer_conforms empty_transfers (upload_dispatched @ upload_sealed)"
  by code_simp

lemma upload_inv: "platform_inv upload_db"
  unfolding upload_db_def by (rule transfer_run_inv [OF upload_conforms platform_inv_empty])

lemma sealed_inv: "platform_inv sealed_db"
  unfolding sealed_db_def by (rule transfer_run_inv [OF sealed_conforms platform_inv_empty])

section \<open>Runs\<close>

lemma platform_facts_ok:
  assumes "platform_inv db" and "abs_transfers db tid = Some f"
  shows "facts_ok f" and "lf_transfer f \<in> set (jd_transfers (xd_jobs db))" and "tr_id (lf_transfer f) = tid"
proof -
  have inv: "transfer_inv db" using assms(1) by (simp add: platform_inv_def)
  obtain t where t: "find_transfer (xd_jobs db) tid = Some t" "facts_of db t f"
    using assms(2) unfolding abs_transfers_iff [OF inv] by blast
  show "facts_ok f" by (rule facts_of_ok [OF inv t(2)])
  show "lf_transfer f \<in> set (jd_transfers (xd_jobs db))" "tr_id (lf_transfer f) = tid"
    using t facts_of_ids(2) [OF t(2)] by (simp_all add: find_transfer_iff [OF inv])
qed



text \<open>
  C10. What a run has recorded of a Transfer is never taken back by what follows: the Transfer stays
  known under its id, an Attempt it is bound to stays its Attempt, a recorded chunk identity is
  never rewritten, a sealed manifest does not change, a held chunk stays held, and the Artifact only
  moves from \<open>Incomplete\<close> on, never out of \<open>Verified\<close> or \<open>Failed\<close>.
\<close>

theorem transfer_history_is_monotone:
  assumes "transfer_conforms empty_transfers (ops @ later)"
    and "abs_transfers (transfer_run empty_transfers ops) tid = Some f"
  shows "\<exists>g. abs_transfers (transfer_run empty_transfers (ops @ later)) tid = Some g \<and> facts_advance f g"
proof -
  let ?db = "transfer_run empty_transfers ops"
  have "transfer_conforms empty_transfers ops" "transfer_conforms ?db later"
    using assms(1) by (simp_all add: transfer_conforms_append)
  then have "transfers_advance UNIV (abs_transfers ?db) (abs_transfers (transfer_run ?db later))"
    by (intro transfer_run_advances transfer_run_inv platform_inv_empty)
  with assms(2) show ?thesis by (auto simp: transfers_advance_def transfer_run_append)
qed

theorem transfer_history_is_monotone_witness:
  "\<exists>f g. abs_transfers upload_db (TransferId 301) = Some f \<and> abs_transfers sealed_db (TransferId 301) = Some g \<and>
     facts_advance f g \<and> ar_state (lf_artifact f) = Ar_Incomplete \<and>
     ar_state (lf_artifact g) = Ar_PendingVerification"
proof -
  have "map_option (ar_state \<circ> lf_artifact) (abs_transfers upload_db (TransferId 301)) = Some Ar_Incomplete"
    "map_option (ar_state \<circ> lf_artifact) (abs_transfers sealed_db (TransferId 301)) = Some Ar_PendingVerification"
    by code_simp+
  then obtain f g where fg: "abs_transfers upload_db (TransferId 301) = Some f" "ar_state (lf_artifact f) = Ar_Incomplete"
    "abs_transfers sealed_db (TransferId 301) = Some g" "ar_state (lf_artifact g) = Ar_PendingVerification" by auto
  from transfer_history_is_monotone [OF sealed_conforms fg(1) [unfolded upload_db_def]] fg
  show ?thesis unfolding sealed_db_def by simp
qed

section \<open>Refinement\<close>

text \<open>
  C5. On tables that satisfy the invariant, each transaction of the transfer repository and each
  service on top of it implements its operation on the abstract map from ids to Transfers: it gives
  the specified result on every branch, errors included, leaves tables that mean the specified map,
  and keeps the invariant.
\<close>

theorem transfer_store_refines_spec:
  assumes "transfer_inv db"
  shows "simulates (record_expected_chunk_tx db tid index sz bytes)
      (spec_record (abs_transfers db) tid index sz bytes) \<and>
    simulates (accept_verified_chunk_tx db tid index bytes) (spec_accept (abs_transfers db) tid index bytes) \<and>
    simulates (seal_manifest_tx db tid count bytes) (spec_seal_manifest (abs_transfers db) tid count bytes) \<and>
    simulates (begin_artifact_verification_tx db tid) (spec_transition (abs_transfers db) tid
      (\<lambda>f. begin_verification (lf_artifact f) (lf_manifest f) (lf_held f))) \<and>
    simulates (complete_artifact_verification_tx db tid ok) (spec_transition (abs_transfers db) tid
      (\<lambda>f. complete_verification (lf_artifact f) ok)) \<and>
    simulates (fail_incomplete_artifact_tx db tid) (spec_transition (abs_transfers db) tid
      (\<lambda>f. fail_incomplete (lf_artifact f))) \<and>
    simulates (commit_chunk_acceptance db eng tid wide_index wire sz)
      (spec_commit_chunk (find_attempt (xd_jobs db)) eng (abs_transfers db) tid wide_index wire sz) \<and>
    simulates (commit_artifact_verification db eng input) (spec_verification eng (abs_transfers db) input)"
  by (intro conjI record_simulates accept_simulates seal_manifest_simulates artifact_txs_simulate
      chunk_acceptance_simulates verification_simulates assms)

theorem transfer_store_refines_spec_witness:
  "transfer_inv upload_db \<and>
   simulates (record_expected_chunk_tx upload_db (TransferId 301) (ChunkIndex 0) 4 upload_digest)
     (spec_record (abs_transfers upload_db) (TransferId 301) (ChunkIndex 0) 4 upload_digest) \<and>
   is_ok (snd (record_expected_chunk_tx upload_db (TransferId 301) (ChunkIndex 0) 4 upload_digest))"
proof -
  have inv: "transfer_inv upload_db" using upload_inv by (simp add: platform_inv_def)
  have ok: "is_ok (snd (record_expected_chunk_tx upload_db (TransferId 301) (ChunkIndex 0) 4 upload_digest))"
    by code_simp
  show ?thesis by (intro conjI inv ok) (rule transfer_store_refines_spec [OF inv, THEN conjunct1])
qed

text \<open>
  C28. A Transfer that was just created is read back as it was made, with nothing held, and no other
  Transfer is affected.
\<close>

theorem created_transfer_is_found:
  assumes "transfer_inv db"
    and "create_transfer_context_tx db new_v4 endpoint_exists ep j s dir alg sz prov = (db', Ok ctx)"
  shows "find_transfer_context db' (tr_id (tc_transfer ctx)) = Ok (Some (ctx, {||})) \<and>
    find_transfer_context db (tr_id (tc_transfer ctx)) = Ok None \<and>
    (tid \<noteq> tr_id (tc_transfer ctx) \<longrightarrow> find_transfer_context db' tid = find_transfer_context db tid)"
proof -
  note made = create_abs [OF assms]
  have "transfer_inv db'" using made by blast
  note load = load_abs [OF this] load_abs [OF assms(1)]
  show ?thesis using made by (simp add: find_transfer_context_def load context_facts_def)
qed

theorem created_transfer_is_found_witness:
  "\<exists>ctx db'. create_transfer_context_tx upload_db (upload_uuids 600) True (EndpointId 7) (JobId 100)
       (JobStepId 101) AgentToServer Sha256 (ChunkSize 4) (SourceProvenance ''disk'') = (db', Ok ctx) \<and>
     find_transfer_context db' (TransferId 601) = Ok (Some (ctx, {||}))"
proof -
  let ?tx = "create_transfer_context_tx upload_db (upload_uuids 600) True (EndpointId 7) (JobId 100)
       (JobStepId 101) AgentToServer Sha256 (ChunkSize 4) (SourceProvenance ''disk'')"
  let ?c = "create_transfer_context (upload_uuids 600) (EndpointId 7) (JobId 100) (JobStepId 101)
       AgentToServer Sha256 (ChunkSize 4) (SourceProvenance ''disk'')"
  have inv: "transfer_inv upload_db" using upload_inv by (simp add: platform_inv_def)
  have tx: "is_ok (snd ?tx)" "tr_id (tc_transfer ?c) = TransferId 601" by code_simp+
  obtain ctx where c: "?tx = (fst ?tx, Ok ctx)"
    using tx(1) by (cases "snd ?tx") (simp_all add: is_ok_def, metis prod.collapse)
  from created_transfer_is_found [OF inv c] create_tx_Ok(1) [OF c] tx(2) c show ?thesis by metis
qed

section \<open>Verification\<close>

lemma sealed_manifest_covers:
  assumes "facts_ok f" and "ar_state (lf_artifact f) = Ar_PendingVerification \<or> ar_state (lf_artifact f) = Ar_Verified"
  shows "\<exists>n. cm_sealed (lf_manifest f) \<and> cm_chunk_count (lf_manifest f) = Some n \<and>
    (\<forall>i. ChunkIndex i |\<in>| lf_held f \<longleftrightarrow> i < n)"
proof -
  have "cm_sealed (lf_manifest f)" "lf_held f = chunk_indices (lf_manifest f)" "manifest_wf (lf_manifest f)"
    using assms by (auto simp: facts_ok_def)
  then show ?thesis
    by (auto simp: manifest_wf_def in_chunk_indices fmlookup_dom'_iff set_eq_iff)
qed

lemma verification_Verified:
  assumes inv: "transfer_inv db" and known: "abs_transfers db tid = Some f"
    and before: "ar_state (lf_artifact f) \<noteq> Ar_Verified"
    and after: "abs_transfers (fst (commit_artifact_verification db eng input)) tid = Some g"
      "ar_state (lf_artifact g) = Ar_Verified"
  shows "vi_transfer_id input = tid \<and> ar_state (lf_artifact f) = Ar_PendingVerification \<and>
    (\<exists>d. cm_artifact_digest (lf_manifest f) = Some d \<and>
      digest_parse_wire_value eng (cm_digest_algorithm (lf_manifest f)) (vi_computed_artifact_digest input) = Ok d)"
proof -
  have spec: "abs_transfers (fst (commit_artifact_verification db eng input)) =
      fst (spec_verification eng (abs_transfers db) input)"
    using verification_simulates [OF inv] by (simp add: simulates_def)
  have tid: "vi_transfer_id input = tid"
    using after known before unfolding spec
    by (auto simp: spec_verification_def split: option.splits if_splits)
  then obtain a where a: "decide_artifact_verification eng input f = Some a" "lf_artifact g = a"
    using after known before unfolding spec by (auto simp: spec_verification_def split: option.splits)
  from decide_verification_Some [OF a(1)] tid a(2) after(2) show ?thesis by (auto split: if_splits)
qed

text \<open>
  C4. An Artifact becomes \<open>Verified\<close> in one way only: it was waiting for verification, its manifest
  was sealed with a count of chunks and exactly the chunks below that count were held, and the
  transaction that verified it either found the digest the Worker computed over the stored bytes
  equal to the sealed digest, or was the service call that states this comparison's outcome.
\<close>

theorem verified_only_on_matching_digest:
  assumes "transfer_conforms empty_transfers (ops @ [op])" and "db = transfer_run empty_transfers ops"
    and "abs_transfers db tid = Some f" and "ar_state (lf_artifact f) \<noteq> Ar_Verified"
    and "abs_transfers (transfer_step db op) tid = Some g" and "ar_state (lf_artifact g) = Ar_Verified"
  shows "ar_state (lf_artifact f) = Ar_PendingVerification \<and> cm_sealed (lf_manifest f) \<and>
    (\<exists>n. cm_chunk_count (lf_manifest f) = Some n \<and> (\<forall>i. ChunkIndex i |\<in>| lf_held f \<longleftrightarrow> i < n)) \<and>
    (op = TxCompleteVerification tid True \<or>
     (\<exists>eng input d. op = TxVerification eng input \<and> vi_transfer_id input = tid \<and>
        cm_artifact_digest (lf_manifest f) = Some d \<and>
        digest_parse_wire_value eng (cm_digest_algorithm (lf_manifest f)) (vi_computed_artifact_digest input) = Ok d))"
proof -
  have conf: "transfer_conforms empty_transfers ops" "tx_conforms db op"
    using assms(1,2) by (simp_all add: transfer_conforms_append)
  have inv: "platform_inv db" using transfer_run_inv [OF conf(1) platform_inv_empty] assms(2) by simp
  then have t: "transfer_inv db" by (simp add: platform_inv_def)
  have "keeps (may_verify op) db (transfer_step db op)" by (rule transfer_step_keeps [OF inv conf(2)])
  then have may: "tid \<in> may_verify op" using assms(3-6) unfolding keeps_def transfers_advance_def by (metis option.inject)
  have pending: "ar_state (lf_artifact f) = Ar_PendingVerification \<and> (op = TxCompleteVerification tid True \<or>
     (\<exists>eng input d. op = TxVerification eng input \<and> vi_transfer_id input = tid \<and>
        cm_artifact_digest (lf_manifest f) = Some d \<and>
        digest_parse_wire_value eng (cm_digest_algorithm (lf_manifest f)) (vi_computed_artifact_digest input) = Ok d))"
  proof (cases op)
    case (TxCompleteVerification tid' ok)
    then have "tid' = tid" "ok" using may by (auto split: if_splits)
    moreover have "abs_transfers (fst (complete_artifact_verification_tx db tid True)) =
        fst (spec_transition (abs_transfers db) tid (\<lambda>f. complete_verification (lf_artifact f) True))"
      using artifact_txs_simulate(2) [OF t] by (simp add: simulates_def)
    ultimately show ?thesis
      using TxCompleteVerification assms(3-6)
      by (auto simp: spec_transition_def spec_with_def complete_verification_Ok_iff split: sum.splits)
  next
    case (TxVerification eng input)
    with verification_Verified [OF t assms(3,4)] assms(5,6) show ?thesis by auto
  qed (use may in simp_all)
  then show ?thesis using sealed_manifest_covers [OF platform_facts_ok(1) [OF inv assms(3)]] by blast
qed

definition upload_verification :: artifact_verification_input where
  "upload_verification = \<lparr> vi_transfer_id = TransferId 301, vi_artifact_id = ArtifactId 300, vi_chunk_count = 1,
     vi_bound_expected_artifact_digest = digest_to_wire_value rfc4648_url (Digest upload_digest),
     vi_computed_artifact_digest = digest_to_wire_value rfc4648_url (Digest upload_digest) \<rparr>"

definition facts_view :: "transfer_locked_facts \<Rightarrow> artifact \<times> artifact_id \<times> bool \<times> u32 option \<times> digest option" where
  "facts_view f = (lf_artifact f, tr_artifact_id (lf_transfer f), cm_sealed (lf_manifest f),
     cm_chunk_count (lf_manifest f), cm_artifact_digest (lf_manifest f))"

lemma sealed_view:
  "map_option facts_view (abs_transfers sealed_db (TransferId 301)) =
   Some (\<lparr> ar_id = ArtifactId 300, ar_state = Ar_PendingVerification, ar_capture_consistency = CC_NotEstablished \<rparr>,
         ArtifactId 300, True, Some 1, Some (Digest upload_digest))"
  by code_simp

lemma length_upload_digest: "length upload_digest = 32"
  by (simp add: upload_digest_def)

lemma upload_digest_wire:
  "digest_parse_wire_value rfc4648_url a (digest_to_wire_value rfc4648_url (Digest upload_digest)) = Ok (Digest upload_digest)"
  by (rule rfc4648.digest_wire.parse_to_wire) (simp add: wf_digest_def upload_digest_def)

lemma upload_verification_decision:
  assumes "abs_transfers sealed_db (TransferId 301) = Some f"
  shows "decide_artifact_verification rfc4648_url upload_verification f =
    Some ((lf_artifact f)\<lparr> ar_state := Ar_Verified \<rparr>) \<and> ar_state (lf_artifact f) = Ar_PendingVerification"
  using sealed_view assms
  by (simp add: facts_view_def decide_artifact_verification_def upload_verification_def upload_digest_wire
      complete_verification_def)

theorem verified_only_on_matching_digest_witness:
  "\<exists>f d. abs_transfers sealed_db (TransferId 301) = Some f \<and> ar_state (lf_artifact f) = Ar_PendingVerification \<and>
     snd (commit_artifact_verification sealed_db rfc4648_url upload_verification) = Ok (VerificationCommitted True) \<and>
     cm_artifact_digest (lf_manifest f) = Some d \<and>
     digest_parse_wire_value rfc4648_url (cm_digest_algorithm (lf_manifest f))
       (vi_computed_artifact_digest upload_verification) = Ok d"
proof -
  let ?op = "TxVerification rfc4648_url upload_verification"
  obtain f where f: "abs_transfers sealed_db (TransferId 301) = Some f" using sealed_view by auto
  note dec = upload_verification_decision [OF f]
  have inv: "transfer_inv sealed_db" using sealed_inv by (simp add: platform_inv_def)
  have tid: "vi_transfer_id upload_verification = TransferId 301" by (simp add: upload_verification_def)
  have sim: "snd (commit_artifact_verification sealed_db rfc4648_url upload_verification) = Ok (VerificationCommitted True)"
    "abs_transfers (transfer_step sealed_db ?op) (TransferId 301) =
       Some (f\<lparr> lf_artifact := (lf_artifact f)\<lparr> ar_state := Ar_Verified \<rparr> \<rparr>)"
    using verification_simulates [OF inv, of rfc4648_url upload_verification] f dec tid
    by (simp_all add: simulates_def spec_verification_def)
  have conf: "transfer_conforms empty_transfers ((upload_dispatched @ upload_sealed) @ [?op])"
    by (subst transfer_conforms_append) (simp add: sealed_conforms [simplified])
  from verified_only_on_matching_digest [OF conf sealed_db_def f _ sim(2)] f dec sim(1) show ?thesis by auto
qed

section \<open>Chunk acceptance\<close>

lemma record_recorded:
  assumes "record_expected_chunk m index sz bytes = Ok outcome" and "outcome = ChunkAlreadyRecorded \<Longrightarrow> m' = m"
    and "\<And>n. outcome = ChunkAdded n \<Longrightarrow> m' = n"
  shows "\<exists>c. fmlookup (cm_chunks m') (index_value index) = Some c \<and> ec_size c = sz \<and> ec_digest c = Digest bytes"
    and "cm_sealed m' = cm_sealed m" and "cm_digest_algorithm m' = cm_digest_algorithm m"
    and "cm_chunk_size m' = cm_chunk_size m"
  using assms record_AlreadyRecorded [of m index sz bytes] record_expected_chunk_Added [of m index sz bytes]
  by (cases outcome; auto)+

lemma chunk_committed:
  assumes inv: "transfer_inv db"
    and tx: "commit_chunk_acceptance db eng tid index wire sz = (db1, Ok AcceptanceCommitted)"
  obtains i f m d where "u64_to_u32 index = Some i" and "abs_transfers db tid = Some f"
    and "data_plane_operation_is_current ChunkUpload (ar_state (lf_artifact f)) (cm_sealed (lf_manifest f))
      (manifest_expected_chunk (lf_manifest f) (ChunkIndex i) \<noteq> None) = Ok ()"
    and "map_option at_state (Option.bind (tr_attempt_id (lf_transfer f)) (find_attempt (xd_jobs db))) = Some A_InProgress"
    and "sz \<noteq> 0" and "unat sz \<le> unat (chunk_size_get (cm_chunk_size (lf_manifest f)))"
    and "digest_parse_wire_value eng (cm_digest_algorithm (lf_manifest f)) wire = Ok d"
    and "\<exists>c. fmlookup (cm_chunks m) i = Some c \<and> ec_size c = sz \<and> ec_digest c = d"
    and "cm_sealed m = cm_sealed (lf_manifest f)" and "cm_digest_algorithm m = cm_digest_algorithm (lf_manifest f)"
    and "cm_chunk_size m = cm_chunk_size (lf_manifest f)"
    and "abs_transfers db1 tid = Some (f\<lparr> lf_manifest := m, lf_held := finsert (ChunkIndex i) (lf_held f) \<rparr>)"
proof -
  let ?spec = "spec_commit_chunk (find_attempt (xd_jobs db)) eng (abs_transfers db) tid index wire sz"
  have sim: "abs_transfers db1 = fst ?spec" "snd ?spec = Ok AcceptanceCommitted"
    using chunk_acceptance_simulates [OF inv, of eng tid index wire sz] tx by (simp_all add: simulates_def)
  obtain f i where fi: "abs_transfers db tid = Some f" "u64_to_u32 index = Some i"
    using sim(2) by (auto simp: spec_commit_chunk_def split: if_splits option.splits)
  let ?attempt = "Option.bind (tr_attempt_id (lf_transfer f)) (find_attempt (xd_jobs db))"
  let ?decide = "decide_chunk_acceptance eng (ChunkIndex i) wire sz f ?attempt"
  obtain outcome where out: "?decide = CommitChunk outcome"
    using sim(2) fi by (auto simp: spec_commit_chunk_def spec_chunk_acceptance_def spec_with_def
        split: chunk_acceptance_decided.splits)
  define m where "m = (case outcome of ChunkAlreadyRecorded \<Rightarrow> lf_manifest f | ChunkAdded n \<Rightarrow> n)"
  have abs: "abs_transfers db1 tid = Some (f\<lparr> lf_manifest := m, lf_held := finsert (ChunkIndex i) (lf_held f) \<rparr>)"
    using sim fi out by (auto simp: spec_commit_chunk_def spec_chunk_acceptance_def spec_with_def m_def
        split: chunk_record_outcome.splits if_splits)
  obtain d where d: "digest_parse_wire_value eng (cm_digest_algorithm (lf_manifest f)) wire = Ok d"
    and rec: "record_expected_chunk (lf_manifest f) (ChunkIndex i) sz (digest_bytes d) = Ok outcome"
    using decide_chunk_commit [OF out] by blast
  note known = record_recorded [OF rec, of m]
  have guards: "data_plane_operation_is_current ChunkUpload (ar_state (lf_artifact f)) (cm_sealed (lf_manifest f))
      (manifest_expected_chunk (lf_manifest f) (ChunkIndex i) \<noteq> None) = Ok ()"
    "map_option at_state ?attempt = Some A_InProgress" "sz \<noteq> 0"
    "unat sz \<le> unat (chunk_size_get (cm_chunk_size (lf_manifest f)))"
    using out by (auto simp: decide_chunk_acceptance_def Let_def split: if_splits)
  have "Digest (digest_bytes d) = d" by (cases d) simp
  then show thesis using that [OF fi(2,1) guards d _ _ _ _ abs] known by (simp add: m_def)
qed

text \<open>
  C27. A chunk that was committed is durable and decided: sending the same chunk again is answered
  \<open>AlreadyCommitted\<close> and changes nothing, and sending the same index with another digest is answered
  as a conflict and changes nothing.
\<close>

theorem chunk_acceptance_is_idempotent:
  assumes "transfer_inv db"
    and "commit_chunk_acceptance db eng tid index wire sz = (db1, Ok AcceptanceCommitted)"
  shows "commit_chunk_acceptance db1 eng tid index wire sz = (db1, Ok AcceptanceAlreadyCommitted) \<and>
    (\<exists>f d. abs_transfers db1 tid = Some f \<and>
      digest_parse_wire_value eng (cm_digest_algorithm (lf_manifest f)) wire = Ok d \<and>
      (\<forall>other d'. digest_parse_wire_value eng (cm_digest_algorithm (lf_manifest f)) other = Ok d' \<and> d' \<noteq> d \<longrightarrow>
        commit_chunk_acceptance db1 eng tid index other sz = (db1, Ok AcceptanceRejectedConflict)))"
  using assms
proof (rule chunk_committed)
  fix i m d and f :: transfer_locked_facts
  let ?f = "f\<lparr> lf_manifest := m, lf_held := finsert (ChunkIndex i) (lf_held f) \<rparr>"
  assume i: "u64_to_u32 index = Some i"
    and current: "data_plane_operation_is_current ChunkUpload (ar_state (lf_artifact f)) (cm_sealed (lf_manifest f))
      (manifest_expected_chunk (lf_manifest f) (ChunkIndex i) \<noteq> None) = Ok ()"
    and attempt: "map_option at_state (Option.bind (tr_attempt_id (lf_transfer f)) (find_attempt (xd_jobs db))) = Some A_InProgress"
    and sz: "sz \<noteq> 0" "unat sz \<le> unat (chunk_size_get (cm_chunk_size (lf_manifest f)))"
    and d: "digest_parse_wire_value eng (cm_digest_algorithm (lf_manifest f)) wire = Ok d"
    and c: "\<exists>c. fmlookup (cm_chunks m) i = Some c \<and> ec_size c = sz \<and> ec_digest c = d"
    and m: "cm_sealed m = cm_sealed (lf_manifest f)" "cm_digest_algorithm m = cm_digest_algorithm (lf_manifest f)"
      "cm_chunk_size m = cm_chunk_size (lf_manifest f)"
    and abs: "abs_transfers db1 tid = Some ?f"
  have inv1: "transfer_inv db1" and jobs: "xd_jobs db1 = xd_jobs db"
    using chunk_acceptance_simulates [OF assms(1), of eng tid index wire sz] service_frame(1) [of db eng tid index wire sz]
      assms(2) by (simp_all add: simulates_def)
  obtain c where c: "fmlookup (cm_chunks m) i = Some c" "ec_size c = sz" "ec_digest c = d" using c by blast
  have current1: "data_plane_operation_is_current ChunkUpload (ar_state (lf_artifact f)) (cm_sealed m) True = Ok ()"
    using current by (simp add: operation_current_iff)
  have "length (digest_bytes d) = digest_len (cm_digest_algorithm (lf_manifest f))" "Digest (digest_bytes d) = d"
    using digest_parse_length [OF d] by (simp, cases d, simp)
  then have rec: "record_expected_chunk m (ChunkIndex i) sz (digest_bytes d) = Ok ChunkAlreadyRecorded"
    using c m(2) by (simp add: record_expected_chunk_def digest_new_def Let_def)
  have decide: "decide_chunk_acceptance eng (ChunkIndex i) w sz ?f
      (Option.bind (tr_attempt_id (lf_transfer f)) (find_attempt (xd_jobs db))) =
      (if d' = d then CommitChunk ChunkAlreadyRecorded else RejectConflict)"
    if "digest_parse_wire_value eng (cm_digest_algorithm (lf_manifest f)) w = Ok d'" for w d'
    using that attempt sz c m current1 rec
    by (auto simp: decide_chunk_acceptance_def manifest_expected_chunk_def)
  have tx: "commit_chunk_acceptance db1 eng tid index w sz =
      (db1, Ok (if d' = d then AcceptanceAlreadyCommitted else AcceptanceRejectedConflict))"
    if "digest_parse_wire_value eng (cm_digest_algorithm (lf_manifest f)) w = Ok d'" for w d'
    using decide [OF that] i abs jobs
    by (simp add: commit_chunk_acceptance_def commit_chunk_acceptance_tx_def with_locked_facts_abs [OF inv1])
  show ?thesis using tx [OF d] tx abs d m(2) by auto
qed

theorem chunk_acceptance_is_idempotent_witness:
  "\<exists>db1. commit_chunk_acceptance upload_db rfc4648_url (TransferId 301) 0
       (digest_to_wire_value rfc4648_url (Digest upload_digest)) 4 = (db1, Ok AcceptanceCommitted) \<and>
     commit_chunk_acceptance db1 rfc4648_url (TransferId 301) 0
       (digest_to_wire_value rfc4648_url (Digest upload_digest)) 4 = (db1, Ok AcceptanceAlreadyCommitted)"
proof -
  let ?w = "digest_to_wire_value rfc4648_url (Digest upload_digest)"
  have inv: "transfer_inv upload_db" using upload_inv by (simp add: platform_inv_def)
  have view: "map_option (\<lambda>f. (ar_state (lf_artifact f), cm_sealed (lf_manifest f), cm_chunk_size (lf_manifest f),
       fmlookup (cm_chunks (lf_manifest f)) 0, map_option at_state (Option.bind (tr_attempt_id (lf_transfer f))
         (find_attempt (xd_jobs upload_db))))) (abs_transfers upload_db (TransferId 301)) =
     Some (Ar_Incomplete, False, ChunkSize 4, None, Some A_InProgress)"
    by code_simp
  then obtain f where f: "abs_transfers upload_db (TransferId 301) = Some f" "ar_state (lf_artifact f) = Ar_Incomplete"
    "\<not> cm_sealed (lf_manifest f)" "cm_chunk_size (lf_manifest f) = ChunkSize 4"
    "fmlookup (cm_chunks (lf_manifest f)) 0 = None"
    "map_option at_state (Option.bind (tr_attempt_id (lf_transfer f)) (find_attempt (xd_jobs upload_db))) = Some A_InProgress"
    by (auto simp del: map_option_eq_Some)
  have "snd (spec_commit_chunk (find_attempt (xd_jobs upload_db)) rfc4648_url (abs_transfers upload_db)
      (TransferId 301) 0 ?w 4) = Ok AcceptanceCommitted"
    using f by (simp add: spec_commit_chunk_def u64_to_u32_def spec_chunk_acceptance_def spec_with_def
        decide_chunk_acceptance_def operation_current_iff manifest_expected_chunk_def upload_digest_wire
        record_expected_chunk_def digest_new_def length_upload_digest chunk_size_get_def storable_def Let_def)
  then have "snd (commit_chunk_acceptance upload_db rfc4648_url (TransferId 301) 0 ?w 4) = Ok AcceptanceCommitted"
    using chunk_acceptance_simulates [OF inv] by (simp add: simulates_def)
  then obtain db1 where "commit_chunk_acceptance upload_db rfc4648_url (TransferId 301) 0 ?w 4 = (db1, Ok AcceptanceCommitted)"
    by (metis prod.collapse)
  with chunk_acceptance_is_idempotent [OF inv this] show ?thesis by blast
qed

section \<open>Evidence\<close>

lemma find_map_kept: "(\<And>x. P (g x) = P x) \<Longrightarrow> find P (map g xs) = map_option g (find P xs)"
  by (induction xs) simp_all

lemma commit_evidence_attempts:
  "fst (commit_evidence db u job ap now detail) = db \<or>
   jd_attempts (xd_jobs (fst (commit_evidence db u job ap now detail))) =
     upd_attempt (at_id (ap_attempt ap)) (at_state (ap_attempt ap)) (jd_attempts (xd_jobs db))"
  using commit_evidence_cases [of db u job ap now detail]
proof (elim disjE exE conjE)
  fix jobs'
  assume "commit_applied (xd_jobs db) u System job ap now detail = (jobs', Ok (Some ap))"
    and "commit_evidence db u job ap now detail = (db\<lparr> xd_jobs := jobs' \<rparr>, Ok (ResultApplied ap))"
  then show ?thesis
    by (cases rule: commit_applied_cases [of "xd_jobs db" u System job ap now detail])
      (simp_all add: persist_applied_tables)
qed simp

lemma terminal_evidence_attempts:
  assumes "apply_transfer_terminal_evidence db u act ep decide now detail = (db', r)"
  obtains (unchanged) "jd_attempts (xd_jobs db') = jd_attempts (xd_jobs db)"
  | (applied) e ap a where "load_evidence_facts db act ep = Ok (Some e)" and "decide e = DecideApplied ap a"
      and "jd_attempts (xd_jobs db') =
        upd_attempt (at_id (ap_attempt ap)) (at_state (ap_attempt ap)) (jd_attempts (xd_jobs db))"
proof (cases "\<exists>e ap a. load_evidence_facts db act ep = Ok (Some e) \<and> decide e = DecideApplied ap a")
  case True
  then obtain e ap a where e: "load_evidence_facts db act ep = Ok (Some e)" "decide e = DecideApplied ap a" by blast
  obtain db1 failed where p: "persist_incomplete_artifact_failed (ar_id (te_artifact e)) db = (db1, failed)" by fastforce
  have same: "xd_jobs db1 = xd_jobs db" using p by (auto simp: persist_incomplete_artifact_failed_def)
  have "db' \<in> {db, fst (commit_evidence db u (te_job e) ap now detail), fst (commit_evidence db1 u (te_job e) ap now detail)}"
    using assms e p by (auto simp: apply_transfer_terminal_evidence_def split: option.splits if_splits prod.splits sum.splits)
  then show thesis
    using unchanged applied [OF e] same commit_evidence_attempts [of db u "te_job e" ap now detail]
      commit_evidence_attempts [of db1 u "te_job e" ap now detail] by auto
next
  case False
  then have "db' = db"
    using assms by (auto simp: apply_transfer_terminal_evidence_def split: sum.splits option.splits
        transfer_evidence_decision.splits)
  then show thesis using unchanged by simp
qed

lemma terminal_decision_Verified:
  assumes "decide_transfer_terminal_evidence u d now e = DecideApplied ap a"
    and "at_state (ap_attempt ap) = A_Succeeded"
  shows "ar_state (te_artifact e) = Ar_Verified"
  using assms
  by (auto simp: decide_transfer_terminal_evidence_def apply_action_evidence_def terminal_failure_def Let_def
      split: if_splits action_evidence_outcome.splits attempt_state.splits transfer_result_code.splits sum.splits)

text \<open>
  C11. The Agent's \<open>ActionResult\<close> cannot make an upload succeed: when it turns the Attempt of a
  data-plane action into \<open>Succeeded\<close>, a Transfer is bound to exactly this Attempt and its Artifact
  has already been verified by the server.
\<close>

theorem action_result_success_needs_verified_artifact:
  assumes "platform_inv db" and "classify_action (xd_jobs db) act ep = DataPlaneTransfer"
    and "handle_action_result parse_str hyphenated db new_v4 ep corr act outcome body now detail = (db', reply)"
    and "find_attempt_by_action (xd_jobs db) act = Some before" and "at_state before \<noteq> A_Succeeded"
    and "find_attempt_by_action (xd_jobs db') act = Some after" and "at_state after = A_Succeeded"
  shows "\<exists>tid f. abs_transfers db tid = Some f \<and> tr_attempt_id (lf_transfer f) = Some (at_id before) \<and>
    ar_state (lf_artifact f) = Ar_Verified"
proof -
  have inv: "transfer_inv db" and jobs: "job_inv (xd_jobs db)" using assms(1) by (simp_all add: platform_inv_def)
  have changed: "jd_attempts (xd_jobs db') \<noteq> jd_attempts (xd_jobs db)"
    using assms(4-7) by (auto simp: find_attempt_by_action_def)
  define parsed where "parsed = projr (parse_transfer_result_detail parse_str hyphenated outcome body)"
  have "fst (apply_transfer_terminal_evidence db new_v4 act ep
      (decide_transfer_terminal_evidence new_v4 parsed now) now detail) = db'"
    using assms(2,3) changed by (auto simp: handle_action_result_def parsed_def split: if_splits sum.splits prod.splits
        transfer_evidence_result.splits transfer_evidence_error.splits)
  then obtain r where tx: "apply_transfer_terminal_evidence db new_v4 act ep
      (decide_transfer_terminal_evidence new_v4 parsed now) now detail = (db', r)" by (metis prod.collapse)
  show ?thesis
    using tx
  proof (cases rule: terminal_evidence_attempts)
    case (applied e ap a)
    have locked: "locked_facts (xd_jobs db) act ep = Ok (te_job e, te_job_step e, te_attempt e)"
      by (rule load_evidence_locked [OF jobs applied(1)])
    then have te: "te_attempt e = before"
      using assms(4) by (auto simp: locked_facts_def split: option.splits if_splits)
    obtain st where ap: "ap_attempt ap = before\<lparr> at_state := st \<rparr>"
      using applied_ok_attempt [OF decisions_applied(1) [OF applied(2)]] te by blast
    have ap_st: "at_id (ap_attempt ap) = at_id before" "at_state (ap_attempt ap) = st" by (simp_all add: ap)
    have "find_attempt_by_action (xd_jobs db') act = map_option
        (\<lambda>a. if at_id a = at_id before then a\<lparr> at_state := st \<rparr> else a) (find_attempt_by_action (xd_jobs db) act)"
      unfolding find_attempt_by_action_def applied(3) upd_attempt_def ap_st by (rule find_map_kept) simp
    then have "after = before\<lparr> at_state := st \<rparr>" using assms(4,6) by simp
    then have "at_state after = st" by simp
    then have "ar_state (te_artifact e) = Ar_Verified"
      using terminal_decision_Verified [OF applied(2)] ap assms(7) by simp
    moreover obtain aid tid where "tr_attempt_id (te_transfer e) = Some aid" "find_attempt (xd_jobs db) aid = Some before"
      "load_locked_transfer_and_artifact db tid = Ok (Some (te_transfer e, te_artifact e))"
      using applied(1) te by (elim load_evidence_OkD) blast
    moreover from this(2) have "at_id before = aid" by (auto simp: find_attempt_def dest: find_SomeD)
    ultimately show ?thesis using locked_pair_abs [OF inv] by metis
  qed (use changed in simp)
qed

definition verified_db :: transfer_db where
  "verified_db = transfer_step sealed_db (TxCompleteVerification (TransferId 301) True)"

lemma verified_inv: "platform_inv verified_db"
  using transfer_step_keeps [OF sealed_inv, of "TxCompleteVerification (TransferId 301) True"]
  by (simp add: verified_db_def keeps_def)

definition sample_parse_str :: "string \<Rightarrow> uuid option" where
  "sample_parse_str s = (if s = ''12c'' then Some 300 else None)"

definition sample_hyphenated :: "uuid \<Rightarrow> string" where
  "sample_hyphenated u = ''12c''"

definition verified_detail :: detail_fields where
  "verified_detail = [''code'' \<mapsto> ''TRANSFER_VERIFIED'', ''artifact_id'' \<mapsto> ''12c'']"

theorem action_result_success_needs_verified_artifact_witness:
  "\<exists>tid f before. find_attempt_by_action (xd_jobs verified_db) (ActionId 401) = Some before \<and>
     at_state before = A_InProgress \<and> abs_transfers verified_db tid = Some f \<and>
     tr_attempt_id (lf_transfer f) = Some (at_id before) \<and> ar_state (lf_artifact f) = Ar_Verified"
proof -
  let ?act = "ActionId 401"
  let ?tx = "handle_action_result sample_parse_str sample_hyphenated verified_db (upload_uuids 600) (EndpointId 7)
    (Some ?act) ?act OutcomeSucceeded verified_detail 5 ''done''"
  have cls: "classify_action (xd_jobs verified_db) ?act (EndpointId 7) = DataPlaneTransfer" by code_simp
  have "map_option at_state (find_attempt_by_action (xd_jobs verified_db) ?act) = Some A_InProgress"
    "map_option at_state (find_attempt_by_action (xd_jobs (fst ?tx)) ?act) = Some A_Succeeded" by code_simp+
  then obtain before after where rows: "find_attempt_by_action (xd_jobs verified_db) ?act = Some before"
    "at_state before = A_InProgress" "find_attempt_by_action (xd_jobs (fst ?tx)) ?act = Some after"
    "at_state after = A_Succeeded" by auto
  from action_result_success_needs_verified_artifact [OF verified_inv cls prod.collapse [symmetric] rows(1) _ rows(3,4)] rows
  show ?thesis by auto
qed


end
