(* ===== verification/Authorization_Correct.thy ===== *)
theory Authorization_Correct
  imports Transfer_Machine
begin

text \<open>
  The properties of the authorization of data-plane requests: what an approved request has shown,
  what a granted token is good for, that the stores in memory stay bounded, and how often a signed
  proof is accepted.
\<close>

section \<open>What an approved request has shown\<close>

definition proof_fields ::
  "capability_binding \<Rightarrow> authorization_operation \<Rightarrow> u64 option \<Rightarrow> proof_id \<Rightarrow> u64 \<Rightarrow> proof_transcript_fields" where
  "proof_fields b operation chunk_index pid issued_at =
     \<lparr> pf_operation = operation, pf_transfer_id = cb_transfer_id b, pf_artifact_id = cb_artifact_id b,
       pf_direction = cb_direction b, pf_chunk_index = chunk_index, pf_proof_id = pid,
       pf_issued_at_millis = issued_at \<rparr>"

lemma check_proof_iff:
  "check_proof env caps now operation tid chunk_index token proof_wire issued_at signature_wire = Some (b, pid) \<longleftrightarrow>
   (let cid = capability_id_from_token_bytes (en_sha256 env) (ascii_bytes token) in
     capability_lookup caps cid = Some b \<and> cb_epoch b = cs_epoch caps \<and> now < cb_expires_at b \<and>
     cb_transfer_id b = tid \<and> (operation = ChunkUpload) = (chunk_index \<noteq> None) \<and>
     proof_id_parse_wire_value (en_b64 env) proof_wire = Ok pid \<and> proof_is_fresh issued_at now = Ok () \<and>
     (\<exists>signature. proof_signature_parse_wire_value (en_b64 env) signature_wire = Ok signature \<and>
        verify_proof_signature (en_verify_strict env) (cb_proof_public_key b)
          (build_proof_transcript cid (proof_fields b operation chunk_index pid issued_at)) signature))"
  by (auto simp: check_proof_def Let_def capability_current_iff capability_matches_iff proof_fields_def
      split: option.splits sum.splits if_splits)

lemma binding_is_backed_iff:
  "binding_is_backed b now state \<longleftrightarrow>
     tr_endpoint_id (ad_transfer state) = cb_endpoint_id b \<and> tr_artifact_id (ad_transfer state) = cb_artifact_id b \<and>
     tr_direction (ad_transfer state) = cb_direction b \<and>
     chain_dimension (ep_credential (ad_endpoint state)) now = CredentialActive \<and>
     (\<exists>attempt. ad_attempt state = Some attempt \<and> at_id attempt = cb_attempt_id b \<and> at_state attempt = A_InProgress)"
  by (auto simp: binding_is_backed_def split: option.splits)

lemma authorize_request_iff:
  "authorize_request env caps now loaded replay input = (replay', Ok (Some state)) \<longleftrightarrow>
   (\<exists>b pid. check_proof env caps now (wq_operation input) (TransferId (wq_transfer_id input)) (wq_chunk_index input)
        (wq_token input) (wq_proof_id input) (wq_issued_at_millis input) (wq_signature input) = Some (b, pid) \<and>
      loaded = Ok (Some state) \<and> binding_is_backed b now state \<and> query_is_eligible input state \<and>
      check_and_insert replay pid now (replay_valid_until env (wq_issued_at_millis input)) = (replay', Ok ()))"
  by (auto simp: authorize_request_def split: option.splits sum.splits if_splits prod.splits)

text \<open>
  C6. A request of the Worker is approved exactly if everything it depends on holds: the presented
  token hashes to a stored capability of this process that has not expired and is for the requested
  Transfer; a chunk index is given exactly for an upload; the proof is in canonical form, fresh, and
  its signature by the key the capability was issued for covers this operation, Transfer, Artifact,
  direction, chunk, proof identifier and time; the loaded state is that of the capability's Endpoint
  and Artifact, with the capability's Attempt still in progress and the Endpoint's credential
  active; the operation is currently possible; and the replay cache had room and did not know the
  proof.
\<close>

theorem approval_iff_all_conditions:
  "(\<exists>replay'. authorize_request env caps now loaded replay input = (replay', Ok (Some state))) \<longleftrightarrow>
   (let cid = capability_id_from_token_bytes (en_sha256 env) (ascii_bytes (wq_token input)) in
    \<exists>b pid signature attempt.
      capability_lookup caps cid = Some b \<and> cb_epoch b = cs_epoch caps \<and> now < cb_expires_at b \<and>
      cb_transfer_id b = TransferId (wq_transfer_id input) \<and>
      (wq_operation input = ChunkUpload) = (wq_chunk_index input \<noteq> None) \<and>
      proof_id_parse_wire_value (en_b64 env) (wq_proof_id input) = Ok pid \<and>
      proof_is_fresh (wq_issued_at_millis input) now = Ok () \<and>
      proof_signature_parse_wire_value (en_b64 env) (wq_signature input) = Ok signature \<and>
      verify_proof_signature (en_verify_strict env) (cb_proof_public_key b)
        (build_proof_transcript cid
          (proof_fields b (wq_operation input) (wq_chunk_index input) pid (wq_issued_at_millis input))) signature \<and>
      loaded = Ok (Some state) \<and> tr_endpoint_id (ad_transfer state) = cb_endpoint_id b \<and>
      tr_artifact_id (ad_transfer state) = cb_artifact_id b \<and> tr_direction (ad_transfer state) = cb_direction b \<and>
      chain_dimension (ep_credential (ad_endpoint state)) now = CredentialActive \<and>
      ad_attempt state = Some attempt \<and> at_id attempt = cb_attempt_id b \<and> at_state attempt = A_InProgress \<and>
      query_is_eligible input state \<and>
      \<not> (\<exists>t. fmlookup (rc_seen replay) pid = Some t \<and> now \<le> t) \<and>
      map_len (map_retain (\<lambda>_ t. now \<le> t) (rc_seen replay)) < rc_capacity replay)"
proof -
  have insert: "(\<exists>replay'. check_and_insert replay pid now until = (replay', Ok ())) \<longleftrightarrow>
      \<not> (\<exists>t. fmlookup (rc_seen replay) pid = Some t \<and> now \<le> t) \<and>
      map_len (map_retain (\<lambda>_ t. now \<le> t) (rc_seen replay)) < rc_capacity replay" for pid until
    using check_and_insert_Ok_iff [of replay pid now until] by (metis not_le prod.collapse snd_conv)
  show ?thesis
    unfolding authorize_request_iff check_proof_iff binding_is_backed_iff Let_def
    using insert by blast
qed

section \<open>What a granted token is good for\<close>



section \<open>The stores of the process\<close>

text \<open>
  Everything that changes the stores in memory: issuing, and the two kinds of checked request. A
  request may use any snapshot of the capabilities and any durable state.
\<close>

datatype auth_call =
    CallIssue time "transfer_store_error + authorization_durable_state option" "byte list" endpoint_id uuid
      transfer_id string
  | CallAuthorize capability_store time "transfer_store_error + authorization_durable_state option"
      worker_authorization_query_input
  | CallSeal capability_store time "endpoint_id \<Rightarrow> endpoint_aggregate option" transfer_db manifest_seal_input

type_synonym auth_memory = "capability_store \<times> replay_cache"

fun auth_step :: "auth_env \<Rightarrow> auth_memory \<Rightarrow> auth_call \<Rightarrow> auth_memory" where
  "auth_step env (caps, replay) (CallIssue now loaded entropy endpoint presented tid key_wire) =
     (fst (issue_authorization env caps now loaded entropy endpoint presented tid key_wire), replay)"
| "auth_step env (caps, replay) (CallAuthorize snapshot now loaded input) =
     (caps, fst (authorize_request env snapshot now loaded replay input))"
| "auth_step env (caps, replay) (CallSeal snapshot now endpoints db input) =
     (caps, fst (commit_manifest_seal env snapshot now endpoints replay db input))"

definition auth_run :: "auth_env \<Rightarrow> auth_memory \<Rightarrow> auth_call list \<Rightarrow> auth_memory" where
  "auth_run env = foldl (auth_step env)"

fun call_now :: "auth_call \<Rightarrow> time" where
  "call_now (CallIssue now _ _ _ _ _ _) = now"
| "call_now (CallAuthorize _ now _ _) = now"
| "call_now (CallSeal _ now _ _ _) = now"

definition auth_memory_ok :: "auth_memory \<Rightarrow> bool" where
  "auth_memory_ok m \<longleftrightarrow> capability_store_ok (fst m) \<and> replay_bounded (snd m)"

lemma authorize_replay:
  "fst (authorize_request env caps now loaded replay input) = replay \<or>
   (\<exists>pid until. fst (authorize_request env caps now loaded replay input) =
      fst (check_and_insert replay pid now until))"
  unfolding authorize_request_def
  by (auto split: option.split sum.split prod.split) (metis fst_conv)+

lemma seal_tx_replay:
  "fst (commit_manifest_seal_tx db eng endpoints tid decide replay) = replay \<or>
   (\<exists>state. fst (commit_manifest_seal_tx db eng endpoints tid decide replay) = fst (decide state))"
  unfolding commit_manifest_seal_tx_def
  by (auto simp: Let_def split: sum.split option.split prod.split manifest_seal_decided.split) (metis fst_conv)+

lemma decide_seal_replay:
  "fst (decide_manifest_seal env b pid now issued count wire replay state) = replay \<or>
   fst (decide_manifest_seal env b pid now issued count wire replay state) =
     fst (check_and_insert replay pid now (replay_valid_until env issued))"
  by (auto simp: decide_manifest_seal_def split: sum.split prod.split)

lemma seal_replay:
  "fst (commit_manifest_seal env caps now endpoints replay db input) = replay \<or>
   (\<exists>pid until. fst (commit_manifest_seal env caps now endpoints replay db input) =
      fst (check_and_insert replay pid now until))"
proof (cases "check_proof env caps now SealManifest (TransferId (si_transfer_id input)) None
    (si_token input) (si_proof_id input) (si_issued_at_millis input) (si_signature input)")
  case (Some p)
  obtain b pid where p: "p = (b, pid)" by (cases p)
  show ?thesis
  proof (cases "u64_to_u32 (si_chunk_count input)")
    case (Some count)
    let ?decide = "decide_manifest_seal env b pid now (si_issued_at_millis input) count (si_artifact_digest input) replay"
    let ?tx = "commit_manifest_seal_tx db (en_b64 env) endpoints (TransferId (si_transfer_id input)) ?decide replay"
    have "fst (commit_manifest_seal env caps now endpoints replay db input) = fst ?tx"
      using \<open>check_proof _ _ _ _ _ _ _ _ _ _ = Some p\<close> p Some
      by (simp add: commit_manifest_seal_def split: prod.split sum.split transfer_store_error.split)
    then show ?thesis
      using seal_tx_replay [of db "en_b64 env" endpoints "TransferId (si_transfer_id input)" ?decide replay]
        decide_seal_replay [of env b pid now "si_issued_at_millis input" count "si_artifact_digest input" replay]
      by metis
  qed (use \<open>check_proof _ _ _ _ _ _ _ _ _ _ = Some p\<close> p in \<open>simp add: commit_manifest_seal_def\<close>)
qed (simp add: commit_manifest_seal_def)

lemma auth_step_replay:
  "snd (auth_step env m call) = snd m \<or>
   (\<exists>pid until. snd (auth_step env m call) = fst (check_and_insert (snd m) pid (call_now call) until))"
  using authorize_replay seal_replay by (cases m; cases call) auto

lemma capacity_frame:
  "cs_capacity (fst (capability_issue s cid b)) = cs_capacity s"
  "cs_capacity (capability_evict_expired s now) = cs_capacity s"
  by (auto simp: capability_issue_def capability_evict_expired_def Let_def split: option.splits)

lemma auth_step_caps:
  assumes "capability_store_ok (fst m)"
  shows "capability_store_ok (fst (auth_step env m call)) \<and> cs_epoch (fst (auth_step env m call)) = cs_epoch (fst m) \<and>
    cs_capacity (fst (auth_step env m call)) = cs_capacity (fst m)"
proof (cases call)
  case (CallIssue now loaded entropy endpoint presented tid key_wire)
  obtain caps replay where m: "m = (caps, replay)" by (cases m)
  have "fst (issue_authorization env caps now loaded entropy endpoint presented tid key_wire) = caps \<or>
    (\<exists>cid b. cb_epoch b = cs_epoch caps \<and>
      fst (issue_authorization env caps now loaded entropy endpoint presented tid key_wire) =
        fst (capability_issue (capability_evict_expired caps now) cid b))"
    unfolding issue_authorization_def Let_def
    by (auto split: sum.split option.split prod.split) (metis capability_binding.select_convs(8) fst_conv)+
  then show ?thesis
    using assms m CallIssue capability_issue_ok capability_evict_ok by (auto simp: capacity_frame)
qed (use assms in \<open>cases m; simp\<close>)+

interpretation auth_machine: invariant_machine
    "\<lambda>m. \<exists>epoch n k. m = (capability_store_with_capacity epoch n, replay_cache_with_capacity k)"
    "\<lambda>m m'. \<exists>env call. m' = auth_step env m call" auth_memory_ok
proof
  fix m assume "\<exists>epoch n k. m = (capability_store_with_capacity epoch n, replay_cache_with_capacity k)"
  then show "auth_memory_ok m"
    using replay_machine.inv_init by (fastforce simp: auth_memory_ok_def capability_store_new_ok)
next
  fix m m' assume ok: "auth_memory_ok m" and "\<exists>env call. m' = auth_step env m call"
  then obtain env call where m': "m' = auth_step env m call" by blast
  show "auth_memory_ok m'"
    using ok auth_step_caps [of m env call] auth_step_replay [of env m call] check_and_insert_bounded
    unfolding m' auth_memory_ok_def by metis
qed

lemma auth_run_steps: "(\<lambda>m m'. \<exists>env call. m' = auth_step env m call)\<^sup>*\<^sup>* m (auth_run env m calls)"
proof (induction calls rule: rev_induct)
  case (snoc call calls)
  have "\<exists>e c. auth_run env m (calls @ [call]) = auth_step e (auth_run env m calls) c"
    by (intro exI [of _ env] exI [of _ call]) (simp add: auth_run_def)
  with snoc.IH show ?case by (rule rtranclp.rtrancl_into_rtrancl)
qed (simp add: auth_run_def)

lemma auth_run_frame:
  assumes "capability_store_ok (fst m)"
  shows "cs_epoch (fst (auth_run env m calls)) = cs_epoch (fst m) \<and>
    cs_capacity (fst (auth_run env m calls)) = cs_capacity (fst m) \<and>
    rc_capacity (snd (auth_run env m calls)) = rc_capacity (snd m)"
  using assms
proof (induction calls arbitrary: m)
  case (Cons call calls)
  have "rc_capacity (snd (auth_step env m call)) = rc_capacity (snd m)"
    using auth_step_replay [of env m call] by auto
  with auth_step_caps [OF Cons.prems] Cons.IH [of "auth_step env m call"] show ?case
    by (simp add: auth_run_def)
qed (simp add: auth_run_def)

text \<open>
  C29. Along every sequence of authorization requests, whatever the Agents and the Worker send, the
  capability store and the replay cache stay within the capacities they were created with, and every
  stored capability carries the epoch of this process, so none survives a restart.
\<close>

theorem authorization_memory_is_bounded:
  "let m = auth_run env (capability_store_with_capacity epoch n, replay_cache_with_capacity k) calls in
   map_len (cs_capabilities (fst m)) \<le> max n 1 \<and> replay_cache_len (snd m) \<le> max k 1 \<and>
   cs_epoch (fst m) = epoch \<and>
   fmpred (\<lambda>cid b. cb_epoch b = epoch) (cs_capabilities (fst m))"
proof -
  let ?new = "(capability_store_with_capacity epoch n, replay_cache_with_capacity k)"
  have "auth_memory_ok (auth_run env ?new calls)"
    by (rule auth_machine.inv_reachable [OF _ auth_run_steps]) blast
  moreover have "capability_store_ok (fst ?new)" by (simp add: capability_store_new_ok)
  note auth_run_frame [OF this, of env calls]
  ultimately show ?thesis
    by (auto simp: Let_def auth_memory_ok_def capability_store_ok_def replay_bounded_def
        capability_store_with_capacity_def replay_cache_with_capacity_def fmpred_iff)
qed

section \<open>How often a proof is accepted\<close>

definition proof_deadline :: "u64 \<Rightarrow> time" where
  "proof_deadline issued_at = from_timestamp_millis (proof_replay_valid_until_millis issued_at)"

text \<open>The deadline of a proof can be represented: it is a millisecond count of 64 bits within chrono's range.\<close>

definition deadline_representable :: "auth_env \<Rightarrow> u64 \<Rightarrow> bool" where
  "deadline_representable env issued_at \<longleftrightarrow>
     proof_replay_valid_until_millis issued_at < 2 ^ 63 \<and> proof_deadline issued_at \<le> en_max_utc env"

lemma replay_valid_until_deadline:
  assumes "deadline_representable env issued_at"
  shows "replay_valid_until env issued_at = proof_deadline issued_at"
proof -
  have "0 \<le> proof_replay_valid_until_millis issued_at"
    by (simp add: proof_replay_valid_until_millis_def PROOF_FRESHNESS_PAST_WINDOW_MILLIS_def)
  then show ?thesis
    using assms by (simp add: replay_valid_until_def deadline_representable_def proof_deadline_def Let_def)
qed

lemma fresh_deadline:
  "proof_is_fresh issued_at now = Ok () \<longleftrightarrow>
     from_timestamp_millis (uint issued_at - PROOF_FRESHNESS_FUTURE_SKEW_MILLIS) \<le> now \<and>
     now < proof_deadline issued_at + nanos_per_milli"
  by (simp add: proof_is_fresh_iff proof_deadline_def from_timestamp_millis_def algebra_simps)

lemma approved_entry:
  assumes "authorize_request env caps now loaded replay input = (replay', Ok (Some state))"
    and "proof_id_parse_wire_value (en_b64 env) (wq_proof_id input) = Ok pid"
  shows "fmlookup (rc_seen replay') pid = Some (replay_valid_until env (wq_issued_at_millis input))"
    and "proof_is_fresh (wq_issued_at_millis input) now = Ok ()"
    and "\<not> (\<exists>t. fmlookup (rc_seen replay) pid = Some t \<and> now \<le> t)"
  using assms
    check_and_insert_lookup [of replay pid now "replay_valid_until env (wq_issued_at_millis input)" pid]
    check_and_insert_Ok_iff [of replay pid now "replay_valid_until env (wq_issued_at_millis input)"]
  unfolding authorize_request_iff check_proof_iff Let_def by (auto simp: not_le)




lemma map_len_retain_less:
  assumes "fmlookup m k = Some v" and "\<not> P k v"
  shows "map_len (map_retain P m) < map_len m"
proof -
  have "k |\<notin>| fmdom (map_retain P m)" "k |\<in>| fmdom m"
    using assms by (auto simp: fmlookup_dom_iff lookup_map_retain)
  moreover have "fmdom (map_retain P m) |\<subseteq>| fmdom m" by (auto simp: map_retain_def)
  ultimately have "fmdom (map_retain P m) |\<subset>| fmdom m" by blast
  then show ?thesis unfolding map_len_def by (rule pfsubset_fcard_mono)
qed

text \<open>
  C17. The exception is real: an approved request is approved a second time when it is repeated one
  nanosecond after its proof's deadline, provided the capability and the credential are still valid
  then. The freshness check compares whole milliseconds and still takes the proof for fresh, while
  the replay cache compares exact instants and has already evicted it.
\<close>

theorem proof_accepted_again_after_deadline:
  assumes "authorize_request env caps now loaded replay input = (replay1, Ok (Some state))"
    and "replay_bounded replay" and "deadline_representable env (wq_issued_at_millis input)"
    and "later = proof_deadline (wq_issued_at_millis input) + 1"
    and "capability_lookup caps (capability_id_from_token_bytes (en_sha256 env) (ascii_bytes (wq_token input))) = Some b"
    and "later < cb_expires_at b" and "chain_dimension (ep_credential (ad_endpoint state)) later = CredentialActive"
  shows "\<exists>replay2. authorize_request env caps later loaded replay1 input = (replay2, Ok (Some state))"
proof -
  let ?issued = "wq_issued_at_millis input"
  obtain pid where
    checked: "check_proof env caps now (wq_operation input) (TransferId (wq_transfer_id input)) (wq_chunk_index input)
        (wq_token input) (wq_proof_id input) ?issued (wq_signature input) = Some (b, pid)"
    and state: "loaded = Ok (Some state)" "binding_is_backed b now state" "query_is_eligible input state"
    and ins: "check_and_insert replay pid now (replay_valid_until env ?issued) = (replay1, Ok ())"
    using assms(1,5) unfolding authorize_request_iff check_proof_iff Let_def by auto
  have pid: "proof_id_parse_wire_value (en_b64 env) (wq_proof_id input) = Ok pid"
    using checked unfolding check_proof_iff Let_def by blast
  have entry: "fmlookup (rc_seen replay1) pid = Some (proof_deadline ?issued)"
    using approved_entry(1) [OF assms(1) pid] replay_valid_until_deadline [OF assms(3)] by simp
  have "0 \<le> PROOF_FRESHNESS_PAST_WINDOW_MILLIS + PROOF_FRESHNESS_FUTURE_SKEW_MILLIS"
    by (simp add: PROOF_FRESHNESS_PAST_WINDOW_MILLIS_def PROOF_FRESHNESS_FUTURE_SKEW_MILLIS_def)
  then have "proof_is_fresh ?issued later = Ok ()"
    unfolding fresh_deadline assms(4)
    by (simp add: proof_deadline_def proof_replay_valid_until_millis_def from_timestamp_millis_def nanos_per_milli_def)
  then have again: "check_proof env caps later (wq_operation input) (TransferId (wq_transfer_id input)) (wq_chunk_index input)
        (wq_token input) (wq_proof_id input) ?issued (wq_signature input) = Some (b, pid)"
    using checked assms(6) unfolding check_proof_iff Let_def by blast
  have backed: "binding_is_backed b later state" using state(2) assms(7) unfolding binding_is_backed_iff by blast
  have "replay_bounded replay1" using check_and_insert_bounded [OF assms(2)] ins by (metis fst_conv)
  then have "map_len (map_retain (\<lambda>_ t. later \<le> t) (rc_seen replay1)) < rc_capacity replay1"
    using map_len_retain_less [OF entry, of "\<lambda>_ t. later \<le> t"] assms(4)
    by (simp add: replay_bounded_def replay_cache_len_def)
  then have "snd (check_and_insert replay1 pid later (replay_valid_until env ?issued)) = Ok ()"
    using entry assms(4) by (auto simp: check_and_insert_Ok_iff)
  then show ?thesis
    unfolding authorize_request_iff using again state(1,3) backed by (metis prod.collapse)
qed

section \<open>A sample request\<close>

text \<open>
  A capability is granted at time 0 and used one second later for resume discovery. The hash and the
  signature check are constant; the base64 engine is the one of RFC 4648.
\<close>

definition probe_env :: auth_env where
  "probe_env = \<lparr> en_b64 = rfc4648_url, en_sha256 = (\<lambda>_. replicate 32 0), en_valid_key = (\<lambda>_. True),
     en_verify_strict = (\<lambda>_ _ _. True), en_max_utc = from_timestamp_millis (2 ^ 53),
     en_capability_ttl = from_timestamp_millis DEFAULT_CAPABILITY_TTL_MILLIS, en_data_plane_base_url = ''https'' \<rparr>"

definition probe_endpoint :: endpoint_aggregate where
  "probe_endpoint = \<lparr> ep_id = EndpointId 7, ep_inventory_signal = ''mac'', ep_identity = Enrolled,
     ep_credential = \<lparr> chain_predecessor = \<lparr> slot_lookup_id = CredentialLookupId [],
        slot_hash = \<lparr> hash_salt = [], hash_digest = [] \<rparr>, slot_issued_at = 0,
        slot_expires_at = from_timestamp_millis (2 ^ 53) \<rparr>, chain_successor = None, chain_revoked = False \<rparr>,
     ep_hardware_confidence = Consistent, ep_current_boot = None, ep_created_at = 0, ep_updated_at = 0 \<rparr>"

definition probe_attempt :: attempt where
  "probe_attempt = \<lparr> at_id = AttemptId 400, at_job_step_id = JobStepId 101, at_action_id = ActionId 401,
     at_state = A_InProgress \<rparr>"

definition probe_state :: authorization_durable_state where
  "probe_state =
     (let c = create_transfer_context (\<lambda>k. of_nat (300 + k)) (EndpointId 7) (JobId 100) (JobStepId 101) AgentToServer
                Sha256 (ChunkSize 4) (SourceProvenance ''disk'')
      in \<lparr> ad_transfer = (tc_transfer c)\<lparr> tr_attempt_id := Some (AttemptId 400) \<rparr>, ad_artifact = tc_artifact c,
           ad_manifest = tc_manifest c, ad_held = {||}, ad_attempt = Some probe_attempt, ad_endpoint = probe_endpoint \<rparr>)"

definition probe_key :: string where
  "probe_key = key_to_wire_value rfc4648_url (ProofPublicKey (replicate 32 0))"

definition probe_issue :: "capability_store \<times> (transfer_store_error + transfer_authorization_outcome)" where
  "probe_issue = issue_authorization probe_env (capability_store_with_capacity (ProcessAuthorizationEpoch 1) 4) 0
     (Ok (Some probe_state)) (replicate 32 0) (EndpointId 7) 401 (TransferId 301) probe_key"

definition probe_token :: string where
  "probe_token = b64_encode rfc4648_url (replicate 32 0)"

definition probe_query :: worker_authorization_query_input where
  "probe_query = \<lparr> wq_token = probe_token, wq_operation = ResumeDiscovery, wq_transfer_id = 301, wq_chunk_index = None,
     wq_proof_id = proof_id_to_wire_value rfc4648_url (ProofId (replicate 16 0)), wq_issued_at_millis = 1000,
     wq_signature = proof_signature_to_wire_value rfc4648_url (ProofSignature (replicate 64 0)) \<rparr>"

lemma probe_parses:
  "key_parse_wire_value rfc4648_url (\<lambda>_. True) probe_key = Ok (ProofPublicKey (replicate 32 0))"
  "proof_id_parse_wire_value rfc4648_url (wq_proof_id probe_query) = Ok (ProofId (replicate 16 0))"
  "proof_signature_parse_wire_value rfc4648_url (wq_signature probe_query) = Ok (ProofSignature (replicate 64 0))"
  unfolding probe_key_def probe_query_def worker_authorization_query_input.select_convs
  by (rule rfc4648.key_wire.parse_to_wire rfc4648.proof_id_wire.parse_to_wire rfc4648.proof_signature_wire.parse_to_wire,
      simp add: wf_key_def PROOF_PUBLIC_KEY_BYTES_def wf_proof_id_def PROOF_ID_BYTES_def wf_proof_signature_def
        PROOF_SIGNATURE_BYTES_def)+

definition probe_binding :: capability_binding where
  "probe_binding = \<lparr> cb_endpoint_id = EndpointId 7, cb_transfer_id = TransferId 301, cb_artifact_id = ArtifactId 300,
     cb_direction = AgentToServer, cb_attempt_id = AttemptId 400,
     cb_proof_public_key = ProofPublicKey (replicate 32 0),
     cb_expires_at = from_timestamp_millis DEFAULT_CAPABILITY_TTL_MILLIS, cb_epoch = ProcessAuthorizationEpoch 1 \<rparr>"

lemmas probe_defs = probe_env_def probe_endpoint_def probe_attempt_def probe_state_def probe_binding_def
  create_transfer_context_def new_incomplete_def manifest_new_def chain_dimension_def slot_valid_at_def
  from_timestamp_millis_def nanos_per_milli_def DEFAULT_CAPABILITY_TTL_MILLIS_def

lemma probe_issue_granted:
  "probe_issue = (\<lparr> cs_epoch = ProcessAuthorizationEpoch 1, cs_capacity = 4,
       cs_capabilities = map_insert (CapabilityId (replicate 32 0)) probe_binding fmempty \<rparr>,
     Ok (AuthorizationGranted probe_token (from_timestamp_millis DEFAULT_CAPABILITY_TTL_MILLIS) ''https''))"
  unfolding probe_issue_def issue_authorization_def
  using probe_parses(1)
  by (simp add: probe_defs Let_def token_generate_def capability_id_from_token_def capability_id_from_token_bytes_def
      capability_issue_def capability_evict_expired_def capability_store_with_capacity_def map_retain_def probe_token_def)

lemma probe_checked:
  assumes "proof_is_fresh 1000 now = Ok ()" and "now < from_timestamp_millis DEFAULT_CAPABILITY_TTL_MILLIS"
  shows "check_proof probe_env (fst probe_issue) now ResumeDiscovery (TransferId 301) None probe_token
    (wq_proof_id probe_query) 1000 (wq_signature probe_query) = Some (probe_binding, ProofId (replicate 16 0))"
  using assms probe_parses(2,3)
  by (simp add: check_proof_iff Let_def probe_issue_granted probe_env_def probe_binding_def capability_lookup_def
      capability_id_from_token_bytes_def verify_proof_signature_def)

lemma probe_fresh: "proof_is_fresh 1000 (from_timestamp_millis 1000) = Ok ()"
  by (simp add: proof_is_fresh_def PROOF_FRESHNESS_PAST_WINDOW_MILLIS_def PROOF_FRESHNESS_FUTURE_SKEW_MILLIS_def)

lemma probe_in_time: "from_timestamp_millis 1000 < from_timestamp_millis DEFAULT_CAPABILITY_TTL_MILLIS"
  by (simp add: from_timestamp_millis_def nanos_per_milli_def DEFAULT_CAPABILITY_TTL_MILLIS_def)


definition probe_replay :: replay_cache where
  "probe_replay = \<lparr> rc_capacity = 4,
     rc_seen = map_insert (ProofId (replicate 16 0)) (proof_deadline 1000) fmempty \<rparr>"

lemma probe_representable: "deadline_representable probe_env 1000"
  by (simp add: deadline_representable_def probe_env_def proof_deadline_def proof_replay_valid_until_millis_def
      PROOF_FRESHNESS_PAST_WINDOW_MILLIS_def from_timestamp_millis_def nanos_per_milli_def)

lemma probe_backed:
  assumes "now < from_timestamp_millis (2 ^ 53)"
  shows "binding_is_backed probe_binding now probe_state"
    and "chain_dimension (ep_credential (ad_endpoint probe_state)) now = CredentialActive"
  using assms by (simp_all add: binding_is_backed_def probe_defs Let_def)

lemma probe_approval:
  assumes "proof_is_fresh 1000 now = Ok ()" and "now < from_timestamp_millis DEFAULT_CAPABILITY_TTL_MILLIS"
    and "check_and_insert replay (ProofId (replicate 16 0)) now (proof_deadline 1000) = (replay', Ok ())"
  shows "authorize_request probe_env (fst probe_issue) now (Ok (Some probe_state)) replay probe_query =
    (replay', Ok (Some probe_state))"
proof -
  have q: "wq_operation probe_query = ResumeDiscovery" "wq_transfer_id probe_query = 301" "wq_chunk_index probe_query = None"
    "wq_token probe_query = probe_token" "wq_issued_at_millis probe_query = 1000"
    by (simp_all add: probe_query_def)
  have eligible: "query_is_eligible probe_query probe_state"
    by (simp add: query_is_eligible_def q operation_current_iff probe_defs Let_def)
  have "now < from_timestamp_millis (2 ^ 53)"
    using assms(2) by (simp add: from_timestamp_millis_def nanos_per_milli_def DEFAULT_CAPABILITY_TTL_MILLIS_def)
  note backed = probe_backed(1) [OF this]
  show ?thesis
    unfolding authorize_request_iff q
    using probe_checked [OF assms(1,2)] eligible backed assms(3)
    by (simp add: replay_valid_until_deadline [OF probe_representable])
qed

lemma probe_approved:
  "authorize_request probe_env (fst probe_issue) (from_timestamp_millis 1000) (Ok (Some probe_state))
     (replay_cache_with_capacity 4) probe_query = (probe_replay, Ok (Some probe_state))"
  by (rule probe_approval [OF probe_fresh probe_in_time])
    (simp add: check_and_insert_def Let_def replay_cache_with_capacity_def probe_replay_def map_retain_def)

lemma probe_issued: "wq_issued_at_millis probe_query = 1000" "wq_token probe_query = probe_token"
  by (simp_all add: probe_query_def)

definition probe_later :: time where
  "probe_later = proof_deadline 1000 + 1"

lemma probe_later_bounds:
  "probe_later < from_timestamp_millis DEFAULT_CAPABILITY_TTL_MILLIS" "probe_later < from_timestamp_millis (2 ^ 53)"
  by (simp_all add: probe_later_def proof_deadline_def proof_replay_valid_until_millis_def
      PROOF_FRESHNESS_PAST_WINDOW_MILLIS_def from_timestamp_millis_def nanos_per_milli_def DEFAULT_CAPABILITY_TTL_MILLIS_def)




theorem proof_accepted_again_after_deadline_witness:
  "\<exists>replay2. authorize_request probe_env (fst probe_issue) (from_timestamp_millis 1000) (Ok (Some probe_state))
       (replay_cache_with_capacity 4) probe_query = (probe_replay, Ok (Some probe_state)) \<and>
     authorize_request probe_env (fst probe_issue) probe_later (Ok (Some probe_state)) probe_replay probe_query =
       (replay2, Ok (Some probe_state))"
proof -
  have "capability_lookup (fst probe_issue) (capability_id_from_token_bytes (en_sha256 probe_env)
      (ascii_bytes (wq_token probe_query))) = Some probe_binding"
    by (simp add: probe_issue_granted capability_lookup_def capability_id_from_token_bytes_def probe_env_def)
  moreover have "probe_later < cb_expires_at probe_binding" using probe_later_bounds(1) by (simp add: probe_binding_def)
  moreover have "replay_bounded (replay_cache_with_capacity 4)" by (rule replay_machine.inv_init) blast
  ultimately show ?thesis
    using proof_accepted_again_after_deadline [OF probe_approved] probe_approved probe_representable
      probe_backed(2) [OF probe_later_bounds(2)]
    by (simp add: probe_issued probe_later_def)
qed

section \<open>The signed transcript\<close>

text \<open>
  C31. What a proof signs is a transcript of exactly 137 bytes that determines everything it stands for:
  two transcripts are equal only if they are for the same capability, operation, Transfer, Artifact,
  direction, chunk index (present or not), proof identifier and issue time. A signature can therefore
  not be reused for another request.
\<close>

theorem proof_transcript_is_unambiguous:
  assumes "length (capability_id_bytes cid) = 32" and "length (capability_id_bytes cid') = 32"
    and "wf_proof_id (pf_proof_id f)" and "wf_proof_id (pf_proof_id f')"
  shows "length (build_proof_transcript cid f) = 137 \<and>
    (build_proof_transcript cid f = build_proof_transcript cid' f' \<longleftrightarrow> cid = cid' \<and> f = f')"
  using length_proof_transcript [OF assms(1,3)] proof_transcript_inject [OF assms]
  by (auto simp: PROOF_TRANSCRIPT_LEN_def)

theorem proof_transcript_is_unambiguous_witness:
  "build_proof_transcript (CapabilityId (replicate 32 0)) (proof_fields probe_binding ChunkUpload (Some 0) (ProofId (replicate 16 0)) 5) \<noteq>
   build_proof_transcript (CapabilityId (replicate 32 0)) (proof_fields probe_binding ChunkUpload (Some 1) (ProofId (replicate 16 0)) 5)"
proof -
  let ?c = "CapabilityId (replicate 32 0)" and ?p = "ProofId (replicate 16 0)"
  have "proof_fields probe_binding ChunkUpload (Some 0) ?p 5 \<noteq> proof_fields probe_binding ChunkUpload (Some 1) ?p 5"
    by (simp add: proof_fields_def)
  moreover have "wf_proof_id ?p" by (simp add: wf_proof_id_def PROOF_ID_BYTES_def)
  ultimately show ?thesis
    using proof_transcript_is_unambiguous [of ?c ?c "proof_fields probe_binding ChunkUpload (Some 0) ?p 5"
        "proof_fields probe_binding ChunkUpload (Some 1) ?p 5"] by (simp add: proof_fields_def)
qed

section \<open>Resume discovery\<close>

lemma collect_held_ok:
  assumes "\<forall>i \<in> set is. manifest_expected_chunk m (ChunkIndex i) \<noteq> None"
  shows "collect_held eng m is = Ok (map (\<lambda>i. \<lparr> rh_chunk_index = ucast i,
     rh_digest_wire = digest_to_wire_value eng (ec_digest (the (manifest_expected_chunk m (ChunkIndex i)))) \<rparr>) is)"
  using assms by (induction "is") auto

lemma held_are_expected:
  assumes "facts_ok f"
  shows "\<forall>i \<in> set (sorted_list_of_fset (index_value |`| lf_held f)).
    manifest_expected_chunk (lf_manifest f) (ChunkIndex i) \<noteq> None"
proof
  fix i assume "i \<in> set (sorted_list_of_fset (index_value |`| lf_held f))"
  then obtain c where "c |\<in>| lf_held f" "i = index_value c" by (auto simp: sorted_list_of_fset_simps)
  then have "ChunkIndex i |\<in>| chunk_indices (lf_manifest f)"
    using assms by (cases c) (auto simp: facts_ok_def)
  then show "manifest_expected_chunk (lf_manifest f) (ChunkIndex i) \<noteq> None"
    by (simp add: in_chunk_indices manifest_expected_chunk_def)
qed

text \<open>
  C30. On tables that satisfy the invariant, an approved resume discovery always answers, and its
  answer is the durable state: the held chunks in strictly ascending order, exactly those that are
  durably held, each with the digest recorded for it.
\<close>

theorem resume_lists_exactly_the_held_chunks:
  assumes "transfer_inv db" and "loaded = load_authorization_state db endpoints tid"
    and "authorize_request env caps now loaded replay input = (replay', Ok (Some state))"
  shows "\<exists>facts f. authorize_resume_discovery env caps now loaded replay input = (replay', Ok (ResumeApproved facts)) \<and>
    abs_transfers db tid = Some f \<and> rs_transfer_id facts = tid \<and> rs_sealed facts = cm_sealed (lf_manifest f) \<and>
    sorted_wrt (<) (map rh_chunk_index (rs_held facts)) \<and>
    set (rs_held facts) = {\<lparr> rh_chunk_index = ucast i, rh_digest_wire = digest_to_wire_value (en_b64 env) (ec_digest c) \<rparr> | i c.
      ChunkIndex i |\<in>| lf_held f \<and> fmlookup (cm_chunks (lf_manifest f)) i = Some c}"
proof -
  have loaded: "loaded = Ok (Some state)" using assms(3) unfolding authorize_request_iff by blast
  then obtain f attempt e where f: "abs_transfers db tid = Some f" "state = durable_state f attempt e"
    using assms(1,2) by (auto simp: load_authorization_state_def load_abs Let_def split: option.splits if_splits)
  obtain t where t: "find_transfer (xd_jobs db) tid = Some t" "facts_of db t f"
    using f(1) unfolding abs_transfers_iff [OF assms(1)] by blast
  have tid: "tr_id (lf_transfer f) = tid"
    using t facts_of_ids(2) [OF t(2)] by (simp add: find_transfer_iff [OF assms(1)])
  let ?is = "sorted_list_of_fset (index_value |`| lf_held f)"
  let ?entry = "\<lambda>i. \<lparr> rh_chunk_index = ucast i, rh_digest_wire = digest_to_wire_value (en_b64 env)
     (ec_digest (the (manifest_expected_chunk (lf_manifest f) (ChunkIndex i)))) \<rparr>"
  note expected = held_are_expected [OF facts_of_ok [OF assms(1) t(2)]]
  obtain facts where run: "authorize_resume_discovery env caps now loaded replay input = (replay', Ok (ResumeApproved facts))"
    and facts: "rs_transfer_id facts = tid" "rs_sealed facts = cm_sealed (lf_manifest f)" "rs_held facts = map ?entry ?is"
    using assms(3) collect_held_ok [OF expected, of "en_b64 env"] tid
    by (simp add: authorize_resume_discovery_def f(2) durable_state_def)
  have "sorted_wrt (<) ?is" unfolding sorted_list_of_fset.rep_eq by (rule strict_sorted_list_of_set)
  then have sorted: "sorted_wrt (<) (map rh_chunk_index (rs_held facts))"
    by (simp add: facts(3) sorted_wrt_map u32_widen_less o_def)
  have "i \<in> set ?is \<longleftrightarrow> ChunkIndex i |\<in>| lf_held f" for i
    by (simp add: sorted_list_of_fset_simps image_iff) (metis chunk_index.collapse chunk_index.sel)
  then have "set (rs_held facts) = {\<lparr> rh_chunk_index = ucast i,
      rh_digest_wire = digest_to_wire_value (en_b64 env) (ec_digest c) \<rparr> | i c.
      ChunkIndex i |\<in>| lf_held f \<and> fmlookup (cm_chunks (lf_manifest f)) i = Some c}"
    using expected by (fastforce simp: facts(3) manifest_expected_chunk_def)
  with run facts(1,2) sorted f(1) show ?thesis by blast
qed

definition resume_db :: transfer_db where
  "resume_db = \<lparr> xd_jobs = empty_jobs\<lparr> jd_attempts := [probe_attempt],
       jd_transfers := [ad_transfer probe_state] \<rparr>, xd_artifacts = [ad_artifact probe_state],
     xd_manifests = [\<lparr> mr_artifact_id = ArtifactId 300, mr_sealed = False, mr_chunk_count = None,
       mr_artifact_digest = None \<rparr>], xd_chunks = [] \<rparr>"

theorem resume_lists_exactly_the_held_chunks_witness:
  "\<exists>facts. authorize_resume_discovery probe_env (fst probe_issue) (from_timestamp_millis 1000)
       (load_authorization_state resume_db (\<lambda>_. Some probe_endpoint) (TransferId 301))
       (replay_cache_with_capacity 4) probe_query = (probe_replay, Ok (ResumeApproved facts)) \<and>
     rs_transfer_id facts = TransferId 301"
proof -
  have inv: "transfer_inv resume_db"
    by (simp add: resume_db_def transfer_inv_def transfer_rows_ok_def probe_state_def Let_def create_transfer_context_def
        new_incomplete_def artifact_backed_def seal_ok_def rows_for_def chunk_size_get_def empty_jobs_def)
  have load: "Ok (Some probe_state) = load_authorization_state resume_db (\<lambda>_. Some probe_endpoint) (TransferId 301)"
    by code_simp
  from resume_lists_exactly_the_held_chunks [OF inv load probe_approved] load show ?thesis by auto
qed

section \<open>A clock that steps back\<close>

text \<open>
  A call with a late reading evicts an entry for good, so that an earlier reading afterwards admits
  its proof again although it is still fresh.
\<close>

lemma clock_step_back_readmits:
  assumes "fmlookup (rc_seen c) p = Some t" and "now \<le> t" and "t < late" and "p \<noteq> q"
    and "Suc (map_len (rc_seen c)) < rc_capacity c"
  shows "snd (check_and_insert c p now until) = Err Replayed \<and>
    snd (check_and_insert (fst (check_and_insert c q late until')) p now until) = Ok ()"
proof -
  let ?d = "fst (check_and_insert c q late until')"
  have "fmlookup (rc_seen ?d) p = None" using assms(1,3,4) by (simp add: check_and_insert_lookup)
  moreover have "map_len (rc_seen ?d) \<le> Suc (map_len (rc_seen c))"
    using map_len_retain [of "\<lambda>_ t. late \<le> t" "rc_seen c"]
    by (auto simp: check_and_insert_def Let_def split: option.split)
  then have "map_len (map_retain (\<lambda>_ t. now \<le> t) (rc_seen ?d)) < rc_capacity ?d"
    using map_len_retain [of "\<lambda>_ t. now \<le> t" "rc_seen ?d"] assms(5) by simp
  ultimately have "snd (check_and_insert ?d p now until) = Ok ()" by (simp add: check_and_insert_Ok_iff)
  with assms(1,2) show ?thesis by (simp add: check_and_insert_Replayed_iff)
qed

end
