(* ===== verification/Resource_Arbiter.thy ===== *)
theory Resource_Arbiter
  imports Bamep_Prelude
begin

text \<open>
  The arbiter of technical resources, \<open>src/crates/server/src/runtime/resource_arbiter.rs\<close>: claims on
  named capacities are granted together or not at all, under an identifier that gives them back
  once. All arithmetic is that of \<open>u64\<close>, checked where the code checks it and saturating where it
  saturates.

  The lemmas show that what is booked is at all times the sum of the outstanding claims and never
  more than the capacity, and that a released reservation leaves no trace.
\<close>

section \<open>Operations\<close>

datatype resource_kind = ResourceKind string

record resource_claim =
  rcl_kind :: resource_kind
  rcl_quantity :: u64

datatype reservation_id = ReservationId (reservation_number: u64)

datatype insufficient_capacity = InsufficientCapacity

record resource_arbiter =
  ab_capacities :: "(resource_kind, u64) fmap"
  ab_reserved :: "(resource_kind, u64) fmap"
  ab_reservations :: "(reservation_id, resource_claim list) fmap"
  ab_next_id :: u64

definition arbiter_new :: "(resource_kind, u64) fmap \<Rightarrow> resource_arbiter" where
  "arbiter_new capacities = \<lparr> ab_capacities = capacities, ab_reserved = fmempty, ab_reservations = fmempty,
     ab_next_id = 1 \<rparr>"

definition checked_add :: "u64 \<Rightarrow> u64 \<Rightarrow> u64 option" where
  "checked_add a b = (if uint a + uint b < 2 ^ 64 then Some (a + b) else None)"

definition saturating_sub :: "u64 \<Rightarrow> u64 \<Rightarrow> u64" where
  "saturating_sub a b = (if b \<le> a then a - b else 0)"

definition quantity_or_zero :: "(resource_kind, u64) fmap \<Rightarrow> resource_kind \<Rightarrow> u64" where
  "quantity_or_zero m k = (case fmlookup m k of None \<Rightarrow> 0 | Some q \<Rightarrow> q)"

text \<open>The claims of one request, summed by kind.\<close>

fun sum_claims :: "resource_claim list \<Rightarrow> (resource_kind, u64) fmap \<Rightarrow> (resource_kind, u64) fmap option" where
  "sum_claims [] requested = Some requested"
| "sum_claims (c # cs) requested =
     (case checked_add (quantity_or_zero requested (rcl_kind c)) (rcl_quantity c) of
        None \<Rightarrow> None
      | Some new_total \<Rightarrow> sum_claims cs (map_insert (rcl_kind c) new_total requested))"

text \<open>
  The loop over the summed request. The code iterates a hash map; the kinds come here in the order
  of their first claim, and the result does not depend on the order.
\<close>

fun add_totals ::
  "resource_arbiter \<Rightarrow> (resource_kind, u64) fmap \<Rightarrow> resource_kind list \<Rightarrow> (resource_kind, u64) fmap
    \<Rightarrow> (resource_kind, u64) fmap option" where
  "add_totals s requested [] totals = Some totals"
| "add_totals s requested (k # ks) totals =
     (case checked_add (quantity_or_zero (ab_reserved s) k) (quantity_or_zero requested k) of
        None \<Rightarrow> None
      | Some new_total \<Rightarrow>
          if new_total > quantity_or_zero (ab_capacities s) k then None
          else add_totals s requested ks (map_insert k new_total totals))"

definition arbiter_acquire ::
  "resource_arbiter \<Rightarrow> resource_claim list \<Rightarrow> resource_arbiter \<times> (insufficient_capacity + reservation_id)" where
  "arbiter_acquire s claims =
     (case sum_claims claims fmempty of
        None \<Rightarrow> (s, Err InsufficientCapacity)
      | Some requested \<Rightarrow>
          (case add_totals s requested (remdups (map rcl_kind claims)) fmempty of
             None \<Rightarrow> (s, Err InsufficientCapacity)
           | Some totals \<Rightarrow>
               (let i = ReservationId (ab_next_id s)
                in (s\<lparr> ab_reserved := ab_reserved s ++\<^sub>f totals, ab_next_id := ab_next_id s + 1,
                       ab_reservations := map_insert i claims (ab_reservations s) \<rparr>, Ok i))))"

fun give_back :: "resource_claim list \<Rightarrow> (resource_kind, u64) fmap \<Rightarrow> (resource_kind, u64) fmap" where
  "give_back [] reserved = reserved"
| "give_back (c # cs) reserved =
     give_back cs
       (case fmlookup reserved (rcl_kind c) of
          None \<Rightarrow> reserved
        | Some current \<Rightarrow>
            (let rest = saturating_sub current (rcl_quantity c)
             in if rest = 0 then map_remove (rcl_kind c) reserved
                else map_insert (rcl_kind c) rest reserved))"

definition arbiter_release :: "resource_arbiter \<Rightarrow> reservation_id \<Rightarrow> resource_arbiter" where
  "arbiter_release s i =
     (case fmlookup (ab_reservations s) i of
        None \<Rightarrow> s
      | Some claims \<Rightarrow>
          s\<lparr> ab_reservations := map_remove i (ab_reservations s),
             ab_reserved := give_back claims (ab_reserved s) \<rparr>)"

section \<open>What is booked\<close>

definition booked :: "resource_arbiter \<Rightarrow> resource_kind \<Rightarrow> nat" where
  "booked s k = unat (quantity_or_zero (ab_reserved s) k)"

definition capacity_of :: "resource_arbiter \<Rightarrow> resource_kind \<Rightarrow> nat" where
  "capacity_of s k = unat (quantity_or_zero (ab_capacities s) k)"

primrec claimed :: "resource_claim list \<Rightarrow> resource_kind \<Rightarrow> nat" where
  "claimed [] k = 0"
| "claimed (c # cs) k = (if rcl_kind c = k then unat (rcl_quantity c) else 0) + claimed cs k"

definition outstanding :: "resource_arbiter \<Rightarrow> resource_kind \<Rightarrow> nat" where
  "outstanding s k = (\<Sum>i \<in> fmdom' (ab_reservations s). claimed (the (fmlookup (ab_reservations s) i)) k)"

definition arbiter_ok :: "resource_arbiter \<Rightarrow> bool" where
  "arbiter_ok s \<longleftrightarrow>
     (\<forall>k. booked s k = outstanding s k \<and> booked s k \<le> capacity_of s k) \<and>
     (\<forall>i \<in> fmdom' (ab_reservations s). reservation_number i < ab_next_id s)"

section \<open>Arithmetic\<close>

lemma unat_u64_less: "unat (w :: u64) < 2 ^ 64"
  using unsigned_less [of w, where 'a = nat] by simp

lemma unat_add_fits:
  fixes a b :: u64
  assumes "unat a + unat b < 2 ^ 64"
  shows "unat (a + b) = unat a + unat b"
  by (rule unat_add_lem [THEN iffD1]) (use assms in simp)

lemma checked_add_Some_iff: "checked_add a b = Some c \<longleftrightarrow> unat c = unat a + unat b"
proof -
  have fits: "uint a + uint b < 2 ^ 64 \<longleftrightarrow> unat a + unat b < 2 ^ 64"
    using of_nat_less_iff [of "unat a + unat b" "2 ^ 64", where 'a = int] by simp
  have bound: "unat c < 2 ^ 64" by (rule unat_u64_less)
  show ?thesis
  proof (cases "unat a + unat b < 2 ^ 64")
    case True
    then show ?thesis
      using fits by (auto simp: checked_add_def word_unat_eq_iff unat_add_fits)
  next
    case False
    then show ?thesis using fits bound by (auto simp: checked_add_def)
  qed
qed

lemma unat_saturating_sub: "unat (saturating_sub a b) = unat a - unat b"
  by (auto simp: saturating_sub_def word_le_nat_alt unat_sub)

lemma quantity_insert [simp]:
  "quantity_or_zero (map_insert k q m) x = (if x = k then q else quantity_or_zero m x)"
  by (simp add: quantity_or_zero_def)

lemma sum_claims_quantity:
  assumes "sum_claims cs requested = Some result"
  shows "unat (quantity_or_zero result k) = unat (quantity_or_zero requested k) + claimed cs k"
  using assms
  by (induction cs requested rule: sum_claims.induct)
    (auto simp: checked_add_Some_iff split: option.splits if_splits)

lemma add_totals_Some:
  assumes "add_totals s requested ks totals = Some result"
  shows "(k \<in> set ks \<longrightarrow>
            unat (quantity_or_zero result k) = booked s k + unat (quantity_or_zero requested k) \<and>
            unat (quantity_or_zero result k) \<le> capacity_of s k \<and> k |\<in>| fmdom result) \<and>
         (k \<notin> set ks \<longrightarrow> fmlookup result k = fmlookup totals k) \<and>
         (k |\<in>| fmdom totals \<longrightarrow> k |\<in>| fmdom result)"
  using assms
proof (induction s requested ks totals rule: add_totals.induct)
  case (2 s requested j ks totals)
  then obtain t where t: "checked_add (quantity_or_zero (ab_reserved s) j) (quantity_or_zero requested j) = Some t"
      "t \<le> quantity_or_zero (ab_capacities s) j" "add_totals s requested ks (map_insert j t totals) = Some result"
    by (auto split: option.splits if_splits)
  then have "\<not> quantity_or_zero (ab_capacities s) j < t" by simp
  note IH = "2.IH" [OF t(1) this t(3)]
  have j: "j |\<in>| fmdom (map_insert j t totals)" by (simp add: map_insert_def)
  show ?case
    using IH t(1,2) j
    by (cases "k = j"; cases "k \<in> set ks")
      (auto simp: booked_def capacity_of_def checked_add_Some_iff word_le_nat_alt quantity_or_zero_def
        fmlookup_dom_iff)
qed simp

lemma add_totals_total:
  assumes "\<And>k. k \<in> set ks \<Longrightarrow> booked s k + unat (quantity_or_zero requested k) \<le> capacity_of s k"
  shows "add_totals s requested ks totals \<noteq> None"
  using assms
proof (induction s requested ks totals rule: add_totals.induct)
  case (2 s requested j ks totals)
  let ?a = "quantity_or_zero (ab_reserved s) j" and ?b = "quantity_or_zero requested j"
  have fits: "unat ?a + unat ?b \<le> unat (quantity_or_zero (ab_capacities s) j)"
    using "2.prems" [of j] by (simp add: booked_def capacity_of_def)
  then have "unat ?a + unat ?b < 2 ^ 64"
    using unat_u64_less [of "quantity_or_zero (ab_capacities s) j"] by simp
  then have "checked_add ?a ?b = Some (?a + ?b)" "?a + ?b \<le> quantity_or_zero (ab_capacities s) j"
    using fits by (simp_all add: checked_add_Some_iff unat_add_fits word_le_nat_alt)
  then show ?case using 2 by simp
qed simp

lemma sum_claims_total:
  assumes "\<And>k. unat (quantity_or_zero requested k) + claimed cs k < 2 ^ 64"
  shows "sum_claims cs requested \<noteq> None"
  using assms
proof (induction cs requested rule: sum_claims.induct)
  case (2 c cs requested)
  let ?a = "quantity_or_zero requested (rcl_kind c)"
  have "unat ?a + unat (rcl_quantity c) < 2 ^ 64"
    using "2.prems" [of "rcl_kind c"] by simp
  then have sum: "checked_add ?a (rcl_quantity c) = Some (?a + rcl_quantity c)"
      "unat (?a + rcl_quantity c) = unat ?a + unat (rcl_quantity c)"
    by (simp_all add: checked_add_Some_iff unat_add_fits)
  have "unat (quantity_or_zero (map_insert (rcl_kind c) (?a + rcl_quantity c) requested) k) + claimed cs k < 2 ^ 64"
    for k
    using "2.prems" [of k] sum(2) by auto
  from "2.IH" [OF sum(1) this] show ?case by (simp add: sum(1))
qed simp

lemma quantity_give_back: "unat (quantity_or_zero (give_back cs reserved) k) = unat (quantity_or_zero reserved k) - claimed cs k"
proof (induction cs reserved rule: give_back.induct)
  case (2 c cs reserved)
  let ?r = "case fmlookup reserved (rcl_kind c) of None \<Rightarrow> reserved
      | Some current \<Rightarrow> let rest = saturating_sub current (rcl_quantity c)
          in if rest = 0 then map_remove (rcl_kind c) reserved else map_insert (rcl_kind c) rest reserved"
  have "unat (quantity_or_zero ?r k) =
      unat (quantity_or_zero reserved k) - (if rcl_kind c = k then unat (rcl_quantity c) else 0)"
    using unat_saturating_sub [of "quantity_or_zero reserved k" "rcl_quantity c"]
    by (auto simp: quantity_or_zero_def Let_def split: option.splits)
  with 2 show ?case by simp
qed simp

lemma claimed_outside: "k \<notin> rcl_kind ` set cs \<Longrightarrow> claimed cs k = 0"
  by (induction cs) auto

section \<open>Acquiring and releasing\<close>

lemma acquire_cases:
  obtains (rejected) "arbiter_acquire s cs = (s, Err InsufficientCapacity)"
      "\<exists>k. capacity_of s k < booked s k + claimed cs k"
  | (granted) reserved where
      "arbiter_acquire s cs =
         (s\<lparr> ab_reserved := reserved, ab_next_id := ab_next_id s + 1,
            ab_reservations := map_insert (ReservationId (ab_next_id s)) cs (ab_reservations s) \<rparr>,
          Ok (ReservationId (ab_next_id s)))"
      "\<And>k. unat (quantity_or_zero reserved k) = booked s k + claimed cs k"
      "\<And>k. k \<in> rcl_kind ` set cs \<Longrightarrow> booked s k + claimed cs k \<le> capacity_of s k"
proof (cases "sum_claims cs fmempty")
  case None
  then obtain k where "2 ^ 64 \<le> claimed cs k"
    using sum_claims_total [of fmempty cs] by (fastforce simp: quantity_or_zero_def not_less [symmetric])
  then have "capacity_of s k < booked s k + claimed cs k"
    using unat_u64_less [of "quantity_or_zero (ab_capacities s) k"] by (simp add: capacity_of_def)
  with None show thesis by (intro rejected) (auto simp: arbiter_acquire_def)
next
  case (Some requested)
  have req: "unat (quantity_or_zero requested k) = claimed cs k" for k
    using sum_claims_quantity [OF Some, of k] by (simp add: quantity_or_zero_def)
  show thesis
  proof (cases "add_totals s requested (remdups (map rcl_kind cs)) fmempty")
    case None
    then have "\<exists>k. capacity_of s k < booked s k + claimed cs k"
        using add_totals_total [of "remdups (map rcl_kind cs)" s requested fmempty] req
      by (metis not_le)
    with None Some show thesis by (intro rejected) (auto simp: arbiter_acquire_def)
  next
    case totals: (Some totals)
    note t = add_totals_Some [OF totals]
    have "unat (quantity_or_zero (ab_reserved s ++\<^sub>f totals) k) = booked s k + claimed cs k" for k
    proof (cases "k \<in> rcl_kind ` set cs")
      case True
      with t [of k] req [of k] show ?thesis by (auto simp: quantity_or_zero_def)
    next
      case False
      with t [of k] show ?thesis
        by (auto simp: quantity_or_zero_def booked_def claimed_outside fmlookup_dom_iff)
    qed
    moreover have "booked s k + claimed cs k \<le> capacity_of s k" if "k \<in> rcl_kind ` set cs" for k
      using t [of k] req [of k] that by auto
    ultimately show thesis
      using Some totals by (intro granted) (auto simp: arbiter_acquire_def Let_def)
  qed
qed

lemma outstanding_insert:
  assumes "i \<notin> fmdom' (ab_reservations s)"
  shows "outstanding (s\<lparr> ab_reserved := r, ab_next_id := n,
      ab_reservations := map_insert i cs (ab_reservations s) \<rparr>) k = outstanding s k + claimed cs k"
proof -
  have "(\<Sum>j \<in> fmdom' (ab_reservations s). claimed (the (if i = j then Some cs else fmlookup (ab_reservations s) j)) k)
      = outstanding s k"
    unfolding outstanding_def using assms by (intro sum.cong) auto
  with assms show ?thesis by (simp add: outstanding_def map_insert_def)
qed

lemma outstanding_remove:
  assumes "fmlookup (ab_reservations s) i = Some cs"
  shows "outstanding s k = outstanding (s\<lparr> ab_reservations := map_remove i (ab_reservations s), ab_reserved := r \<rparr>) k
      + claimed cs k"
proof -
  have i: "i \<in> fmdom' (ab_reservations s)" using assms by (auto intro: fmdom'I)
  have "(\<Sum>j \<in> fmdom' (ab_reservations s) - {i}. claimed (the (fmlookup (map_remove i (ab_reservations s)) j)) k)
      = (\<Sum>j \<in> fmdom' (ab_reservations s) - {i}. claimed (the (fmlookup (ab_reservations s) j)) k)"
    by (intro sum.cong) auto
  moreover have "fmdom' (map_remove i (ab_reservations s)) = fmdom' (ab_reservations s) - {i}"
    by (simp add: map_remove_def)
  ultimately show ?thesis
    using sum.remove [OF finite_fmdom' i, of "\<lambda>j. claimed (the (fmlookup (ab_reservations s) j)) k"] assms
    by (simp add: outstanding_def)
qed

lemma next_id_step:
  assumes "(n :: u64) \<noteq> - 1"
  shows "unat (n + 1) = unat n + 1"
  using assms unatSuc [of n] by (simp add: add.commute [of n] add_eq_0_iff)

lemma arbiter_okD:
  assumes "arbiter_ok s"
  shows "booked s k = outstanding s k" "booked s k \<le> capacity_of s k"
    "ReservationId (ab_next_id s) \<notin> fmdom' (ab_reservations s)"
    "i \<in> fmdom' (ab_reservations s) \<Longrightarrow> reservation_number i < ab_next_id s"
proof -
  show "booked s k = outstanding s k" "booked s k \<le> capacity_of s k"
    using assms unfolding arbiter_ok_def by blast+
  show "ReservationId (ab_next_id s) \<notin> fmdom' (ab_reservations s)"
    using assms unfolding arbiter_ok_def by fastforce
  show "i \<in> fmdom' (ab_reservations s) \<Longrightarrow> reservation_number i < ab_next_id s"
    using assms unfolding arbiter_ok_def by blast
qed

lemma acquire_granted_iff:
  assumes "arbiter_ok s"
  shows "is_ok (snd (arbiter_acquire s cs)) \<longleftrightarrow> (\<forall>k. booked s k + claimed cs k \<le> capacity_of s k)"
proof (cases rule: acquire_cases [of s cs])
  case rejected
  then show ?thesis by (auto simp: not_le)
next
  case (granted reserved)
  have "booked s k + claimed cs k \<le> capacity_of s k" for k
    using granted(3) [of k] claimed_outside [of k cs] arbiter_okD(2) [OF assms, of k]
    by (cases "k \<in> rcl_kind ` set cs") auto
  with granted(1) show ?thesis by simp
qed

lemma acquire_ok:
  assumes ok: "arbiter_ok s" and ids: "ab_next_id s \<noteq> - 1"
  shows "arbiter_ok (fst (arbiter_acquire s cs))"
proof (cases rule: acquire_cases [of s cs])
  case (granted reserved)
  let ?s = "fst (arbiter_acquire s cs)"
  have room: "booked s k + claimed cs k \<le> capacity_of s k" for k
    using granted(1) acquire_granted_iff [OF ok, of cs] by simp
  have s: "booked ?s k = booked s k + claimed cs k" "capacity_of ?s k = capacity_of s k"
      "outstanding ?s k = outstanding s k + claimed cs k" for k
    using granted(1,2) outstanding_insert [OF arbiter_okD(3) [OF ok]]
    by (simp_all add: booked_def capacity_of_def)
  have "reservation_number i < ab_next_id s + 1" if "i \<in> fmdom' (ab_reservations ?s)" for i
    using that granted(1) arbiter_okD(4) [OF ok, of i] next_id_step [OF ids]
    by (auto simp: map_insert_def word_less_nat_alt)
  moreover have "ab_next_id ?s = ab_next_id s + 1" using granted(1) by simp
  moreover have "booked ?s k = outstanding ?s k" "booked ?s k \<le> capacity_of ?s k" for k
    using s [of k] room [of k] arbiter_okD(1) [OF ok, of k] by simp_all
  ultimately show ?thesis by (simp add: arbiter_ok_def)
qed (use ok in simp)

lemma release_ok:
  assumes ok: "arbiter_ok s"
  shows "arbiter_ok (arbiter_release s i)"
proof (cases "fmlookup (ab_reservations s) i")
  case (Some cs)
  let ?s = "arbiter_release s i"
  have s: "booked ?s k = booked s k - claimed cs k" "capacity_of ?s k = capacity_of s k"
      "outstanding s k = outstanding ?s k + claimed cs k" for k
    using Some outstanding_remove [OF Some, of k]
    by (simp_all add: arbiter_release_def booked_def capacity_of_def quantity_give_back)
  have "reservation_number j < ab_next_id s" if "j \<in> fmdom' (ab_reservations ?s)" for j
    using that Some arbiter_okD(4) [OF ok, of j] by (auto simp: arbiter_release_def map_remove_def)
  moreover have "ab_next_id ?s = ab_next_id s" using Some by (simp add: arbiter_release_def)
  moreover have "booked ?s k = outstanding ?s k" "booked ?s k \<le> capacity_of ?s k" for k
    using s [of k] arbiter_okD(1,2) [OF ok, of k] by auto
  ultimately show ?thesis by (simp add: arbiter_ok_def)
qed (use ok in \<open>simp add: arbiter_release_def\<close>)

lemma release_gone [simp]: "fmlookup (ab_reservations (arbiter_release s i)) i = None"
  by (simp add: arbiter_release_def split: option.split)

lemma release_unknown: "fmlookup (ab_reservations s) i = None \<Longrightarrow> arbiter_release s i = s"
  by (simp add: arbiter_release_def)

text \<open>Releasing what was just acquired restores every booking, and a second release does nothing.\<close>

lemma release_after_acquire:
  assumes "arbiter_ok s" "arbiter_acquire s cs = (s', Ok i)"
  shows "booked (arbiter_release s' i) = booked s"
    "ab_reservations (arbiter_release s' i) = ab_reservations s"
    "arbiter_release (arbiter_release s' i) i = arbiter_release s' i"
proof -
  from assms(2) obtain reserved where g:
      "s' = s\<lparr> ab_reserved := reserved, ab_next_id := ab_next_id s + 1,
         ab_reservations := map_insert i cs (ab_reservations s) \<rparr>" "i = ReservationId (ab_next_id s)"
      "\<And>k. unat (quantity_or_zero reserved k) = booked s k + claimed cs k"
  proof (cases rule: acquire_cases [of s cs])
    case (granted reserved)
    show ?thesis by (rule that [of reserved]) (use granted(1) assms(2) granted(2) in simp_all)
  qed simp
  have fresh: "fmlookup (ab_reservations s) i = None"
    using arbiter_okD(3) [OF assms(1)] g(2) by (simp add: fmlookup_dom'_iff)
  show "booked (arbiter_release s' i) = booked s"
    using g(1) g(3) by (simp add: fun_eq_iff booked_def arbiter_release_def quantity_give_back)
  show "ab_reservations (arbiter_release s' i) = ab_reservations s"
    using g(1) fresh by (intro fmap_ext) (auto simp: arbiter_release_def)
  show "arbiter_release (arbiter_release s' i) i = arbiter_release s' i"
    by (rule release_unknown) simp
qed

end
