(* ===== verification/Dispatch_Service.thy ===== *)
theory Dispatch_Service
  imports Job_History Resource_Arbiter
begin

text \<open>
  The application services around the dispatch of an Attempt,
  \<open>src/crates/server/src/application/mod.rs\<close>, with the registry that remembers which reservation an
  Attempt holds, \<open>src/crates/server/src/runtime/reservation_registry.rs\<close>. A dispatch service acquires
  technical resources, runs the transaction of \<open>Job_Store\<close> and gives the resources back unless it
  commits; the sending service registers the reservation before it sends, once per Attempt; every
  service that applies evidence releases the reservation of an Attempt it has brought to a final
  state.

  The machine of this theory interleaves all of them with the other transactions on the Job tables
  and with restarts. Its invariant is that resources are held only for Attempts that are still
  active, or by the caller between the two dispatch services.
\<close>

section \<open>The reservation registry\<close>

type_synonym reservation_registry = "(attempt_id, reservation_id) fmap"

datatype registration_outcome = Registered | AlreadyRegistered

definition registry_register ::
  "reservation_registry \<Rightarrow> attempt_id \<Rightarrow> reservation_id \<Rightarrow> reservation_registry \<times> registration_outcome" where
  "registry_register reg attempt_id reservation_id =
     (case fmlookup reg attempt_id of
        Some _ \<Rightarrow> (reg, AlreadyRegistered)
      | None \<Rightarrow> (map_insert attempt_id reservation_id reg, Registered))"

definition registry_take ::
  "reservation_registry \<Rightarrow> attempt_id \<Rightarrow> reservation_registry \<times> reservation_id option" where
  "registry_take reg attempt_id = (map_remove attempt_id reg, fmlookup reg attempt_id)"

section \<open>Committing a dispatch\<close>

datatype final_dispatch_result =
    FinalResourceUnavailable
  | FinalRejected final_dispatch_rejection
  | FinalCommitted final_dispatch_outcome reservation_id

datatype transfer_dispatch_result =
    TransferResourceUnavailable
  | TransferRejected transfer_dispatch_rejection
  | TransferCommitted transfer_dispatch_outcome reservation_id

definition service_destructive_dispatch ::
  "resource_arbiter \<Rightarrow> job_db \<Rightarrow> uuid_source \<Rightarrow> job_id \<Rightarrow> job_step_id \<Rightarrow> dispatch_facts \<Rightarrow> resource_claim list
    \<Rightarrow> resource_arbiter \<times> job_db \<times> (job_store_error + final_dispatch_result)" where
  "service_destructive_dispatch arbiter db new_v4 jid sid facts claims =
     (case arbiter_acquire arbiter claims of
        (arbiter1, Inl InsufficientCapacity) \<Rightarrow> (arbiter1, db, Ok FinalResourceUnavailable)
      | (arbiter1, Inr reservation) \<Rightarrow>
          (case commit_destructive_dispatch_tx db new_v4 jid sid facts of
             (db1, Inr outcome) \<Rightarrow> (arbiter1, db1, Ok (FinalCommitted outcome reservation))
           | (db1, Inl (StoreDispatchRejected rejection)) \<Rightarrow>
               (arbiter_release arbiter1 reservation, db1, Ok (FinalRejected rejection))
           | (db1, Inl e) \<Rightarrow> (arbiter_release arbiter1 reservation, db1, Err e)))"

definition service_transfer_dispatch ::
  "resource_arbiter \<Rightarrow> job_db \<Rightarrow> uuid_source \<Rightarrow> job_id \<Rightarrow> job_step_id \<Rightarrow> transfer_id \<Rightarrow> resource_claim list
    \<Rightarrow> resource_arbiter \<times> job_db \<times> (job_store_error + transfer_dispatch_result)" where
  "service_transfer_dispatch arbiter db new_v4 jid sid tid claims =
     (case arbiter_acquire arbiter claims of
        (arbiter1, Inl InsufficientCapacity) \<Rightarrow> (arbiter1, db, Ok TransferResourceUnavailable)
      | (arbiter1, Inr reservation) \<Rightarrow>
          (case commit_transfer_dispatch_tx db new_v4 jid sid tid of
             (db1, Inr outcome) \<Rightarrow> (arbiter1, db1, Ok (TransferCommitted outcome reservation))
           | (db1, Inl (StoreTransferRejected rejection)) \<Rightarrow>
               (arbiter_release arbiter1 reservation, db1, Ok (TransferRejected rejection))
           | (db1, Inl e) \<Rightarrow> (arbiter_release arbiter1 reservation, db1, Err e)))"

section \<open>Sending a dispatch\<close>

definition M1_SIMULATED_EXECUTION_ACTION_TYPE :: string where
  "M1_SIMULATED_EXECUTION_ACTION_TYPE = ''bamep.m1.simulated-execution''"

definition M1_SIMULATED_EXECUTION_ACTION_VERSION :: string where
  "M1_SIMULATED_EXECUTION_ACTION_VERSION = ''1''"

definition M1_DATA_PLANE_TRANSFER_ACTION_TYPE :: string where
  "M1_DATA_PLANE_TRANSFER_ACTION_TYPE = ''bamep.m1.data-plane-transfer''"

definition M1_DATA_PLANE_TRANSFER_ACTION_VERSION :: string where
  "M1_DATA_PLANE_TRANSFER_ACTION_VERSION = ''1''"

datatype parameter_value = ParamString string | ParamNumber u32

text \<open>An \<open>ActionDispatch\<close>; the correlation of its envelope is always the action it dispatches.\<close>

record action_dispatch_message =
  ad_correlation_id :: action_id
  ad_action_id :: action_id
  ad_action_type :: string
  ad_action_version :: string
  ad_parameters :: "(string, parameter_value) fmap"
  ad_retry_of :: "action_id option"

definition action_dispatch_new ::
  "action_id \<Rightarrow> string \<Rightarrow> string \<Rightarrow> (string, parameter_value) fmap \<Rightarrow> action_dispatch_message" where
  "action_dispatch_new act ty version parameters =
     \<lparr> ad_correlation_id = act, ad_action_id = act, ad_action_type = ty, ad_action_version = version,
       ad_parameters = parameters, ad_retry_of = None \<rparr>"

fun direction_wire :: "transfer_direction \<Rightarrow> string" where
  "direction_wire AgentToServer = ''agent_to_server''"

fun digest_algorithm_wire :: "digest_algorithm \<Rightarrow> string" where
  "digest_algorithm_wire Sha256 = ''sha256''"

text \<open>\<open>hyphenated\<close> is the text form of an identifier, a function of the \<open>uuid\<close> crate.\<close>

definition transfer_action_parameters :: "(uuid \<Rightarrow> string) \<Rightarrow> transfer \<Rightarrow> (string, parameter_value) fmap" where
  "transfer_action_parameters hyphenated t =
     map_insert ''chunk_size'' (ParamNumber (chunk_size_get (tr_chunk_size t)))
       (map_insert ''digest_algorithm'' (ParamString (digest_algorithm_wire (tr_digest_algorithm t)))
         (map_insert ''direction'' (ParamString (direction_wire (tr_direction t)))
           (map_insert ''artifact_id'' (ParamString (case tr_artifact_id t of ArtifactId u \<Rightarrow> hyphenated u))
             (map_insert ''transfer_id'' (ParamString (case tr_id t of TransferId u \<Rightarrow> hyphenated u)) fmempty))))"

datatype agent_dispatch_error = NoSession | ChannelClosed | SendFailedLocally

datatype action_dispatch_outcome =
    DispatchSent
  | DispatchSendFailed agent_dispatch_error
  | AlreadyDispatched
  | NotDispatchable

text \<open>
  The transport is the port \<open>AgentDispatchPort\<close>: its answer to a message is an argument. The last
  component of the result is the message handed to the transport, if any.
\<close>

type_synonym dispatch_transport = "endpoint_id \<Rightarrow> action_dispatch_message \<Rightarrow> agent_dispatch_error option"

definition dispatch_message ::
  "dispatch_transport \<Rightarrow> reservation_registry \<Rightarrow> endpoint_id \<Rightarrow> attempt \<Rightarrow> reservation_id
    \<Rightarrow> action_dispatch_message \<Rightarrow> reservation_registry \<times> action_dispatch_outcome \<times> action_dispatch_message option" where
  "dispatch_message transport reg endpoint attempt reservation msg =
     (if at_state attempt \<noteq> A_Dispatched then (reg, NotDispatchable, None)
      else case registry_register reg (at_id attempt) reservation of
        (reg1, AlreadyRegistered) \<Rightarrow> (reg1, AlreadyDispatched, None)
      | (reg1, Registered) \<Rightarrow>
          (case transport endpoint msg of
             None \<Rightarrow> (reg1, DispatchSent, Some msg)
           | Some e \<Rightarrow> (reg1, DispatchSendFailed e, Some msg)))"

definition dispatch_action ::
  "dispatch_transport \<Rightarrow> reservation_registry \<Rightarrow> endpoint_id \<Rightarrow> attempt \<Rightarrow> reservation_id
    \<Rightarrow> reservation_registry \<times> action_dispatch_outcome \<times> action_dispatch_message option" where
  "dispatch_action transport reg endpoint attempt reservation =
     dispatch_message transport reg endpoint attempt reservation
       (action_dispatch_new (at_action_id attempt) M1_SIMULATED_EXECUTION_ACTION_TYPE
          M1_SIMULATED_EXECUTION_ACTION_VERSION fmempty)"

definition dispatch_transfer ::
  "(uuid \<Rightarrow> string) \<Rightarrow> dispatch_transport \<Rightarrow> reservation_registry \<Rightarrow> endpoint_id \<Rightarrow> attempt \<Rightarrow> reservation_id
    \<Rightarrow> transfer \<Rightarrow> reservation_registry \<times> action_dispatch_outcome \<times> action_dispatch_message option" where
  "dispatch_transfer hyphenated transport reg endpoint attempt reservation t =
     dispatch_message transport reg endpoint attempt reservation
       (action_dispatch_new (at_action_id attempt) M1_DATA_PLANE_TRANSFER_ACTION_TYPE
          M1_DATA_PLANE_TRANSFER_ACTION_VERSION (transfer_action_parameters hyphenated t))"

section \<open>Evidence and its release\<close>

text \<open>
  The end of every service that applies evidence: the reservation of an Attempt that became final is
  taken from the registry and, if this call removed it, released.
\<close>

definition release_attempt ::
  "reservation_registry \<Rightarrow> resource_arbiter \<Rightarrow> attempt_id \<Rightarrow> reservation_registry \<times> resource_arbiter" where
  "release_attempt reg arbiter aid =
     (case registry_take reg aid of
        (reg1, Some reservation) \<Rightarrow> (reg1, arbiter_release arbiter reservation)
      | (reg1, None) \<Rightarrow> (reg1, arbiter))"

definition release_terminal ::
  "reservation_registry \<Rightarrow> resource_arbiter \<Rightarrow> job_store_error + action_evidence_applied option
    \<Rightarrow> reservation_registry \<times> resource_arbiter" where
  "release_terminal reg arbiter result =
     (case result of
        Inr (Some ap) \<Rightarrow>
          if ap_terminal ap then release_attempt reg arbiter (at_id (ap_attempt ap)) else (reg, arbiter)
      | _ \<Rightarrow> (reg, arbiter))"

definition release_closed ::
  "reservation_registry \<Rightarrow> resource_arbiter \<Rightarrow> job_store_error + action_evidence_applied option
    \<Rightarrow> reservation_registry \<times> resource_arbiter" where
  "release_closed reg arbiter result =
     (case result of
        Inr (Some ap) \<Rightarrow> release_attempt reg arbiter (at_id (ap_attempt ap))
      | _ \<Rightarrow> (reg, arbiter))"

text \<open>
  The services share the Job tables, the registry and the arbiter. \<open>ds_in_hand\<close> holds what a caller
  of a dispatch service was given and has not yet passed to the sending service.
\<close>

record dispatch_state =
  ds_jobs :: job_db
  ds_registry :: reservation_registry
  ds_arbiter :: resource_arbiter
  ds_in_hand :: "(attempt \<times> reservation_id) list"

definition evidence_service ::
  "dispatch_state \<Rightarrow> action_evidence_applied option job_tx \<Rightarrow> dispatch_state" where
  "evidence_service st tx =
     (let (reg, arbiter) = release_terminal (ds_registry st) (ds_arbiter st) (snd tx)
      in st\<lparr> ds_jobs := fst tx, ds_registry := reg, ds_arbiter := arbiter \<rparr>)"

definition service_apply_action_evidence ::
  "dispatch_state \<Rightarrow> uuid_source \<Rightarrow> action_id \<Rightarrow> endpoint_id \<Rightarrow> action_evidence \<Rightarrow> time \<Rightarrow> string \<Rightarrow> dispatch_state" where
  "service_apply_action_evidence st new_v4 act endpoint evidence now detail =
     evidence_service st (apply_action_evidence_tx (ds_jobs st) new_v4 act endpoint evidence now detail)"

definition service_apply_cancel_ack ::
  "dispatch_state \<Rightarrow> uuid_source \<Rightarrow> action_id \<Rightarrow> endpoint_id \<Rightarrow> cancel_ack_evidence \<Rightarrow> time \<Rightarrow> string \<Rightarrow> dispatch_state" where
  "service_apply_cancel_ack st new_v4 act endpoint evidence now detail =
     evidence_service st (apply_cancel_ack_tx (ds_jobs st) new_v4 act endpoint evidence now detail)"

definition service_apply_status_report ::
  "dispatch_state \<Rightarrow> uuid_source \<Rightarrow> action_id \<Rightarrow> endpoint_id \<Rightarrow> status_report_evidence \<Rightarrow> time \<Rightarrow> string \<Rightarrow> dispatch_state" where
  "service_apply_status_report st new_v4 act endpoint evidence now detail =
     evidence_service st (apply_status_report_tx (ds_jobs st) new_v4 act endpoint evidence now detail)"

definition service_close_indeterminate ::
  "dispatch_state \<Rightarrow> attempt_id list \<Rightarrow> uuid_source \<Rightarrow> actor \<Rightarrow> job_id \<Rightarrow> time \<Rightarrow> string \<Rightarrow> dispatch_state" where
  "service_close_indeterminate st rows new_v4 operator jid now detail =
     (let tx = close_indeterminate_tx (ds_jobs st) rows new_v4 operator jid now detail;
          (reg, arbiter) = release_closed (ds_registry st) (ds_arbiter st) (snd tx)
      in st\<lparr> ds_jobs := fst tx, ds_registry := reg, ds_arbiter := arbiter \<rparr>)"

section \<open>The machine\<close>

datatype service_op =
    SvcJob job_op
  | SvcDestructive uuid_source job_id job_step_id dispatch_facts "resource_claim list"
  | SvcTransfer uuid_source job_id job_step_id transfer_id "resource_claim list"
  | SvcSend dispatch_transport endpoint_id attempt_id action_dispatch_message
  | SvcActionEvidence uuid_source action_id endpoint_id action_evidence time string
  | SvcCancelAck uuid_source action_id endpoint_id cancel_ack_evidence time string
  | SvcStatusReport uuid_source action_id endpoint_id status_report_evidence time string
  | SvcClose "attempt_id list" uuid_source actor job_id time string
  | SvcRestart "(resource_kind, u64) fmap"

fun service_step :: "dispatch_state \<Rightarrow> service_op \<Rightarrow> dispatch_state" where
  "service_step st (SvcJob op) = st\<lparr> ds_jobs := job_store_step (ds_jobs st) op \<rparr>"
| "service_step st (SvcDestructive u jid sid facts claims) =
     (case service_destructive_dispatch (ds_arbiter st) (ds_jobs st) u jid sid facts claims of
        (arbiter, db, Inr (FinalCommitted outcome reservation)) \<Rightarrow>
          st\<lparr> ds_jobs := db, ds_arbiter := arbiter,
             ds_in_hand := (fo_attempt outcome, reservation) # ds_in_hand st \<rparr>
      | (arbiter, db, _) \<Rightarrow> st\<lparr> ds_jobs := db, ds_arbiter := arbiter \<rparr>)"
| "service_step st (SvcTransfer u jid sid tid claims) =
     (case service_transfer_dispatch (ds_arbiter st) (ds_jobs st) u jid sid tid claims of
        (arbiter, db, Inr (TransferCommitted outcome reservation)) \<Rightarrow>
          st\<lparr> ds_jobs := db, ds_arbiter := arbiter,
             ds_in_hand := (to_attempt outcome, reservation) # ds_in_hand st \<rparr>
      | (arbiter, db, _) \<Rightarrow> st\<lparr> ds_jobs := db, ds_arbiter := arbiter \<rparr>)"
| "service_step st (SvcSend transport endpoint aid msg) =
     (case find (\<lambda>(a, _). at_id a = aid) (ds_in_hand st) of
        None \<Rightarrow> st
      | Some (attempt, reservation) \<Rightarrow>
          st\<lparr> ds_registry := fst (dispatch_message transport (ds_registry st) endpoint attempt reservation msg),
             ds_in_hand := filter (\<lambda>(a, _). at_id a \<noteq> aid) (ds_in_hand st) \<rparr>)"
| "service_step st (SvcActionEvidence u act ep ev now detail) = service_apply_action_evidence st u act ep ev now detail"
| "service_step st (SvcCancelAck u act ep ev now detail) = service_apply_cancel_ack st u act ep ev now detail"
| "service_step st (SvcStatusReport u act ep ev now detail) = service_apply_status_report st u act ep ev now detail"
| "service_step st (SvcClose rows u operator jid now detail) = service_close_indeterminate st rows u operator jid now detail"
| "service_step st (SvcRestart capacities) =
     \<lparr> ds_jobs = fst (reconcile_on_startup_tx (ds_jobs st)), ds_registry = fmempty,
       ds_arbiter = arbiter_new capacities, ds_in_hand = [] \<rparr>"

definition service_run :: "dispatch_state \<Rightarrow> service_op list \<Rightarrow> dispatch_state" where
  "service_run = foldl service_step"

definition service_boot :: "(resource_kind, u64) fmap \<Rightarrow> dispatch_state" where
  "service_boot capacities = \<lparr> ds_jobs = empty_jobs, ds_registry = fmempty,
     ds_arbiter = arbiter_new capacities, ds_in_hand = [] \<rparr>"

text \<open>The transactions that are reached without a service of this theory.\<close>

fun plain_op :: "job_op \<Rightarrow> bool" where
  "plain_op (OpCommitDestructive _ _ _ _) = False"
| "plain_op (OpCommitTransfer _ _ _ _) = False"
| "plain_op (OpActionEvidence _ _ _ _ _ _) = False"
| "plain_op (OpCancelAck _ _ _ _ _ _) = False"
| "plain_op (OpStatusReport _ _ _ _ _ _) = False"
| "plain_op (OpCloseIndeterminate _ _ _ _ _ _) = False"
| "plain_op _ = True"

definition active_in :: "job_db \<Rightarrow> attempt_id \<Rightarrow> bool" where
  "active_in db aid \<longleftrightarrow> list_ex (\<lambda>a. at_id a = aid \<and> attempt_active (at_state a)) (jd_attempts db)"

text \<open>
  What a run relies on: a caller passes a committed Attempt to the sending service while it is still
  active, as the documentation of the registry asks, the counter of reservations does not wrap, and
  the conditions of the Job machine.
\<close>

fun service_conforms :: "dispatch_state \<Rightarrow> service_op \<Rightarrow> bool" where
  "service_conforms st (SvcJob op) = (plain_op op \<and> op_conforms (ds_jobs st) op)"
| "service_conforms st (SvcDestructive u jid sid facts claims) = (ab_next_id (ds_arbiter st) \<noteq> - 1)"
| "service_conforms st (SvcTransfer u jid sid tid claims) = (ab_next_id (ds_arbiter st) \<noteq> - 1)"
| "service_conforms st (SvcSend _ _ aid _) =
     list_all (\<lambda>(a, _). at_id a = aid \<longrightarrow> active_in (ds_jobs st) aid) (ds_in_hand st)"
| "service_conforms st (SvcCancelAck u act ep ev now detail) = op_conforms (ds_jobs st) (OpCancelAck u act ep ev now detail)"
| "service_conforms st (SvcClose rows u operator jid now detail) =
     op_conforms (ds_jobs st) (OpCloseIndeterminate rows u operator jid now detail)"
| "service_conforms st _ = True"

fun service_run_conforms :: "dispatch_state \<Rightarrow> service_op list \<Rightarrow> bool" where
  "service_run_conforms st [] = True"
| "service_run_conforms st (op # ops) = (service_conforms st op \<and> service_run_conforms (service_step st op) ops)"

section \<open>The invariant\<close>

text \<open>
  The books balance: every reservation of the arbiter belongs to exactly one holder, a registered
  Attempt or a caller.
\<close>

definition books_ok :: "reservation_registry \<Rightarrow> (attempt \<times> reservation_id) list \<Rightarrow> resource_arbiter \<Rightarrow> bool" where
  "books_ok reg hand arbiter \<longleftrightarrow>
     arbiter_ok arbiter \<and>
     (\<forall>i. i \<in> fmdom' (ab_reservations arbiter) \<longleftrightarrow>
        (\<exists>aid. fmlookup reg aid = Some i) \<or> i \<in> snd ` set hand) \<and>
     (\<forall>aid bid i. fmlookup reg aid = Some i \<longrightarrow> fmlookup reg bid = Some i \<longrightarrow> aid = bid) \<and>
     (\<forall>aid i. fmlookup reg aid = Some i \<longrightarrow> i \<notin> snd ` set hand) \<and>
     distinct (map snd hand) \<and> distinct (map (at_id \<circ> fst) hand) \<and>
     (\<forall>(a, i) \<in> set hand. at_state a = A_Dispatched \<and> fmlookup reg (at_id a) = None)"

definition holders_ok :: "job_db \<Rightarrow> reservation_registry \<Rightarrow> (attempt \<times> reservation_id) list \<Rightarrow> bool" where
  "holders_ok db reg hand \<longleftrightarrow>
     (\<forall>aid i. fmlookup reg aid = Some i \<longrightarrow> active_in db aid) \<and>
     (\<forall>(a, i) \<in> set hand. at_id a \<in> at_id ` set (jd_attempts db))"

definition service_inv :: "dispatch_state \<Rightarrow> bool" where
  "service_inv st \<longleftrightarrow>
     job_inv (ds_jobs st) \<and> books_ok (ds_registry st) (ds_in_hand st) (ds_arbiter st) \<and>
     holders_ok (ds_jobs st) (ds_registry st) (ds_in_hand st)"

lemma books_okD:
  assumes "books_ok reg hand arbiter"
  shows "arbiter_ok arbiter"
    "i \<in> fmdom' (ab_reservations arbiter) \<longleftrightarrow> (\<exists>aid. fmlookup reg aid = Some i) \<or> i \<in> snd ` set hand"
    "fmlookup reg aid = Some i \<Longrightarrow> fmlookup reg bid = Some i \<Longrightarrow> aid = bid"
    "fmlookup reg aid = Some i \<Longrightarrow> i \<notin> snd ` set hand"
    "distinct (map snd hand)" "distinct (map (at_id \<circ> fst) hand)"
    "(a, i) \<in> set hand \<Longrightarrow> at_state a = A_Dispatched \<and> fmlookup reg (at_id a) = None"
  using assms unfolding books_ok_def by blast+

lemma books_okI:
  assumes "arbiter_ok arbiter"
    and "\<And>i. i \<in> fmdom' (ab_reservations arbiter) \<longleftrightarrow> (\<exists>aid. fmlookup reg aid = Some i) \<or> i \<in> snd ` set hand"
    and "\<And>aid bid i. fmlookup reg aid = Some i \<Longrightarrow> fmlookup reg bid = Some i \<Longrightarrow> aid = bid"
    and "\<And>aid i. fmlookup reg aid = Some i \<Longrightarrow> i \<notin> snd ` set hand"
    and "distinct (map snd hand)" "distinct (map (at_id \<circ> fst) hand)"
    and "\<And>a i. (a, i) \<in> set hand \<Longrightarrow> at_state a = A_Dispatched \<and> fmlookup reg (at_id a) = None"
  shows "books_ok reg hand arbiter"
  using assms unfolding books_ok_def by blast

lemma books_new: "books_ok fmempty [] (arbiter_new capacities)"
  by (simp add: books_ok_def arbiter_ok_def arbiter_new_def booked_def outstanding_def capacity_of_def
      quantity_or_zero_def)

lemma release_reservations:
  "fmdom' (ab_reservations (arbiter_release arbiter i)) = fmdom' (ab_reservations arbiter) - {i}"
  by (auto simp: arbiter_release_def map_remove_def fmlookup_dom'_iff split: option.split)

lemma acquire_reservations:
  assumes "arbiter_acquire arbiter claims = (arbiter1, Ok i)" "arbiter_ok arbiter"
  shows "fmdom' (ab_reservations arbiter1) = insert i (fmdom' (ab_reservations arbiter))"
    "i \<notin> fmdom' (ab_reservations arbiter)"
proof -
  have "ab_reservations arbiter1 = map_insert i claims (ab_reservations arbiter) \<and> i = ReservationId (ab_next_id arbiter)"
    using assms(1) by (cases rule: acquire_cases [of arbiter claims]) auto
  then show "fmdom' (ab_reservations arbiter1) = insert i (fmdom' (ab_reservations arbiter))"
    "i \<notin> fmdom' (ab_reservations arbiter)"
    using arbiter_okD(3) [OF assms(2)] by (simp_all add: map_insert_def)
qed

lemma books_release_attempt:
  assumes books: "books_ok reg hand arbiter" and "release_attempt reg arbiter aid = (reg1, arbiter1)"
  shows "books_ok reg1 hand arbiter1 \<and> reg1 = map_remove aid reg"
proof (cases "fmlookup reg aid")
  case None
  then have "reg1 = reg" "arbiter1 = arbiter" "map_remove aid reg = reg"
    using assms(2) by (auto simp: release_attempt_def registry_take_def intro: fmap_ext)
  with books show ?thesis by simp
next
  case (Some i)
  then have r: "reg1 = map_remove aid reg" "arbiter1 = arbiter_release arbiter i"
    using assms(2) by (auto simp: release_attempt_def registry_take_def)
  have "books_ok (map_remove aid reg) hand (arbiter_release arbiter i)"
  proof (rule books_okI)
    show "arbiter_ok (arbiter_release arbiter i)" by (rule release_ok [OF books_okD(1) [OF books]])
    show "j \<in> fmdom' (ab_reservations (arbiter_release arbiter i)) \<longleftrightarrow>
        (\<exists>bid. fmlookup (map_remove aid reg) bid = Some j) \<or> j \<in> snd ` set hand" for j
    proof (cases "j = i")
      case True
      then show ?thesis
        using books_okD(4) [OF books Some] books_okD(3) [OF books Some]
        by (auto simp: release_reservations split: if_splits)
    next
      case False
      then have "(\<exists>bid. fmlookup (map_remove aid reg) bid = Some j) \<longleftrightarrow> (\<exists>bid. fmlookup reg bid = Some j)"
        using Some by (intro iff_exI) auto
      with False show ?thesis using books_okD(2) [OF books, of j] by (simp add: release_reservations)
    qed
    show "bid = cid" if "fmlookup (map_remove aid reg) bid = Some j" "fmlookup (map_remove aid reg) cid = Some j"
      for bid cid j
      using that books_okD(3) [OF books, of bid j cid] by (auto split: if_splits)
    show "j \<notin> snd ` set hand" if "fmlookup (map_remove aid reg) bid = Some j" for bid j
      using that books_okD(4) [OF books, of bid j] by (auto split: if_splits)
  qed (use books_okD(5-7) [OF books] in auto)
  with r show ?thesis by simp
qed

lemma books_acquire:
  assumes books: "books_ok reg hand arbiter" and acq: "arbiter_acquire arbiter claims = (arbiter1, Ok i)"
    and ids: "ab_next_id arbiter \<noteq> - 1"
    and fresh: "fmlookup reg (at_id a) = None" "at_id a \<notin> (at_id \<circ> fst) ` set hand" "at_state a = A_Dispatched"
  shows "books_ok reg ((a, i) # hand) arbiter1"
proof -
  note acquired = acquire_reservations [OF acq books_okD(1) [OF books]]
  have new: "i \<notin> snd ` set hand" "fmlookup reg aid \<noteq> Some i" for aid
    using acquired(2) books_okD(2) [OF books] by auto
  show ?thesis
  proof (rule books_okI)
    show "arbiter_ok arbiter1" using acquire_ok [OF books_okD(1) [OF books] ids, of claims] acq by simp
    show "j \<in> fmdom' (ab_reservations arbiter1) \<longleftrightarrow>
        (\<exists>bid. fmlookup reg bid = Some j) \<or> j \<in> snd ` set ((a, i) # hand)" for j
      using books_okD(2) [OF books, of j] by (auto simp: acquired(1))
    show "j \<notin> snd ` set ((a, i) # hand)" if "fmlookup reg bid = Some j" for bid j
      using that books_okD(4) [OF books that] new(2) [of bid] by auto
  qed (use books_okD(3,5-7) [OF books] new(1) fresh in auto)
qed

lemma books_acquire_release:
  assumes books: "books_ok reg hand arbiter" and acq: "arbiter_acquire arbiter claims = (arbiter1, Ok i)"
    and ids: "ab_next_id arbiter \<noteq> - 1"
  shows "books_ok reg hand (arbiter_release arbiter1 i)"
proof -
  have "arbiter_ok arbiter1" using acquire_ok [OF books_okD(1) [OF books] ids, of claims] acq by simp
  then show ?thesis
    using release_ok release_after_acquire(2) [OF books_okD(1) [OF books] acq] books_okD [OF books]
    by (intro books_okI) simp_all
qed

lemma books_register:
  assumes books: "books_ok reg hand arbiter" and hand: "(a, i) \<in> set hand"
  shows "books_ok (map_insert (at_id a) i reg) (filter (\<lambda>(b, _). at_id b \<noteq> at_id a) hand) arbiter"
proof -
  let ?rest = "filter (\<lambda>(b, _). at_id b \<noteq> at_id a) hand"
  have only: "b = a \<and> j = i" if "(b, j) \<in> set hand" "at_id b = at_id a" for b j
    using inj_onD [OF conjunct2 [OF books_okD(6) [OF books, unfolded distinct_map]] _ that(1) hand] that(2) by simp
  have one: "b = a" if "(b, i) \<in> set hand" for b
    using inj_onD [OF conjunct2 [OF books_okD(5) [OF books, unfolded distinct_map]] _ that hand] by simp
  have rest: "snd ` set ?rest = snd ` set hand - {i}"
  proof (intro equalityI subsetI)
    fix j assume "j \<in> snd ` set ?rest"
    then obtain b where b: "(b, j) \<in> set hand" "at_id b \<noteq> at_id a" by auto
    then have "j \<noteq> i" using one by blast
    with b(1) show "j \<in> snd ` set hand - {i}" by force
  next
    fix j assume "j \<in> snd ` set hand - {i}"
    then obtain b where b: "(b, j) \<in> set hand" "j \<noteq> i" by auto
    then have "at_id b \<noteq> at_id a" using only by blast
    with b(1) show "j \<in> snd ` set ?rest" by force
  qed
  note none = books_okD(7) [OF books hand, THEN conjunct2]
  show ?thesis
  proof (rule books_okI [OF books_okD(1) [OF books]])
    show "j \<in> fmdom' (ab_reservations arbiter) \<longleftrightarrow>
        (\<exists>bid. fmlookup (map_insert (at_id a) i reg) bid = Some j) \<or> j \<in> snd ` set ?rest" for j
    proof (cases "j = i")
      case True
      then show ?thesis
        using books_okD(2) [OF books, of i] imageI [OF hand, of snd] by (auto intro!: exI [of _ "at_id a"])
    next
      case False
      then have "(\<exists>bid. fmlookup (map_insert (at_id a) i reg) bid = Some j) \<longleftrightarrow> (\<exists>bid. fmlookup reg bid = Some j)"
        using none by (intro iff_exI) auto
      with False show ?thesis using books_okD(2) [OF books, of j] unfolding rest by simp
    qed
    show "j \<notin> snd ` set ?rest" if "fmlookup (map_insert (at_id a) i reg) aid = Some j" for aid j
      using that books_okD(4) [OF books, of aid j] unfolding rest by (auto split: if_splits)
    show "aid = bid" if "fmlookup (map_insert (at_id a) i reg) aid = Some j"
      "fmlookup (map_insert (at_id a) i reg) bid = Some j" for aid bid j
      using that books_okD(3) [OF books, of aid j bid] books_okD(4) [OF books, of _ i] imageI [OF hand, of snd]
      by (simp split: if_splits) blast+
    show "distinct (map snd ?rest)" "distinct (map (at_id \<circ> fst) ?rest)"
      using books_okD(5,6) [OF books] by (auto simp: distinct_map intro: inj_on_subset)
    show "at_state b = A_Dispatched \<and> fmlookup (map_insert (at_id a) i reg) (at_id b) = None"
      if "(b, j) \<in> set ?rest" for b j
      using that books_okD(7) [OF books, of b j] by simp
  qed
qed

section \<open>Active Attempts\<close>

text \<open>No transaction ends an active Attempt other than one it reports as final.\<close>

definition keeps_active :: "attempt_id set \<Rightarrow> job_db \<Rightarrow> job_db \<Rightarrow> bool" where
  "keeps_active X db db' \<longleftrightarrow>
     (\<forall>aid. active_in db aid \<longrightarrow> aid \<notin> X \<longrightarrow> active_in db' aid) \<and>
     at_id ` set (jd_attempts db) \<subseteq> at_id ` set (jd_attempts db')"

definition final_attempts :: "'e + action_evidence_applied option \<Rightarrow> attempt_id set" where
  "final_attempts result =
     (case result of
        Inr (Some ap) \<Rightarrow> if ap_terminal ap then {at_id (ap_attempt ap)} else {}
      | _ \<Rightarrow> {})"

lemma active_in_iff: "active_in db aid \<longleftrightarrow> (\<exists>a \<in> set (jd_attempts db). at_id a = aid \<and> attempt_active (at_state a))"
  by (auto simp: active_in_def list_ex_iff)

lemma keeps_activeI:
  assumes "\<And>a. a \<in> set (jd_attempts db) \<Longrightarrow> \<exists>b \<in> set (jd_attempts db'). at_id b = at_id a \<and>
      (attempt_active (at_state a) \<longrightarrow> at_id a \<notin> X \<longrightarrow> attempt_active (at_state b))"
  shows "keeps_active X db db'"
  unfolding keeps_active_def
proof (intro conjI allI impI subsetI)
  fix aid assume "active_in db aid" "aid \<notin> X"
  then obtain a where "a \<in> set (jd_attempts db)" "at_id a = aid" "attempt_active (at_state a)"
    by (auto simp: active_in_iff)
  with assms [of a] \<open>aid \<notin> X\<close> show "active_in db' aid" by (auto simp: active_in_iff)
next
  fix aid assume "aid \<in> at_id ` set (jd_attempts db)"
  then obtain a where "a \<in> set (jd_attempts db)" "at_id a = aid" by auto
  with assms [of a] show "aid \<in> at_id ` set (jd_attempts db')" by (metis imageI)
qed

lemma keeps_active_attempts: "set (jd_attempts db) \<subseteq> set (jd_attempts db') \<Longrightarrow> keeps_active X db db'"
  by (auto simp: keeps_active_def active_in_iff)

lemma keeps_active_upd:
  assumes "jd_attempts db' = upd_attempt aid st (jd_attempts db)" and "attempt_active st \<or> aid \<in> X"
  shows "keeps_active X db db'"
proof (rule keeps_activeI)
  fix a assume "a \<in> set (jd_attempts db)"
  with assms show "\<exists>b \<in> set (jd_attempts db'). at_id b = at_id a \<and>
      (attempt_active (at_state a) \<longrightarrow> at_id a \<notin> X \<longrightarrow> attempt_active (at_state b))"
    by (intro bexI [of _ "if at_id a = aid then a\<lparr> at_state := st \<rparr> else a"]) (auto simp: upd_attempt_def)
qed

lemma keeps_active_trans: "keeps_active X a b \<Longrightarrow> keeps_active X b c \<Longrightarrow> keeps_active X a c"
  unfolding keeps_active_def by blast

lemma holders_okD:
  assumes "holders_ok db reg hand"
  shows "fmlookup reg aid = Some i \<Longrightarrow> active_in db aid"
    "(a, i) \<in> set hand \<Longrightarrow> at_id a \<in> at_id ` set (jd_attempts db)"
  using assms by (auto simp: holders_ok_def)

lemma holders_okI:
  assumes "\<And>aid i. fmlookup reg aid = Some i \<Longrightarrow> active_in db aid"
    and "\<And>a i. (a, i) \<in> set hand \<Longrightarrow> at_id a \<in> at_id ` set (jd_attempts db)"
  shows "holders_ok db reg hand"
  using assms by (auto simp: holders_ok_def)

lemma holders_keep:
  assumes "holders_ok db reg hand" "keeps_active X db db'"
    and "\<And>aid i. fmlookup reg' aid = Some i \<Longrightarrow> fmlookup reg aid = Some i \<and> aid \<notin> X"
  shows "holders_ok db' reg' hand"
proof (rule holders_okI)
  show "active_in db' aid" if "fmlookup reg' aid = Some i" for aid i
    using assms(2) assms(3) [OF that] holders_okD(1) [OF assms(1), of aid i] by (simp add: keeps_active_def)
  show "at_id a \<in> at_id ` set (jd_attempts db')" if "(a, i) \<in> set hand" for a i
    using assms(2) holders_okD(2) [OF assms(1) that] unfolding keeps_active_def by (blast dest: subsetD)
qed

lemma commit_applied_active:
  assumes "a \<in> set (jd_attempts db)" and ap: "ap_attempt ap = a\<lparr> at_state := st \<rparr>"
    and st: "attempt_active st \<or> ap_terminal ap"
  shows "keeps_active (final_attempts (snd (commit_applied db u actor job ap now detail))) db
    (fst (commit_applied db u actor job ap now detail))"
proof (cases rule: commit_applied_cases [of db u actor job ap now detail])
  case unchanged
  then show ?thesis by (simp add: keeps_active_attempts)
next
  case (persisted db1)
  show ?thesis
  proof (cases "snd (commit_applied db u actor job ap now detail) = Ok (Some ap)")
    case True
    show ?thesis
      by (rule keeps_active_upd [where aid = "at_id a" and st = st])
        (use persist_applied_tables(1) [OF persisted(1)] persisted(3) ap st True in \<open>auto simp: final_attempts_def\<close>)
  next
    case False
    then have "fst (commit_applied db u actor job ap now detail) = db"
      by (auto simp: commit_applied_def split: option.splits)
    then show ?thesis by (simp add: keeps_active_attempts)
  qed
qed

lemma evidence_txs_active:
  assumes ok: "job_tables_ok db"
  defines "kept \<equiv> \<lambda>tx :: action_evidence_applied option job_tx. keeps_active (final_attempts (snd tx)) db (fst tx)"
  shows "kept (apply_action_evidence_tx db u act ep ev now detail)"
    "kept (apply_status_report_tx db u act ep sr now detail)"
    "kept (apply_cancel_ack_tx db u act ep ca now detail)"
proof -
  have same: "kept (db, r)" for r by (simp add: kept_def keeps_active_attempts)
  have commit: "kept (commit_applied db u System j ap now detail)"
    if "locked_facts db act ep = Ok (j, s, a)" "\<exists>st. ap_attempt ap = a\<lparr> at_state := st \<rparr> \<and> (attempt_active st \<or> ap_terminal ap)"
    for j s a ap
    using commit_applied_active [OF locked_facts_OkD(1) [OF that(1) ok]] that(2) unfolding kept_def by blast
  have applied: "\<exists>st. ap_attempt ap = a\<lparr> at_state := st \<rparr> \<and> (attempt_active st \<or> ap_terminal ap)"
    if "applied_ok j s a ap" for j s a ap
    using that by (auto simp: applied_ok_def)
  have cancel: "\<exists>st. ap_attempt ap = a\<lparr> at_state := st \<rparr> \<and> (attempt_active st \<or> ap_terminal ap)"
    if "apply_cancel_ack u j s a ca now = CancelAckApplied ap" for j s a ap
  proof (cases "attempt_active (at_state a)")
    case True
    then show ?thesis using applied cancel_ack_ok [OF that] by blast
  next
    case False
    then show ?thesis
      using cancel_ack_terminal_attempt [OF that]
      by (intro exI [of _ "at_state a"]) (simp add: complete_cancellation_now_def)
  qed
  show "kept (apply_action_evidence_tx db u act ep ev now detail)"
    using commit applied [OF action_evidence_ok] same
    by (fastforce simp: apply_action_evidence_tx_def split: sum.split action_evidence_outcome.split)
  show "kept (apply_status_report_tx db u act ep sr now detail)"
    using commit applied [OF status_report_ok] same
    by (fastforce simp: apply_status_report_tx_def split: sum.split reconciliation_outcome.split)
  show "kept (apply_cancel_ack_tx db u act ep ca now detail)"
    using commit cancel same
    by (fastforce simp: apply_cancel_ack_tx_def split: sum.split cancel_ack_outcome.split)
qed

lemma close_indeterminate_active:
  assumes ok: "job_tables_ok db"
  shows "keeps_active (final_attempts (snd (close_indeterminate_tx db rows u operator jid now detail))) db
    (fst (close_indeterminate_tx db rows u operator jid now detail))"
proof -
  have commit: "keeps_active (final_attempts (snd (commit_applied db u operator j ap now detail))) db
      (fst (commit_applied db u operator j ap now detail))"
    if "find_attempt db aid = Some a" "close_indeterminate u j s a now = CloseApplied ap" for aid a j s ap
  proof -
    have "a \<in> set (jd_attempts db)" using that(1) by (simp add: find_attempt_Some_iff [OF ok])
    moreover have "\<exists>st. ap_attempt ap = a\<lparr> at_state := st \<rparr> \<and> (attempt_active st \<or> ap_terminal ap)"
      using conjunct1 [OF close_indeterminate_ok [OF that(2)]] by (auto simp: applied_ok_def)
    ultimately show ?thesis using commit_applied_active by blast
  qed
  have same: "keeps_active X db db" for X by (simp add: keeps_active_attempts)
  show ?thesis
    using commit same
    by (auto simp: close_indeterminate_tx_def split: list.split option.split close_indeterminate_outcome.split)
qed

lemma mark_one_active:
  assumes "mark_awaiting_reconciliation a = Some b"
  shows "keeps_active X db (update_attempt_state (at_id b) (at_state b) db)"
  by (rule keeps_active_upd [where aid = "at_id b" and st = "at_state b"])
    (use mark_awaiting_SomeD [OF assms] in \<open>auto simp: update_attempt_state_def upd_attempt_def attempt_active_def\<close>)

lemma reconcile_attempts_active: "keeps_active X db (fst (reconcile_attempts aids db))"
proof (induction aids arbitrary: db)
  case (Cons aid aids)
  show ?case
    using Cons mark_one_active keeps_active_trans
    by (auto split: option.split prod.splits Option.bind_splits) (metis fst_conv)
qed (simp add: keeps_active_attempts)

lemma plain_op_active:
  assumes "plain_op op"
  shows "keeps_active X db (job_store_step db op)"
proof (cases op)
  case (OpRequestCancellation rows u operator jid now detail)
  have "jd_attempts (fst r) = jd_attempts db"
    if "request_cancellation_pass db rows u operator jid now detail = PassDone r" for r
    using that
    by (auto simp: request_cancellation_pass_def decide_cancellation_def Let_def update_job_state_def
        set_job_state_frame insert_audit_record_def insert_events_def
        split: list.splits option.splits if_splits sum.splits cancellation_request_error.splits
          cancellation_request_outcome.splits Option.bind_splits)
  then show ?thesis
    using OpRequestCancellation by (auto intro!: keeps_active_attempts split: cancellation_pass.split)
next
  case (OpMarkUncertain rows act)
  then show ?thesis
    using mark_one_active
    by (auto simp: mark_endpoint_uncertain_tx_def keeps_active_attempts split: list.split option.split)
next
  case OpReconcileOnStartup
  then show ?thesis by (simp add: reconcile_on_startup_tx_def reconcile_attempts_active)
next
  case (OpCreateWorkflow u identity ep n)
  then show ?thesis
    by (auto simp: create_workflow_tx_def insert_workflow_def intro!: keeps_active_attempts
        split: option.split sum.split)
next
  case (OpAdmitJob u jid now)
  then show ?thesis
    by (auto simp: admit_job_tx_def update_job_state_def insert_events_def set_job_state_frame
        intro!: keeps_active_attempts split: option.split sum.split job_admission_error.split)
qed (use assms in \<open>auto simp: authorize_intent_tx_def satisfy_preconditions_tx_def create_transfer_tx_def
    update_step_def intro!: keeps_active_attempts
    split: option.split sum.split destructive_intent_error.split job_step_eligibility_error.split\<close>)

section \<open>Preservation\<close>

lemma service_invD:
  assumes "service_inv st"
  shows "job_inv (ds_jobs st)" "books_ok (ds_registry st) (ds_in_hand st) (ds_arbiter st)"
    "holders_ok (ds_jobs st) (ds_registry st) (ds_in_hand st)"
  using assms by (simp_all add: service_inv_def)

text \<open>A step that releases the reservation of the one Attempt it may have ended.\<close>

lemma release_step_inv:
  assumes inv: "service_inv st" and db: "job_inv db" "keeps_active X (ds_jobs st) db" and X: "X \<subseteq> {aid}"
    and rel: "release_attempt (ds_registry st) (ds_arbiter st) aid = (reg, arbiter)"
  shows "service_inv (st\<lparr> ds_jobs := db, ds_registry := reg, ds_arbiter := arbiter \<rparr>)"
proof -
  note r = books_release_attempt [OF service_invD(2) [OF inv] rel]
  have "holders_ok db reg (ds_in_hand st)"
    by (rule holders_keep [OF service_invD(3) [OF inv] db(2)]) (use r X in \<open>auto split: if_splits\<close>)
  then show ?thesis using conjunct1 [OF r] db(1) by (simp add: service_inv_def)
qed

lemma quiet_step_inv:
  assumes "service_inv st" "job_inv db" "keeps_active {} (ds_jobs st) db"
  shows "service_inv (st\<lparr> ds_jobs := db \<rparr>)"
  using assms holders_keep [OF service_invD(3) [OF assms(1)] assms(3)] by (simp add: service_inv_def)

lemma quiet_frame: "st\<lparr> ds_jobs := db, ds_registry := ds_registry st, ds_arbiter := ds_arbiter st \<rparr> = st\<lparr> ds_jobs := db \<rparr>"
  by simp

lemma evidence_service_inv:
  assumes inv: "service_inv st" and tx: "job_inv (fst tx)" "keeps_active (final_attempts (snd tx)) (ds_jobs st) (fst tx)"
  shows "service_inv (evidence_service st tx)"
proof (cases "final_attempts (snd tx) = {}")
  case True
  then have "release_terminal (ds_registry st) (ds_arbiter st) (snd tx) = (ds_registry st, ds_arbiter st)"
    by (auto simp: release_terminal_def final_attempts_def split: sum.splits option.splits if_splits)
  then show ?thesis
    using quiet_step_inv [OF inv tx(1)] tx(2) True by (simp add: evidence_service_def)
next
  case False
  then obtain ap where ap: "snd tx = Ok (Some ap)" "ap_terminal ap"
    by (auto simp: final_attempts_def split: sum.splits option.splits if_splits)
  obtain reg arbiter where r: "release_attempt (ds_registry st) (ds_arbiter st) (at_id (ap_attempt ap)) = (reg, arbiter)"
    by (cases "release_attempt (ds_registry st) (ds_arbiter st) (at_id (ap_attempt ap))")
  show ?thesis
    using release_step_inv [OF inv tx _ r] ap r
    by (simp add: evidence_service_def release_terminal_def final_attempts_def)
qed

lemma close_service_inv:
  assumes inv: "service_inv st"
    and conf: "op_conforms (ds_jobs st) (OpCloseIndeterminate rows u operator jid now detail)"
  shows "service_inv (service_close_indeterminate st rows u operator jid now detail)"
proof -
  let ?tx = "close_indeterminate_tx (ds_jobs st) rows u operator jid now detail"
  have db: "job_inv (fst ?tx)"
    using close_indeterminate_tx_inv [OF service_invD(1) [OF inv]] conf by simp
  note active = close_indeterminate_active [OF job_invD(1) [OF service_invD(1) [OF inv]], of rows u operator jid now detail]
  show ?thesis
  proof (cases "\<exists>ap. snd ?tx = Ok (Some ap)")
    case True
    then obtain ap where ap: "snd ?tx = Ok (Some ap)" by blast
    obtain reg arbiter where r: "release_attempt (ds_registry st) (ds_arbiter st) (at_id (ap_attempt ap)) = (reg, arbiter)"
      by (cases "release_attempt (ds_registry st) (ds_arbiter st) (at_id (ap_attempt ap))")
    have "final_attempts (snd ?tx) \<subseteq> {at_id (ap_attempt ap)}" using ap by (simp add: final_attempts_def)
    from release_step_inv [OF inv db active this r] ap r show ?thesis
      by (simp add: service_close_indeterminate_def release_closed_def Let_def)
  next
    case False
    then have "release_closed (ds_registry st) (ds_arbiter st) (snd ?tx) = (ds_registry st, ds_arbiter st)"
      "final_attempts (snd ?tx) = {}"
      by (auto simp: release_closed_def final_attempts_def split: sum.splits option.splits)
    then show ?thesis
      using quiet_step_inv [OF inv db] active by (simp add: service_close_indeterminate_def Let_def)
  qed
qed

text \<open>A committed dispatch inserts one Attempt that no row had before.\<close>

lemma insert_attempt_fresh:
  assumes "insert_attempt a db = Some db'"
  shows "jd_attempts db' = jd_attempts db @ [a]" "at_id a \<notin> at_id ` set (jd_attempts db)"
  using assms by (auto simp: insert_attempt_def list_ex_iff split: if_splits)

lemma committed_attempt_state:
  "evaluate_final_destructive_dispatch u i = Ok out \<Longrightarrow> at_state (fo_attempt out) = A_Dispatched"
  "evaluate_transfer_dispatch u t = Ok out' \<Longrightarrow> at_state (to_attempt out') = A_Dispatched"
  by (auto simp: final_dispatch_Ok_iff transfer_dispatch_Ok_iff dispatched_attempt_def)

lemma insert_audit_attempts: "insert_audit_record r db = Some db' \<Longrightarrow> jd_attempts db' = jd_attempts db"
  by (auto simp: insert_audit_record_def split: if_splits)

lemma persist_binding_attempts: "persist_attempt_binding tid aid db = Some db' \<Longrightarrow> jd_attempts db' = jd_attempts db"
  by (auto simp: persist_attempt_binding_def split: if_splits option.splits)

definition adds_attempt :: "job_db \<Rightarrow> attempt \<Rightarrow> job_db \<Rightarrow> bool" where
  "adds_attempt db a db' \<longleftrightarrow> at_state a = A_Dispatched \<and> at_id a \<notin> at_id ` set (jd_attempts db) \<and>
     (\<exists>b. at_id b = at_id a \<and> jd_attempts db' = jd_attempts db @ [b])"

lemma destructive_tx_Ok:
  assumes "commit_destructive_dispatch_tx db u jid sid facts = (db', Ok out)"
  shows "adds_attempt db (fo_attempt out) db'"
proof -
  from assms obtain i db1 db2 where tx: "evaluate_final_destructive_dispatch u i = Ok out"
      "insert_attempt ((fo_attempt out)\<lparr> at_job_step_id := sid \<rparr>) db1 = Some db2" "jd_attempts db1 = jd_attempts db"
      "jd_attempts db' = jd_attempts db2"
    by (auto simp: commit_destructive_dispatch_tx_def Let_def update_step_def
        split: option.splits sum.splits Option.bind_splits dest!: insert_audit_attempts)
  show ?thesis
    using committed_attempt_state(1) [OF tx(1)] insert_attempt_fresh [OF tx(2)] tx(3,4) by (auto simp: adds_attempt_def)
qed

lemma transfer_tx_Ok:
  assumes "commit_transfer_dispatch_tx db u jid sid tid = (db', Ok out)"
  shows "adds_attempt db (to_attempt out) db'"
proof -
  from assms obtain i db1 db2 where tx: "evaluate_transfer_dispatch u i = Ok out"
      "insert_attempt ((to_attempt out)\<lparr> at_job_step_id := sid \<rparr>) db1 = Some db2" "jd_attempts db1 = jd_attempts db"
      "jd_attempts db' = jd_attempts db2"
    by (auto simp: commit_transfer_dispatch_tx_def Let_def update_step_def
        split: option.splits sum.splits Option.bind_splits dest!: persist_binding_attempts)
  show ?thesis
    using committed_attempt_state(2) [OF tx(1)] insert_attempt_fresh [OF tx(2)] tx(3,4) by (auto simp: adds_attempt_def)
qed

lemma tx_Err_attempts:
  "commit_destructive_dispatch_tx db u jid sid facts = (db', Err e) \<Longrightarrow> jd_attempts db' = jd_attempts db"
  "commit_transfer_dispatch_tx db u jid sid tid = (db', Err e) \<Longrightarrow> jd_attempts db' = jd_attempts db"
  by (auto simp: commit_destructive_dispatch_tx_def commit_transfer_dispatch_tx_def Let_def update_step_def
      split: option.splits sum.splits)

text \<open>Both dispatch services are instances of one step: acquire, commit or give back.\<close>

lemma dispatch_commit_inv:
  assumes inv: "service_inv st" and acq: "arbiter_acquire (ds_arbiter st) claims = (arbiter, Ok i)"
    and ids: "ab_next_id (ds_arbiter st) \<noteq> - 1" and db: "job_inv db" "adds_attempt (ds_jobs st) a db"
  shows "service_inv (st\<lparr> ds_jobs := db, ds_arbiter := arbiter, ds_in_hand := (a, i) # ds_in_hand st \<rparr>)"
proof -
  from db(2) obtain b where b: "at_id b = at_id a" "jd_attempts db = jd_attempts (ds_jobs st) @ [b]"
      "at_id a \<notin> at_id ` set (jd_attempts (ds_jobs st))" "at_state a = A_Dispatched"
    by (auto simp: adds_attempt_def)
  note holders = service_invD(3) [OF inv]
  have unknown: "fmlookup (ds_registry st) (at_id a) = None"
  proof (cases "fmlookup (ds_registry st) (at_id a)")
    case (Some j)
    then have "active_in (ds_jobs st) (at_id a)" by (rule holders_okD(1) [OF holders])
    with b(3) have False by (metis active_in_iff imageI)
    then show ?thesis ..
  qed
  have new: "at_id a \<notin> (at_id \<circ> fst) ` set (ds_in_hand st)"
    using holders_okD(2) [OF holders] b(3) by force
  have "keeps_active {} (ds_jobs st) db" by (rule keeps_active_attempts) (auto simp: b(2))
  then have "holders_ok db (ds_registry st) (ds_in_hand st)" by (rule holders_keep [OF holders]) simp
  then have "holders_ok db (ds_registry st) ((a, i) # ds_in_hand st)"
    using b(1,2) by (auto simp: holders_ok_def)
  then show ?thesis
    using books_acquire [OF service_invD(2) [OF inv] acq ids unknown new b(4)] db(1) by (simp add: service_inv_def)
qed

lemma dispatch_refused_inv:
  assumes inv: "service_inv st" and acq: "arbiter_acquire (ds_arbiter st) claims = (arbiter, Ok i)"
    and ids: "ab_next_id (ds_arbiter st) \<noteq> - 1" and db: "job_inv db" "jd_attempts db = jd_attempts (ds_jobs st)"
  shows "service_inv (st\<lparr> ds_jobs := db, ds_arbiter := arbiter_release arbiter i \<rparr>)"
proof -
  have "keeps_active {} (ds_jobs st) db" by (rule keeps_active_attempts) (simp add: db(2))
  then have "holders_ok db (ds_registry st) (ds_in_hand st)" by (rule holders_keep [OF service_invD(3) [OF inv]]) simp
  then show ?thesis
    using books_acquire_release [OF service_invD(2) [OF inv] acq ids] db(1) by (simp add: service_inv_def)
qed

lemma acquire_refused_same: "arbiter_acquire s cs = (s', Err e) \<Longrightarrow> s' = s"
  by (cases rule: acquire_cases [of s cs]) auto

lemma destructive_service_inv:
  assumes inv: "service_inv st" and ids: "ab_next_id (ds_arbiter st) \<noteq> - 1"
  shows "service_inv (service_step st (SvcDestructive u jid sid facts claims))"
proof -
  obtain arbiter r where acq: "arbiter_acquire (ds_arbiter st) claims = (arbiter, r)" by fastforce
  obtain db t where tx: "commit_destructive_dispatch_tx (ds_jobs st) u jid sid facts = (db, t)" by fastforce
  have db: "job_inv db"
    using destructive_dispatch_tx_inv [OF service_invD(1) [OF inv], of u jid sid facts] tx by simp
  show ?thesis
  proof (cases r)
    case (Inl e)
    then have "arbiter = ds_arbiter st" using acquire_refused_same acq by blast
    then show ?thesis
      using Inl inv acq by (cases e) (simp add: service_destructive_dispatch_def)
  next
    case (Inr i)
    note acq' = acq [unfolded Inr]
    show ?thesis
    proof (cases t)
      case (Inl e)
      note attempts = tx_Err_attempts(1) [OF tx [unfolded Inl]]
      show ?thesis
        using dispatch_refused_inv [OF inv acq' ids db attempts] acq' tx Inl
        by (cases e) (simp_all add: service_destructive_dispatch_def)
    next
      case (Inr out)
      show ?thesis
        using dispatch_commit_inv [OF inv acq' ids db destructive_tx_Ok [OF tx [unfolded Inr]]] acq' tx Inr
        by (simp add: service_destructive_dispatch_def)
    qed
  qed
qed

lemma transfer_service_inv:
  assumes inv: "service_inv st" and ids: "ab_next_id (ds_arbiter st) \<noteq> - 1"
  shows "service_inv (service_step st (SvcTransfer u jid sid tid claims))"
proof -
  obtain arbiter r where acq: "arbiter_acquire (ds_arbiter st) claims = (arbiter, r)" by fastforce
  obtain db t where tx: "commit_transfer_dispatch_tx (ds_jobs st) u jid sid tid = (db, t)" by fastforce
  have db: "job_inv db"
    using transfer_dispatch_tx_inv [OF service_invD(1) [OF inv], of u jid sid tid] tx by simp
  show ?thesis
  proof (cases r)
    case (Inl e)
    then have "arbiter = ds_arbiter st" using acquire_refused_same acq by blast
    then show ?thesis
      using Inl inv acq by (cases e) (simp add: service_transfer_dispatch_def)
  next
    case (Inr i)
    note acq' = acq [unfolded Inr]
    show ?thesis
    proof (cases t)
      case (Inl e)
      note attempts = tx_Err_attempts(2) [OF tx [unfolded Inl]]
      show ?thesis
        using dispatch_refused_inv [OF inv acq' ids db attempts] acq' tx Inl
        by (cases e) (simp_all add: service_transfer_dispatch_def)
    next
      case (Inr out)
      show ?thesis
        using dispatch_commit_inv [OF inv acq' ids db transfer_tx_Ok [OF tx [unfolded Inr]]] acq' tx Inr
        by (simp add: service_transfer_dispatch_def)
    qed
  qed
qed

lemma send_inv:
  assumes inv: "service_inv st" and conf: "service_conforms st (SvcSend transport ep aid msg)"
  shows "service_inv (service_step st (SvcSend transport ep aid msg))"
proof (cases "find (\<lambda>(a, _). at_id a = aid) (ds_in_hand st)")
  case (Some ai)
  obtain a i where ai: "ai = (a, i)" by (cases ai)
  have hand: "(a, i) \<in> set (ds_in_hand st)" "at_id a = aid"
    using Some ai by (auto simp: find_Some_iff in_set_conv_nth)
  let ?rest = "filter (\<lambda>(b, _). at_id b \<noteq> at_id a) (ds_in_hand st)"
  note held = books_okD(7) [OF service_invD(2) [OF inv] hand(1)]
  have reg: "fst (dispatch_message transport (ds_registry st) ep a i msg) = map_insert (at_id a) i (ds_registry st)"
    using held by (simp add: dispatch_message_def registry_register_def split: option.split)
  have "active_in (ds_jobs st) (at_id a)" using conf hand by (auto simp: list_all_iff)
  then have "holders_ok (ds_jobs st) (map_insert (at_id a) i (ds_registry st)) ?rest"
    using service_invD(3) [OF inv] by (auto simp: holders_ok_def)
  then show ?thesis
    using books_register [OF service_invD(2) [OF inv] hand(1)] service_invD(1) [OF inv] Some ai reg hand(2)
    by (simp add: service_inv_def)
qed (use inv in simp)

lemma restart_inv:
  assumes "service_inv st"
  shows "service_inv (service_step st (SvcRestart capacities))"
  using reconcile_on_startup_inv [OF service_invD(1) [OF assms]] books_new [of capacities]
  by (simp add: service_inv_def holders_ok_def)

lemma service_step_inv:
  assumes inv: "service_inv st" and conf: "service_conforms st op"
  shows "service_inv (service_step st op)"
proof -
  note jobs = service_invD(1) [OF inv]
  note tables = job_invD(1) [OF jobs]
  show ?thesis
  proof (cases op)
    case (SvcJob jop)
    then show ?thesis
      using quiet_step_inv [OF inv job_store_step_inv [OF jobs] plain_op_active] conf by simp
  next
    case (SvcActionEvidence u act ep ev now detail)
    then show ?thesis
      using evidence_service_inv [OF inv action_evidence_tx_inv [OF jobs] evidence_txs_active(1) [OF tables]]
      by (simp add: service_apply_action_evidence_def)
  next
    case (SvcCancelAck u act ep ev now detail)
    then show ?thesis
      using evidence_service_inv [OF inv cancel_ack_tx_inv [OF jobs] evidence_txs_active(3) [OF tables]] conf
      by (simp add: service_apply_cancel_ack_def)
  next
    case (SvcStatusReport u act ep ev now detail)
    then show ?thesis
      using evidence_service_inv [OF inv status_report_tx_inv [OF jobs] evidence_txs_active(2) [OF tables]]
      by (simp add: service_apply_status_report_def)
  next
    case (SvcClose rows u operator jid now detail)
    then show ?thesis using close_service_inv [OF inv] conf by simp
  next
    case (SvcDestructive u jid sid facts claims)
    then show ?thesis using destructive_service_inv [OF inv] conf by simp
  next
    case (SvcTransfer u jid sid tid claims)
    then show ?thesis using transfer_service_inv [OF inv] conf by simp
  next
    case (SvcSend transport ep aid msg)
    then show ?thesis using send_inv [OF inv] conf by blast
  next
    case (SvcRestart capacities)
    then show ?thesis using restart_inv [OF inv] by simp
  qed
qed

inductive service_moves :: "dispatch_state \<Rightarrow> dispatch_state \<Rightarrow> bool" where
  service_moves_op: "service_conforms st op \<Longrightarrow> service_moves st (service_step st op)"

interpretation service_machine: invariant_machine "\<lambda>st. \<exists>capacities. st = service_boot capacities" service_moves service_inv
proof
  fix s assume "\<exists>capacities. s = service_boot capacities"
  then show "service_inv s"
    using books_new job_inv_empty by (auto simp: service_inv_def service_boot_def holders_ok_def)
next
  fix s t assume "service_inv s" "service_moves s t"
  then show "service_inv t" by (auto elim: service_moves.cases intro: service_step_inv)
qed

lemma service_run_simps [simp]:
  "service_run st [] = st" "service_run st (op # ops) = service_run (service_step st op) ops"
  by (simp_all add: service_run_def)

lemma service_run_moves: "service_run_conforms st ops \<Longrightarrow> service_moves\<^sup>*\<^sup>* st (service_run st ops)"
  by (induction ops arbitrary: st) (auto intro: converse_rtranclp_into_rtranclp service_moves_op)

lemma service_run_inv: "service_run_conforms st ops \<Longrightarrow> service_inv st \<Longrightarrow> service_inv (service_run st ops)"
  by (rule service_machine.inv_run [OF service_run_moves])

end
