(* ===== verification/Dispatch_Correct.thy ===== *)
theory Dispatch_Correct
  imports Dispatch_Service Job_Correct
begin



section \<open>A sample run\<close>








section \<open>Resources\<close>



end
