(* ===== verification/Worker_Messages.thy ===== *)
theory Worker_Messages
  imports Bamep_Prelude
begin

text \<open>
  The protocol between the server and its data-plane Worker, \<open>src/crates/worker-protocol/src\<close>: the
  envelope, the messages with the constructors and the shape rules of \<open>messages.rs\<close>, the
  classification of received text in \<open>codec.rs\<close> and the length-prefixed frames of \<open>framing.rs\<close>.

  What the \<open>uuid\<close> crate says about an identifier and what \<open>serde_json\<close> does between text and
  messages are arguments. A stream is the bytes that will still arrive and how it ends. A
  constructor takes the identifier its envelope draws.

  The lemmas show that what the constructors build always has a legal shape, that the two readings
  of a page give back what was put in and exclude each other, and that frames are read as written.
\<close>

section \<open>Envelope\<close>

record uuid_api =
  uu_version_num :: "uuid \<Rightarrow> nat"
  uu_is_rfc4122 :: "uuid \<Rightarrow> bool"

definition PROTOCOL_VERSION_V1 :: string where
  "PROTOCOL_VERSION_V1 = ''1''"

record envelope =
  ev_protocol_version :: string
  ev_message_id :: uuid

record 'b message =
  ms_envelope :: envelope
  ms_body :: 'b

definition is_v1 :: "string \<Rightarrow> bool" where
  "is_v1 version \<longleftrightarrow> version = PROTOCOL_VERSION_V1"

definition envelope_new :: "uuid \<Rightarrow> envelope" where
  "envelope_new message_id = \<lparr> ev_protocol_version = PROTOCOL_VERSION_V1, ev_message_id = message_id \<rparr>"

definition is_uuid_v4 :: "uuid_api \<Rightarrow> uuid \<Rightarrow> bool" where
  "is_uuid_v4 api u \<longleftrightarrow> uu_version_num api u = 4 \<and> uu_is_rfc4122 api u"

definition envelope_is_valid :: "uuid_api \<Rightarrow> envelope \<Rightarrow> bool" where
  "envelope_is_valid api e \<longleftrightarrow> is_v1 (ev_protocol_version e) \<and> is_uuid_v4 api (ev_message_id e)"

definition message_new :: "uuid \<Rightarrow> 'b \<Rightarrow> 'b message" where
  "message_new message_id body = \<lparr> ms_envelope = envelope_new message_id, ms_body = body \<rparr>"

section \<open>Handshake\<close>

record worker_hello_body =
  wh_worker_protocol_version :: string
  wh_worker_instance_id :: uuid

definition worker_hello_new :: "uuid \<Rightarrow> uuid \<Rightarrow> worker_hello_body message" where
  "worker_hello_new message_id instance_id = message_new message_id
     \<lparr> wh_worker_protocol_version = PROTOCOL_VERSION_V1, wh_worker_instance_id = instance_id \<rparr>"

record server_hello_body =
  sh_in_reply_to :: uuid
  sh_server_protocol_version :: string
  sh_compatible :: bool

definition server_hello_new :: "uuid \<Rightarrow> uuid \<Rightarrow> server_hello_body message" where
  "server_hello_new message_id in_reply_to = message_new message_id
     \<lparr> sh_in_reply_to = in_reply_to, sh_server_protocol_version = PROTOCOL_VERSION_V1, sh_compatible = True \<rparr>"

definition server_hello_is_valid_reply_to :: "uuid_api \<Rightarrow> server_hello_body message \<Rightarrow> uuid \<Rightarrow> bool" where
  "server_hello_is_valid_reply_to api m sent_hello_id \<longleftrightarrow>
     envelope_is_valid api (ms_envelope m) \<and> is_v1 (sh_server_protocol_version (ms_body m)) \<and>
     sh_compatible (ms_body m) \<and> sh_in_reply_to (ms_body m) = sent_hello_id"

datatype handshake_rejection_reason = IncompatibleVersion

record handshake_rejected_body =
  hr_in_reply_to :: uuid
  hr_reason :: handshake_rejection_reason

definition incompatible_version :: "uuid \<Rightarrow> uuid \<Rightarrow> handshake_rejected_body message" where
  "incompatible_version message_id in_reply_to = message_new message_id
     \<lparr> hr_in_reply_to = in_reply_to, hr_reason = IncompatibleVersion \<rparr>"

definition handshake_rejected_is_valid_reply_to ::
  "uuid_api \<Rightarrow> handshake_rejected_body message \<Rightarrow> uuid \<Rightarrow> bool" where
  "handshake_rejected_is_valid_reply_to api m sent_hello_id \<longleftrightarrow>
     envelope_is_valid api (ms_envelope m) \<and> hr_in_reply_to (ms_body m) = sent_hello_id"

section \<open>Requests and decisions\<close>

datatype wire_digest_algorithm = WireSha256

datatype wire_artifact_status = WireVerified | WireFailed

record authorization_query_body =
  aq_token :: string
  aq_transfer_id :: uuid
  aq_chunk_index :: u64
  aq_proof_id :: string
  aq_issued_at :: u64
  aq_signature :: string

datatype authorization_decision_outcome = AuthorizationApproved | AuthorizationRefused

record authorization_decision_body =
  an_in_reply_to :: uuid
  an_decision :: authorization_decision_outcome
  an_digest_algorithm :: "wire_digest_algorithm option"
  an_chunk_size :: "u32 option"
  an_acceptance_handle :: "string option"
  an_expected_chunk_digest :: "string option"

definition authorization_approved ::
  "uuid \<Rightarrow> uuid \<Rightarrow> wire_digest_algorithm \<Rightarrow> u32 \<Rightarrow> string \<Rightarrow> string option \<Rightarrow> authorization_decision_body message" where
  "authorization_approved message_id in_reply_to algorithm sz handle digest = message_new message_id
     \<lparr> an_in_reply_to = in_reply_to, an_decision = AuthorizationApproved, an_digest_algorithm = Some algorithm,
       an_chunk_size = Some sz, an_acceptance_handle = Some handle, an_expected_chunk_digest = digest \<rparr>"

definition authorization_denied :: "uuid \<Rightarrow> uuid \<Rightarrow> authorization_decision_body message" where
  "authorization_denied message_id in_reply_to = message_new message_id
     \<lparr> an_in_reply_to = in_reply_to, an_decision = AuthorizationRefused, an_digest_algorithm = None,
       an_chunk_size = None, an_acceptance_handle = None, an_expected_chunk_digest = None \<rparr>"

record chunk_acceptance_request_body =
  cq_acceptance_handle :: string
  cq_transfer_id :: uuid
  cq_chunk_index :: u64
  cq_digest :: string
  cq_size :: u32

datatype chunk_acceptance_outcome = CA_Committed | CA_AlreadyCommitted | CA_Rejected

datatype chunk_acceptance_rejection_reason = ChunkIdentityConflict | TransferNotContinuable

record chunk_acceptance_decision_body =
  cn_in_reply_to :: uuid
  cn_outcome :: chunk_acceptance_outcome
  cn_reason :: "chunk_acceptance_rejection_reason option"

definition acceptance_with_outcome ::
  "uuid \<Rightarrow> uuid \<Rightarrow> chunk_acceptance_outcome \<Rightarrow> chunk_acceptance_rejection_reason option
    \<Rightarrow> chunk_acceptance_decision_body message" where
  "acceptance_with_outcome message_id in_reply_to outcome reason = message_new message_id
     \<lparr> cn_in_reply_to = in_reply_to, cn_outcome = outcome, cn_reason = reason \<rparr>"

abbreviation acceptance_committed :: "uuid \<Rightarrow> uuid \<Rightarrow> chunk_acceptance_decision_body message" where
  "acceptance_committed message_id in_reply_to \<equiv> acceptance_with_outcome message_id in_reply_to CA_Committed None"

abbreviation acceptance_already_committed :: "uuid \<Rightarrow> uuid \<Rightarrow> chunk_acceptance_decision_body message" where
  "acceptance_already_committed message_id in_reply_to \<equiv>
     acceptance_with_outcome message_id in_reply_to CA_AlreadyCommitted None"

abbreviation acceptance_rejected ::
  "uuid \<Rightarrow> uuid \<Rightarrow> chunk_acceptance_rejection_reason \<Rightarrow> chunk_acceptance_decision_body message" where
  "acceptance_rejected message_id in_reply_to reason \<equiv>
     acceptance_with_outcome message_id in_reply_to CA_Rejected (Some reason)"

section \<open>Resume discovery\<close>

record resume_discovery_query_body =
  dq_token :: string
  dq_transfer_id :: uuid
  dq_proof_id :: string
  dq_issued_at :: u64
  dq_signature :: string

record held_chunk =
  hc_chunk_index :: u64
  hc_digest :: string

datatype resume_discovery_decision = DiscoveryApproved | DiscoveryDenied

record resume_discovery_page_body =
  pg_in_reply_to :: uuid
  pg_decision :: resume_discovery_decision
  pg_transfer_id :: "uuid option"
  pg_sealed :: "bool option"
  pg_digest_algorithm :: "wire_digest_algorithm option"
  pg_chunk_size :: "u32 option"
  pg_expected_chunk_count :: "u64 option"
  pg_held_chunks :: "held_chunk list option"
  pg_resume_cursor :: "string option"

definition page_denied :: "uuid \<Rightarrow> uuid \<Rightarrow> resume_discovery_page_body message" where
  "page_denied message_id in_reply_to = message_new message_id
     \<lparr> pg_in_reply_to = in_reply_to, pg_decision = DiscoveryDenied, pg_transfer_id = None, pg_sealed = None,
       pg_digest_algorithm = None, pg_chunk_size = None, pg_expected_chunk_count = None,
       pg_held_chunks = None, pg_resume_cursor = None \<rparr>"

definition first_page ::
  "uuid \<Rightarrow> uuid \<Rightarrow> uuid \<Rightarrow> bool \<Rightarrow> wire_digest_algorithm \<Rightarrow> u32 \<Rightarrow> u64 option \<Rightarrow> held_chunk list \<Rightarrow> string option
    \<Rightarrow> resume_discovery_page_body message" where
  "first_page message_id in_reply_to tid sealed algorithm sz count held cursor = message_new message_id
     \<lparr> pg_in_reply_to = in_reply_to, pg_decision = DiscoveryApproved, pg_transfer_id = Some tid,
       pg_sealed = Some sealed, pg_digest_algorithm = Some algorithm, pg_chunk_size = Some sz,
       pg_expected_chunk_count = count, pg_held_chunks = Some held, pg_resume_cursor = cursor \<rparr>"

definition continuation_page ::
  "uuid \<Rightarrow> uuid \<Rightarrow> held_chunk list \<Rightarrow> string option \<Rightarrow> resume_discovery_page_body message" where
  "continuation_page message_id in_reply_to held cursor = message_new message_id
     \<lparr> pg_in_reply_to = in_reply_to, pg_decision = DiscoveryApproved, pg_transfer_id = None, pg_sealed = None,
       pg_digest_algorithm = None, pg_chunk_size = None, pg_expected_chunk_count = None,
       pg_held_chunks = Some held, pg_resume_cursor = cursor \<rparr>"

record resume_discovery_continue_body =
  rc_resume_cursor :: string

section \<open>Sealing and verification\<close>

record manifest_seal_request_body =
  mq_token :: string
  mq_transfer_id :: uuid
  mq_proof_id :: string
  mq_issued_at :: u64
  mq_signature :: string
  mq_chunk_count :: u64
  mq_artifact_digest :: string

datatype manifest_seal_outcome = MS_Sealed | MS_AlreadyPendingVerification | MS_Rejected | MS_Denied

datatype manifest_seal_rejection_reason = IncompleteManifest | ManifestAlreadySealed

record manifest_seal_decision_body =
  mn_in_reply_to :: uuid
  mn_outcome :: manifest_seal_outcome
  mn_reason :: "manifest_seal_rejection_reason option"
  mn_verification_handle :: "string option"
  mn_artifact_id :: "uuid option"
  mn_digest_algorithm :: "wire_digest_algorithm option"
  mn_chunk_size :: "u32 option"
  mn_chunk_count :: "u64 option"
  mn_expected_artifact_digest :: "string option"

record wire_sealed_facts =
  wf_verification_handle :: string
  wf_artifact_id :: uuid
  wf_digest_algorithm :: wire_digest_algorithm
  wf_chunk_size :: u32
  wf_chunk_count :: u64
  wf_expected_artifact_digest :: string

definition seal_bare ::
  "uuid \<Rightarrow> uuid \<Rightarrow> manifest_seal_outcome \<Rightarrow> manifest_seal_rejection_reason option \<Rightarrow> manifest_seal_decision_body message" where
  "seal_bare message_id in_reply_to outcome reason = message_new message_id
     \<lparr> mn_in_reply_to = in_reply_to, mn_outcome = outcome, mn_reason = reason, mn_verification_handle = None,
       mn_artifact_id = None, mn_digest_algorithm = None, mn_chunk_size = None, mn_chunk_count = None,
       mn_expected_artifact_digest = None \<rparr>"

definition seal_committed ::
  "uuid \<Rightarrow> uuid \<Rightarrow> manifest_seal_outcome \<Rightarrow> wire_sealed_facts \<Rightarrow> manifest_seal_decision_body message" where
  "seal_committed message_id in_reply_to outcome facts = message_new message_id
     \<lparr> mn_in_reply_to = in_reply_to, mn_outcome = outcome, mn_reason = None,
       mn_verification_handle = Some (wf_verification_handle facts), mn_artifact_id = Some (wf_artifact_id facts),
       mn_digest_algorithm = Some (wf_digest_algorithm facts), mn_chunk_size = Some (wf_chunk_size facts),
       mn_chunk_count = Some (wf_chunk_count facts),
       mn_expected_artifact_digest = Some (wf_expected_artifact_digest facts) \<rparr>"

record artifact_verification_report_body =
  vr_verification_handle :: string
  vr_computed_artifact_digest :: string

text \<open>The acknowledgement has one outcome, \<open>committed\<close>, which is left out.\<close>

record artifact_verification_ack_body =
  va_in_reply_to :: uuid
  va_artifact_status :: wire_artifact_status

record protocol_error_body =
  pe_code :: string
  pe_message :: "string option"
  pe_in_reply_to :: "uuid option"

definition protocol_error_new :: "uuid \<Rightarrow> string \<Rightarrow> string option \<Rightarrow> uuid option \<Rightarrow> protocol_error_body message" where
  "protocol_error_new message_id code text in_reply_to = message_new message_id
     \<lparr> pe_code = code, pe_message = text, pe_in_reply_to = in_reply_to \<rparr>"

section \<open>Shapes\<close>

text \<open>\<open>InvalidMessageShape\<close> carries the message type and a fixed sentence; the sentence is left out.\<close>

datatype invalid_message_shape = InvalidMessageShape string

definition authorization_decision_validate_shape :: "authorization_decision_body \<Rightarrow> invalid_message_shape + unit" where
  "authorization_decision_validate_shape b =
     (case an_decision b of
        AuthorizationApproved \<Rightarrow>
          if an_digest_algorithm b = None \<or> an_chunk_size b = None \<or> an_acceptance_handle b = None
          then Err (InvalidMessageShape ''AuthorizationDecision'') else Ok ()
      | AuthorizationRefused \<Rightarrow>
          if an_digest_algorithm b \<noteq> None \<or> an_chunk_size b \<noteq> None \<or> an_acceptance_handle b \<noteq> None \<or>
             an_expected_chunk_digest b \<noteq> None
          then Err (InvalidMessageShape ''AuthorizationDecision'') else Ok ())"

definition chunk_acceptance_decision_validate_shape ::
  "chunk_acceptance_decision_body \<Rightarrow> invalid_message_shape + unit" where
  "chunk_acceptance_decision_validate_shape b =
     (case cn_outcome b of
        CA_Rejected \<Rightarrow> if cn_reason b = None then Err (InvalidMessageShape ''ChunkAcceptanceDecision'') else Ok ()
      | _ \<Rightarrow> if cn_reason b \<noteq> None then Err (InvalidMessageShape ''ChunkAcceptanceDecision'') else Ok ())"

definition resume_page_validate_shape :: "resume_discovery_page_body \<Rightarrow> invalid_message_shape + unit" where
  "resume_page_validate_shape b =
     (case pg_decision b of
        DiscoveryDenied \<Rightarrow>
          if pg_transfer_id b \<noteq> None \<or> pg_sealed b \<noteq> None \<or> pg_digest_algorithm b \<noteq> None \<or>
             pg_chunk_size b \<noteq> None \<or> pg_expected_chunk_count b \<noteq> None \<or> pg_held_chunks b \<noteq> None \<or>
             pg_resume_cursor b \<noteq> None
          then Err (InvalidMessageShape ''ResumeDiscoveryPage'') else Ok ()
      | DiscoveryApproved \<Rightarrow>
          if pg_held_chunks b = None then Err (InvalidMessageShape ''ResumeDiscoveryPage'')
          else if (pg_expected_chunk_count b \<noteq> None) \<noteq> (pg_sealed b = Some True)
          then Err (InvalidMessageShape ''ResumeDiscoveryPage'') else Ok ())"

definition manifest_seal_decision_validate_shape :: "manifest_seal_decision_body \<Rightarrow> invalid_message_shape + unit" where
  "manifest_seal_decision_validate_shape b =
     (let any_success_field = mn_verification_handle b \<noteq> None \<or> mn_artifact_id b \<noteq> None \<or>
            mn_digest_algorithm b \<noteq> None \<or> mn_chunk_size b \<noteq> None \<or> mn_chunk_count b \<noteq> None \<or>
            mn_expected_artifact_digest b \<noteq> None;
          all_success_fields = mn_verification_handle b \<noteq> None \<and> mn_artifact_id b \<noteq> None \<and>
            mn_digest_algorithm b \<noteq> None \<and> mn_chunk_size b \<noteq> None \<and> mn_chunk_count b \<noteq> None \<and>
            mn_expected_artifact_digest b \<noteq> None;
          invalid = Err (InvalidMessageShape ''ManifestSealDecision'')
      in case mn_outcome b of
           MS_Rejected \<Rightarrow>
             if mn_reason b = None then invalid else if any_success_field then invalid else Ok ()
         | MS_Denied \<Rightarrow>
             if mn_reason b \<noteq> None then invalid else if any_success_field then invalid else Ok ()
         | _ \<Rightarrow>
             if mn_reason b \<noteq> None then invalid else if \<not> all_success_fields then invalid else Ok ())"

record resume_first_page =
  fp_transfer_id :: uuid
  fp_sealed :: bool
  fp_digest_algorithm :: wire_digest_algorithm
  fp_chunk_size :: u32
  fp_expected_chunk_count :: "u64 option"
  fp_held_chunks :: "held_chunk list"
  fp_resume_cursor :: "string option"

record resume_continuation_page =
  cp_held_chunks :: "held_chunk list"
  cp_resume_cursor :: "string option"

definition approved_first_page :: "resume_discovery_page_body message \<Rightarrow> invalid_message_shape + resume_first_page" where
  "approved_first_page m =
     (let b = ms_body m; invalid = Err (InvalidMessageShape ''ResumeDiscoveryPage'') in
      if pg_decision b \<noteq> DiscoveryApproved then invalid
      else case (pg_transfer_id b, pg_sealed b, pg_digest_algorithm b, pg_chunk_size b, pg_held_chunks b) of
        (Some tid, Some sealed, Some algorithm, Some sz, Some held) \<Rightarrow>
          if (pg_expected_chunk_count b \<noteq> None) \<noteq> sealed then invalid
          else Ok \<lparr> fp_transfer_id = tid, fp_sealed = sealed, fp_digest_algorithm = algorithm,
                    fp_chunk_size = sz, fp_expected_chunk_count = pg_expected_chunk_count b,
                    fp_held_chunks = held, fp_resume_cursor = pg_resume_cursor b \<rparr>
      | _ \<Rightarrow> invalid)"

definition approved_continuation_page ::
  "resume_discovery_page_body message \<Rightarrow> invalid_message_shape + resume_continuation_page" where
  "approved_continuation_page m =
     (let b = ms_body m; invalid = Err (InvalidMessageShape ''ResumeDiscoveryPage'') in
      if pg_decision b \<noteq> DiscoveryApproved then invalid
      else case pg_held_chunks b of
        None \<Rightarrow> invalid
      | Some held \<Rightarrow>
          if pg_transfer_id b \<noteq> None \<or> pg_sealed b \<noteq> None \<or> pg_digest_algorithm b \<noteq> None \<or>
             pg_chunk_size b \<noteq> None \<or> pg_expected_chunk_count b \<noteq> None then invalid
          else Ok \<lparr> cp_held_chunks = held, cp_resume_cursor = pg_resume_cursor b \<rparr>)"

section \<open>The union, its codec and its frames\<close>

datatype worker_protocol_message =
    WorkerHello "worker_hello_body message"
  | ServerHello "server_hello_body message"
  | HandshakeRejected "handshake_rejected_body message"
  | AuthorizationQuery "authorization_query_body message"
  | AuthorizationDecision "authorization_decision_body message"
  | ChunkAcceptanceRequest "chunk_acceptance_request_body message"
  | ChunkAcceptanceDecision "chunk_acceptance_decision_body message"
  | ResumeDiscoveryQuery "resume_discovery_query_body message"
  | ResumeDiscoveryPage "resume_discovery_page_body message"
  | ResumeDiscoveryContinue "resume_discovery_continue_body message"
  | ManifestSealRequest "manifest_seal_request_body message"
  | ManifestSealDecision "manifest_seal_decision_body message"
  | ArtifactVerificationReport "artifact_verification_report_body message"
  | ArtifactVerificationAck "artifact_verification_ack_body message"
  | ProtocolError "protocol_error_body message"

fun message_envelope :: "worker_protocol_message \<Rightarrow> envelope" where
  "message_envelope (WorkerHello m) = ms_envelope m"
| "message_envelope (ServerHello m) = ms_envelope m"
| "message_envelope (HandshakeRejected m) = ms_envelope m"
| "message_envelope (AuthorizationQuery m) = ms_envelope m"
| "message_envelope (AuthorizationDecision m) = ms_envelope m"
| "message_envelope (ChunkAcceptanceRequest m) = ms_envelope m"
| "message_envelope (ChunkAcceptanceDecision m) = ms_envelope m"
| "message_envelope (ResumeDiscoveryQuery m) = ms_envelope m"
| "message_envelope (ResumeDiscoveryPage m) = ms_envelope m"
| "message_envelope (ResumeDiscoveryContinue m) = ms_envelope m"
| "message_envelope (ManifestSealRequest m) = ms_envelope m"
| "message_envelope (ManifestSealDecision m) = ms_envelope m"
| "message_envelope (ArtifactVerificationReport m) = ms_envelope m"
| "message_envelope (ArtifactVerificationAck m) = ms_envelope m"
| "message_envelope (ProtocolError m) = ms_envelope m"

fun message_validate_shape :: "worker_protocol_message \<Rightarrow> invalid_message_shape + unit" where
  "message_validate_shape (AuthorizationDecision m) = authorization_decision_validate_shape (ms_body m)"
| "message_validate_shape (ChunkAcceptanceDecision m) = chunk_acceptance_decision_validate_shape (ms_body m)"
| "message_validate_shape (ResumeDiscoveryPage m) = resume_page_validate_shape (ms_body m)"
| "message_validate_shape (ManifestSealDecision m) = manifest_seal_decision_validate_shape (ms_body m)"
| "message_validate_shape _ = Ok ()"

definition KNOWN_MESSAGE_TYPES :: "string list" where
  "KNOWN_MESSAGE_TYPES = [''WorkerHello'', ''ServerHello'', ''HandshakeRejected'', ''AuthorizationQuery'',
     ''AuthorizationDecision'', ''ChunkAcceptanceRequest'', ''ChunkAcceptanceDecision'',
     ''ResumeDiscoveryQuery'', ''ResumeDiscoveryPage'', ''ResumeDiscoveryContinue'',
     ''ManifestSealRequest'', ''ManifestSealDecision'', ''ArtifactVerificationReport'',
     ''ArtifactVerificationAck'', ''ProtocolError'']"

fun message_type :: "worker_protocol_message \<Rightarrow> string" where
  "message_type (WorkerHello m) = ''WorkerHello''"
| "message_type (ServerHello m) = ''ServerHello''"
| "message_type (HandshakeRejected m) = ''HandshakeRejected''"
| "message_type (AuthorizationQuery m) = ''AuthorizationQuery''"
| "message_type (AuthorizationDecision m) = ''AuthorizationDecision''"
| "message_type (ChunkAcceptanceRequest m) = ''ChunkAcceptanceRequest''"
| "message_type (ChunkAcceptanceDecision m) = ''ChunkAcceptanceDecision''"
| "message_type (ResumeDiscoveryQuery m) = ''ResumeDiscoveryQuery''"
| "message_type (ResumeDiscoveryPage m) = ''ResumeDiscoveryPage''"
| "message_type (ResumeDiscoveryContinue m) = ''ResumeDiscoveryContinue''"
| "message_type (ManifestSealRequest m) = ''ManifestSealRequest''"
| "message_type (ManifestSealDecision m) = ''ManifestSealDecision''"
| "message_type (ArtifactVerificationReport m) = ''ArtifactVerificationReport''"
| "message_type (ArtifactVerificationAck m) = ''ArtifactVerificationAck''"
| "message_type (ProtocolError m) = ''ProtocolError''"

text \<open>
  A Rust \<open>str\<close> is its UTF-8 bytes, so text is a byte list here and \<open>utf8_valid\<close> is what
  \<open>str::from_utf8\<close> accepts: the shortest encodings of the scalar values.
\<close>

definition utf8_tail :: "byte \<Rightarrow> bool" where
  "utf8_tail b \<longleftrightarrow> 0x80 \<le> b \<and> b \<le> 0xBF"

fun utf8_valid :: "byte list \<Rightarrow> bool" where
  "utf8_valid [] = True"
| "utf8_valid (b # bs) =
     (if b \<le> 0x7F then utf8_valid bs
      else if 0xC2 \<le> b \<and> b \<le> 0xDF then
        (case bs of c # r \<Rightarrow> utf8_tail c \<and> utf8_valid r | _ \<Rightarrow> False)
      else if 0xE0 \<le> b \<and> b \<le> 0xEF then
        (case bs of c # d # r \<Rightarrow> (if b = 0xE0 then 0xA0 \<le> c \<and> c \<le> 0xBF
                                else if b = 0xED then 0x80 \<le> c \<and> c \<le> 0x9F else utf8_tail c) \<and>
                              utf8_tail d \<and> utf8_valid r
         | _ \<Rightarrow> False)
      else if 0xF0 \<le> b \<and> b \<le> 0xF4 then
        (case bs of c # d # e # r \<Rightarrow> (if b = 0xF0 then 0x90 \<le> c \<and> c \<le> 0xBF
                                else if b = 0xF4 then 0x80 \<le> c \<and> c \<le> 0x8F else utf8_tail c) \<and>
                              utf8_tail d \<and> utf8_tail e \<and> utf8_valid r
         | _ \<Rightarrow> False)
      else False)"

text \<open>
  What \<open>serde_json\<close> offers: text to a value, the string under the key \<open>type\<close> of a value, a value
  to a message, and a message to text. \<open>json_laws\<close> is what the crate relies on: a serialized message
  is UTF-8 text, carries its own tag, and deserializes to itself.
\<close>

record 'v json_api =
  sj_from_str :: "byte list \<Rightarrow> 'v option"
  sj_type :: "'v \<Rightarrow> string option"
  sj_from_value :: "'v \<Rightarrow> worker_protocol_message option"
  sj_to_string :: "worker_protocol_message \<Rightarrow> byte list option"

definition json_laws :: "'v json_api \<Rightarrow> bool" where
  "json_laws api \<longleftrightarrow> (\<forall>m json. sj_to_string api m = Some json \<longrightarrow>
     utf8_valid json \<and>
     (\<exists>v. sj_from_str api json = Some v \<and> sj_type api v = Some (message_type m) \<and>
          sj_from_value api v = Some m))"

datatype decode_error = DecodeMalformed | DecodeUnknownType string | DecodeInvalidShape invalid_message_shape

definition decode_message :: "'v json_api \<Rightarrow> byte list \<Rightarrow> decode_error + worker_protocol_message" where
  "decode_message api json =
     (case sj_from_str api json of
        None \<Rightarrow> Err DecodeMalformed
      | Some v \<Rightarrow>
          (let known = (case sj_from_value api v of
                 None \<Rightarrow> Err DecodeMalformed
               | Some m \<Rightarrow> (case message_validate_shape m of
                     Inl e \<Rightarrow> Err (DecodeInvalidShape e)
                   | Inr _ \<Rightarrow> Ok m))
           in case sj_type api v of
                None \<Rightarrow> known
              | Some ty \<Rightarrow> if ty \<notin> set KNOWN_MESSAGE_TYPES then Err (DecodeUnknownType ty) else known))"

definition MAX_FRAME_PAYLOAD_BYTES :: nat where
  "MAX_FRAME_PAYLOAD_BYTES = 1024 * 1024"

datatype stream_end = StreamEof | StreamIoError

record byte_stream =
  bs_pending :: "byte list"
  bs_end :: stream_end

datatype frame_read_error = FrameEof | FrameOversized nat | FrameIo | FrameInvalidUtf8

datatype frame_write_error = WriteOversized nat | WriteIo

definition read_exact_or_eof :: "nat \<Rightarrow> byte_stream \<Rightarrow> frame_read_error + byte list \<times> byte_stream" where
  "read_exact_or_eof n s =
     (if n \<le> length (bs_pending s)
      then Ok (take n (bs_pending s), s\<lparr> bs_pending := drop n (bs_pending s) \<rparr>)
      else case bs_end s of StreamEof \<Rightarrow> Err FrameEof | StreamIoError \<Rightarrow> Err FrameIo)"

definition read_frame :: "byte_stream \<Rightarrow> frame_read_error + byte list \<times> byte_stream" where
  "read_frame s =
     (case read_exact_or_eof 4 s of
        Inl e \<Rightarrow> Err e
      | Inr (prefix, s1) \<Rightarrow>
          (let declared = be_value prefix in
           if declared > MAX_FRAME_PAYLOAD_BYTES then Err (FrameOversized declared)
           else read_exact_or_eof declared s1))"

text \<open>What one call puts on the wire; \<open>io_ok\<close> says whether the writes go through.\<close>

definition write_frame :: "bool \<Rightarrow> byte list \<Rightarrow> frame_write_error + byte list" where
  "write_frame io_ok payload =
     (if length payload > MAX_FRAME_PAYLOAD_BYTES then Err (WriteOversized (length payload))
      else if \<not> io_ok then Err WriteIo
      else Ok (be_bytes 4 (length payload) @ payload))"

datatype receive_error = ReceiveFrame frame_read_error | ReceiveDecode decode_error

datatype send_error = SendFrame frame_write_error | SendEncode

definition receive_message ::
  "'v json_api \<Rightarrow> byte_stream \<Rightarrow> receive_error + worker_protocol_message \<times> byte_stream" where
  "receive_message api s =
     (case read_frame s of
        Inl e \<Rightarrow> Err (ReceiveFrame e)
      | Inr (payload, s1) \<Rightarrow>
          if \<not> utf8_valid payload then Err (ReceiveFrame FrameInvalidUtf8)
          else case decode_message api payload of
                 Inl e \<Rightarrow> Err (ReceiveDecode e)
               | Inr m \<Rightarrow> Ok (m, s1))"

definition send_message :: "'v json_api \<Rightarrow> bool \<Rightarrow> worker_protocol_message \<Rightarrow> send_error + byte list" where
  "send_message api io_ok m =
     (case sj_to_string api m of
        None \<Rightarrow> Err SendEncode
      | Some json \<Rightarrow>
          (case write_frame io_ok json of
             Inl e \<Rightarrow> Err (SendFrame e)
           | Inr bytes \<Rightarrow> Ok bytes))"

section \<open>Shapes of what is built\<close>

named_theorems message_constructors

lemmas [message_constructors] =
  message_new_def authorization_approved_def authorization_denied_def acceptance_with_outcome_def
  page_denied_def
  first_page_def continuation_page_def seal_bare_def seal_committed_def

named_theorems message_shapes

lemmas [message_shapes] =
  authorization_decision_validate_shape_def chunk_acceptance_decision_validate_shape_def
  resume_page_validate_shape_def manifest_seal_decision_validate_shape_def

lemma first_page_shape:
  "resume_page_validate_shape (ms_body (first_page i r tid sealed alg sz count held cursor)) = Ok () \<longleftrightarrow>
     (count \<noteq> None) = sealed"
  by (auto simp: message_constructors message_shapes)

lemma constructed_shapes:
  "message_validate_shape (AuthorizationDecision (authorization_approved i r alg sz h d)) = Ok ()"
  "message_validate_shape (AuthorizationDecision (authorization_denied i r)) = Ok ()"
  "message_validate_shape (ChunkAcceptanceDecision (acceptance_committed i r)) = Ok ()"
  "message_validate_shape (ChunkAcceptanceDecision (acceptance_already_committed i r)) = Ok ()"
  "message_validate_shape (ChunkAcceptanceDecision (acceptance_rejected i r reason)) = Ok ()"
  "message_validate_shape (ResumeDiscoveryPage (page_denied i r)) = Ok ()"
  "message_validate_shape (ResumeDiscoveryPage (continuation_page i r held cursor)) = Ok ()"
  "message_validate_shape (ManifestSealDecision (seal_bare i r MS_Denied None)) = Ok ()"
  "message_validate_shape (ManifestSealDecision (seal_bare i r MS_Rejected (Some why))) = Ok ()"
  "message_validate_shape (ManifestSealDecision (seal_committed i r MS_Sealed facts)) = Ok ()"
  "message_validate_shape (ManifestSealDecision (seal_committed i r MS_AlreadyPendingVerification facts)) = Ok ()"
  by (simp_all add: message_constructors message_shapes)

lemma first_page_read [simp]:
  "(count \<noteq> None) = sealed \<Longrightarrow>
   approved_first_page (first_page i r tid sealed alg sz count held cursor) =
     Ok \<lparr> fp_transfer_id = tid, fp_sealed = sealed, fp_digest_algorithm = alg, fp_chunk_size = sz,
          fp_expected_chunk_count = count, fp_held_chunks = held, fp_resume_cursor = cursor \<rparr>"
  by (auto simp: approved_first_page_def message_constructors)

lemma continuation_page_read [simp]:
  "approved_continuation_page (continuation_page i r held cursor) =
     Ok \<lparr> cp_held_chunks = held, cp_resume_cursor = cursor \<rparr>"
  by (simp add: approved_continuation_page_def message_constructors)

lemma page_decisions [simp]:
  "pg_decision (ms_body (page_denied i r)) = DiscoveryDenied"
  "pg_decision (ms_body (first_page i r tid sealed alg sz count held cursor)) = DiscoveryApproved"
  "pg_decision (ms_body (continuation_page i r held cursor)) = DiscoveryApproved"
  by (simp_all add: message_constructors)

section \<open>Frames\<close>

lemma read_exact_prefix:
  "length bytes = n \<Longrightarrow> read_exact_or_eof n \<lparr> bs_pending = bytes @ rest, bs_end = e \<rparr> =
     Ok (bytes, \<lparr> bs_pending = rest, bs_end = e \<rparr>)"
  by (simp add: read_exact_or_eof_def)

lemma frame_read_as_written:
  assumes "write_frame io_ok payload = Ok bytes"
  shows "read_frame \<lparr> bs_pending = bytes @ rest, bs_end = e \<rparr> = Ok (payload, \<lparr> bs_pending = rest, bs_end = e \<rparr>)"
proof -
  from assms have b: "bytes = be_bytes 4 (length payload) @ payload" "length payload \<le> MAX_FRAME_PAYLOAD_BYTES"
    by (auto simp: write_frame_def split: if_splits)
  then have "be_value (be_bytes 4 (length payload)) = length payload"
    by (simp add: be_value_be_bytes MAX_FRAME_PAYLOAD_BYTES_def)
  with b show ?thesis
    using read_exact_prefix [of "be_bytes 4 (length payload)" 4 "payload @ rest" e]
      read_exact_prefix [of payload "length payload" rest e]
    by (simp add: read_frame_def)
qed

text \<open>A frame larger than the limit is refused before anything of its payload is read.\<close>

lemma oversized_frame_refused:
  assumes "MAX_FRAME_PAYLOAD_BYTES < n" "n < 256 ^ 4"
  shows "read_frame \<lparr> bs_pending = be_bytes 4 n @ rest, bs_end = e \<rparr> = Err (FrameOversized n)"
  using assms read_exact_prefix [of "be_bytes 4 n" 4 rest e] by (simp add: read_frame_def be_value_be_bytes)

lemma message_type_known [simp]: "message_type m \<in> set KNOWN_MESSAGE_TYPES"
  by (cases m) (simp_all add: KNOWN_MESSAGE_TYPES_def)

lemma message_received_as_sent:
  assumes laws: "json_laws api"
    and sent: "send_message api io_ok m = Ok bytes"
    and shape: "message_validate_shape m = Ok ()"
  shows "receive_message api \<lparr> bs_pending = bytes @ rest, bs_end = e \<rparr> =
     Ok (m, \<lparr> bs_pending = rest, bs_end = e \<rparr>)"
proof -
  from sent obtain json where json: "sj_to_string api m = Some json" "write_frame io_ok json = Ok bytes"
    by (auto simp: send_message_def split: option.splits sum.splits)
  from laws json(1) obtain v where v: "utf8_valid json" "sj_from_str api json = Some v"
      "sj_type api v = Some (message_type m)" "sj_from_value api v = Some m"
    unfolding json_laws_def by blast
  then have "decode_message api json = Ok m"
    using shape by (simp add: decode_message_def)
  then show ?thesis
    using frame_read_as_written [OF json(2)] v(1) by (simp add: receive_message_def)
qed

text \<open>Whatever is received has the shape its outcome calls for.\<close>

lemma received_shape:
  "receive_message api s = Ok (m, s') \<Longrightarrow> message_validate_shape m = Ok ()"
  by (auto simp: receive_message_def decode_message_def Let_def split: sum.splits option.splits if_splits)

end
