(* ===== verification/Worker_Operations.thy ===== *)
theory Worker_Operations
  imports Transfer_Model
begin

text \<open>
  The server's side of one Worker connection: which connection generation is current
  (\<open>src/crates/server/src/runtime/worker_authority.rs\<close>) and the single-use handles, cursors and
  resume snapshots of a generation (\<open>runtime/transient_worker_operations.rs\<close>).

  Every store operation runs inside the registry's shared lock, so the currency check and the change
  are one step: the operations take the registry and the store and return the new store. The opaque
  identifiers are an argument, as the store's own \<open>IdSource\<close> is: \<open>ids kind n\<close> is the candidate of
  attempt \<open>n\<close>. The weak reference the registry publishes is the generation whose store it points to.

  The steps of all connections together form a machine whose log of minted and consumed handles
  carries the results: a handle is consumed no more often than it was minted, with the operation it
  was minted for, and only while its generation is the current one.
\<close>

section \<open>Connection generations\<close>

type_synonym connection_generation = u64

datatype worker_control_state =
    NoConnection
  | ActiveConnection connection_generation uuid

record worker_authority =
  wa_state :: worker_control_state
  wa_observed_operations :: "connection_generation option"
  wa_operations_capacity :: nat
  wa_next_generation :: u64

definition authority_with_operations_capacity :: "nat \<Rightarrow> worker_authority" where
  "authority_with_operations_capacity capacity =
     \<lparr> wa_state = NoConnection, wa_observed_operations = None,
       wa_operations_capacity = max capacity 1, wa_next_generation = 1 \<rparr>"

definition DEFAULT_TRANSIENT_WORKER_OPERATION_STORE_CAPACITY :: nat where
  "DEFAULT_TRANSIENT_WORKER_OPERATION_STORE_CAPACITY = 1024"

definition authority_new :: worker_authority where
  "authority_new = authority_with_operations_capacity DEFAULT_TRANSIENT_WORKER_OPERATION_STORE_CAPACITY"

definition is_current :: "worker_authority \<Rightarrow> connection_generation \<Rightarrow> bool" where
  "is_current wa g =
     (case wa_state wa of ActiveConnection current _ \<Rightarrow> current = g | NoConnection \<Rightarrow> False)"

definition begin_generation :: "worker_authority \<Rightarrow> uuid \<Rightarrow> connection_generation \<times> worker_authority" where
  "begin_generation wa worker_instance_id =
     (let g = wa_next_generation wa in
      (g, wa\<lparr> wa_next_generation := g + 1, wa_observed_operations := None,
             wa_state := ActiveConnection g worker_instance_id \<rparr>))"

definition end_generation :: "worker_authority \<Rightarrow> connection_generation \<Rightarrow> worker_authority" where
  "end_generation wa g =
     (case wa_state wa of
        ActiveConnection current _ \<Rightarrow>
          if current = g then wa\<lparr> wa_state := NoConnection, wa_observed_operations := None \<rparr> else wa
      | NoConnection \<Rightarrow> wa)"

definition set_current_operations :: "worker_authority \<Rightarrow> connection_generation \<Rightarrow> worker_authority" where
  "set_current_operations wa g = (if is_current wa g then wa\<lparr> wa_observed_operations := Some g \<rparr> else wa)"

section \<open>The transient store of a generation\<close>

datatype transient_operation_error =
    Saturated | IdCollision | StaleGeneration | UnknownHandle | WrongKind | BindingMismatch

datatype handle_kind = HandleAcceptance | HandleVerification | HandleResumeCursor

type_synonym id_source = "handle_kind \<Rightarrow> nat \<Rightarrow> string"

record acceptance_binding =
  ak_transfer_id :: transfer_id
  ak_chunk_index :: u64
  ak_proof_id :: string

record verification_binding =
  vb_transfer_id :: transfer_id
  vb_artifact_id :: artifact_id
  vb_chunk_count :: u64
  vb_expected_artifact_digest :: string
  vb_proof_id :: string

record resume_cursor_state =
  cs_snapshot_id :: uuid
  cs_next_chunk_index :: u64

record resume_cursor_binding =
  rb_transfer_id :: transfer_id
  rb_proof_id :: string
  rb_state :: resume_cursor_state

datatype binding =
    BindAcceptance acceptance_binding
  | BindVerification verification_binding
  | BindResumeCursor resume_cursor_binding

record held_chunk_entry =
  he_chunk_index :: u64
  he_digest :: string

record resume_snapshot =
  sn_transfer_id :: transfer_id
  sn_sealed :: bool
  sn_digest_algorithm :: digest_algorithm
  sn_chunk_size :: u32
  sn_expected_chunk_count :: "u64 option"
  sn_held :: "held_chunk_entry list"

record operation_store =
  os_generation :: connection_generation
  os_capacity :: nat
  os_resume_snapshot_capacity :: nat
  os_bindings :: "(string, binding) fmap"
  os_resume_snapshots :: "(uuid, resume_snapshot) fmap"

definition MINT_ATTEMPTS :: nat where
  "MINT_ATTEMPTS = 4"

definition DEFAULT_RESUME_SNAPSHOT_CAPACITY :: nat where
  "DEFAULT_RESUME_SNAPSHOT_CAPACITY = 64"

definition operation_store_new :: "connection_generation \<Rightarrow> nat \<Rightarrow> operation_store" where
  "operation_store_new g capacity =
     \<lparr> os_generation = g, os_capacity = max capacity 1,
       os_resume_snapshot_capacity = DEFAULT_RESUME_SNAPSHOT_CAPACITY,
       os_bindings = fmempty, os_resume_snapshots = fmempty \<rparr>"

definition with_current_generation ::
  "worker_authority \<Rightarrow> connection_generation \<Rightarrow> transient_operation_error + 'a \<Rightarrow>
   transient_operation_error + 'a" where
  "with_current_generation wa g outcome = (if is_current wa g then outcome else Err StaleGeneration)"

definition choose_fresh :: "(nat \<Rightarrow> 'i) \<Rightarrow> ('i \<Rightarrow> bool) \<Rightarrow> 'i option" where
  "choose_fresh candidates free = find free (map candidates [0..<MINT_ATTEMPTS])"

definition register_resume_snapshot ::
  "worker_authority \<Rightarrow> uuid_source \<Rightarrow> resume_snapshot \<Rightarrow> operation_store \<Rightarrow>
   transient_operation_error + uuid \<times> operation_store" where
  "register_resume_snapshot wa draw snapshot s = with_current_generation wa (os_generation s)
     (if map_len (os_resume_snapshots s) \<ge> os_resume_snapshot_capacity s then Err Saturated
      else case choose_fresh draw (\<lambda>i. fmlookup (os_resume_snapshots s) i = None) of
             None \<Rightarrow> Err IdCollision
           | Some i \<Rightarrow>
               Ok (i, s\<lparr> os_resume_snapshots := map_insert i snapshot (os_resume_snapshots s) \<rparr>))"

definition resume_snapshot_of :: "worker_authority \<Rightarrow> operation_store \<Rightarrow> uuid \<Rightarrow> resume_snapshot option" where
  "resume_snapshot_of wa s i =
     (if is_current wa (os_generation s) then fmlookup (os_resume_snapshots s) i else None)"

definition drop_resume_snapshot :: "worker_authority \<Rightarrow> uuid \<Rightarrow> operation_store \<Rightarrow> operation_store" where
  "drop_resume_snapshot wa i s =
     (if is_current wa (os_generation s)
      then s\<lparr> os_resume_snapshots := map_remove i (os_resume_snapshots s) \<rparr> else s)"

definition insert_fresh ::
  "worker_authority \<Rightarrow> id_source \<Rightarrow> handle_kind \<Rightarrow> binding \<Rightarrow> operation_store \<Rightarrow>
   transient_operation_error + string \<times> operation_store" where
  "insert_fresh wa ids kind b s = with_current_generation wa (os_generation s)
     (if map_len (os_bindings s) \<ge> os_capacity s then Err Saturated
      else case choose_fresh (ids kind) (\<lambda>h. fmlookup (os_bindings s) h = None) of
             None \<Rightarrow> Err IdCollision
           | Some h \<Rightarrow> Ok (h, s\<lparr> os_bindings := map_insert h b (os_bindings s) \<rparr>))"

definition mint_acceptance ::
  "worker_authority \<Rightarrow> id_source \<Rightarrow> acceptance_binding \<Rightarrow> operation_store \<Rightarrow>
   transient_operation_error + string \<times> operation_store" where
  "mint_acceptance wa ids b = insert_fresh wa ids HandleAcceptance (BindAcceptance b)"

definition consume_acceptance ::
  "worker_authority \<Rightarrow> string \<Rightarrow> transfer_id \<Rightarrow> u64 \<Rightarrow> operation_store \<Rightarrow>
   transient_operation_error + acceptance_binding \<times> operation_store" where
  "consume_acceptance wa handle tid chunk_index s = with_current_generation wa (os_generation s)
     (case fmlookup (os_bindings s) handle of
        None \<Rightarrow> Err UnknownHandle
      | Some (BindAcceptance b) \<Rightarrow>
          if \<not> (ak_transfer_id b = tid \<and> ak_chunk_index b = chunk_index) then Err BindingMismatch
          else Ok (b, s\<lparr> os_bindings := map_remove handle (os_bindings s) \<rparr>)
      | Some _ \<Rightarrow> Err WrongKind)"

definition mint_verification ::
  "worker_authority \<Rightarrow> id_source \<Rightarrow> verification_binding \<Rightarrow> operation_store \<Rightarrow>
   transient_operation_error + string \<times> operation_store" where
  "mint_verification wa ids b = insert_fresh wa ids HandleVerification (BindVerification b)"

definition consume_verification ::
  "worker_authority \<Rightarrow> string \<Rightarrow> operation_store \<Rightarrow>
   transient_operation_error + verification_binding \<times> operation_store" where
  "consume_verification wa handle s = with_current_generation wa (os_generation s)
     (case fmlookup (os_bindings s) handle of
        None \<Rightarrow> Err UnknownHandle
      | Some (BindVerification b) \<Rightarrow> Ok (b, s\<lparr> os_bindings := map_remove handle (os_bindings s) \<rparr>)
      | Some _ \<Rightarrow> Err WrongKind)"

definition mint_resume_cursor ::
  "worker_authority \<Rightarrow> id_source \<Rightarrow> resume_cursor_binding \<Rightarrow> operation_store \<Rightarrow>
   transient_operation_error + string \<times> operation_store" where
  "mint_resume_cursor wa ids b = insert_fresh wa ids HandleResumeCursor (BindResumeCursor b)"

definition advance_resume_cursor ::
  "worker_authority \<Rightarrow> id_source \<Rightarrow> string \<Rightarrow> transfer_id \<Rightarrow> resume_cursor_state option \<Rightarrow> operation_store \<Rightarrow>
   transient_operation_error + string option \<times> operation_store" where
  "advance_resume_cursor wa ids cursor tid next s = with_current_generation wa (os_generation s)
     (case fmlookup (os_bindings s) cursor of
        None \<Rightarrow> Err UnknownHandle
      | Some (BindResumeCursor b) \<Rightarrow>
          if rb_transfer_id b \<noteq> tid then Err BindingMismatch
          else (case next of
             None \<Rightarrow> Ok (None, s\<lparr> os_bindings := map_remove cursor (os_bindings s) \<rparr>)
           | Some state \<Rightarrow>
               (case choose_fresh (ids HandleResumeCursor)
                       (\<lambda>h. h \<noteq> cursor \<and> fmlookup (os_bindings s) h = None) of
                  None \<Rightarrow> Err IdCollision
                | Some h \<Rightarrow>
                    Ok (Some h, s\<lparr> os_bindings := map_insert h
                      (BindResumeCursor \<lparr> rb_transfer_id = tid, rb_proof_id = rb_proof_id b, rb_state = state \<rparr>)
                      (map_remove cursor (os_bindings s)) \<rparr>)))
      | Some _ \<Rightarrow> Err WrongKind)"

definition resume_cursor_binding_of ::
  "worker_authority \<Rightarrow> operation_store \<Rightarrow> string \<Rightarrow> resume_cursor_binding option" where
  "resume_cursor_binding_of wa s cursor =
     (if is_current wa (os_generation s)
      then (case fmlookup (os_bindings s) cursor of Some (BindResumeCursor b) \<Rightarrow> Some b | _ \<Rightarrow> None)
      else None)"

section \<open>All connections together\<close>

text \<open>
  What happened to a handle, keyed by its generation and its text, and the steps of the connection
  tasks: a handshake begins a generation with an empty store and publishes it, the end of a
  connection drops the store, and in between the handlers mint, consume and advance.
\<close>

datatype ('k, 'b) handle_event = Minted 'k 'b | Consumed 'k 'b

type_synonym worker_event = "(connection_generation \<times> string, binding) handle_event"

record worker_machine =
  wm_authority :: worker_authority
  wm_stores :: "(connection_generation, operation_store) fmap"

datatype worker_op =
    WorkerConnect uuid
  | WorkerDisconnect connection_generation
  | WorkerMint connection_generation id_source handle_kind binding
  | WorkerConsumeAcceptance connection_generation string transfer_id u64
  | WorkerConsumeVerification connection_generation string
  | WorkerAdvance connection_generation id_source string transfer_id "resume_cursor_state option"
  | WorkerRegister connection_generation uuid_source resume_snapshot
  | WorkerDrop connection_generation uuid

definition connect_worker :: "uuid \<Rightarrow> worker_machine \<Rightarrow> worker_machine" where
  "connect_worker worker_instance_id st =
     (case begin_generation (wm_authority st) worker_instance_id of
        (g, wa) \<Rightarrow> \<lparr> wm_authority = set_current_operations wa g,
                    wm_stores = map_insert g (operation_store_new g (wa_operations_capacity wa)) (wm_stores st) \<rparr>)"

definition disconnect_worker :: "connection_generation \<Rightarrow> worker_machine \<Rightarrow> worker_machine" where
  "disconnect_worker g st =
     \<lparr> wm_authority = end_generation (wm_authority st) g, wm_stores = map_remove g (wm_stores st) \<rparr>"

definition on_store ::
  "connection_generation \<Rightarrow>
   (worker_authority \<Rightarrow> operation_store \<Rightarrow> transient_operation_error + worker_event list \<times> operation_store) \<Rightarrow>
   worker_machine \<Rightarrow> worker_event list \<times> worker_machine" where
  "on_store g f st =
     (case fmlookup (wm_stores st) g of
        None \<Rightarrow> ([], st)
      | Some s \<Rightarrow> (case f (wm_authority st) s of
          Inl _ \<Rightarrow> ([], st)
        | Inr (evs, s') \<Rightarrow> (evs, st\<lparr> wm_stores := map_insert g s' (wm_stores st) \<rparr>)))"

definition advance_events ::
  "connection_generation \<Rightarrow> string \<Rightarrow> operation_store \<Rightarrow> string option \<Rightarrow> operation_store \<Rightarrow> worker_event list" where
  "advance_events g cursor s successor s' =
     (case fmlookup (os_bindings s) cursor of
        None \<Rightarrow> []
      | Some b \<Rightarrow> Consumed (g, cursor) b #
          (case successor of
             None \<Rightarrow> []
           | Some h \<Rightarrow> (case fmlookup (os_bindings s') h of None \<Rightarrow> [] | Some b' \<Rightarrow> [Minted (g, h) b'])))"

fun worker_step :: "worker_op \<Rightarrow> worker_machine \<Rightarrow> worker_event list \<times> worker_machine" where
  "worker_step (WorkerConnect worker_instance_id) st = ([], connect_worker worker_instance_id st)"
| "worker_step (WorkerDisconnect g) st = ([], disconnect_worker g st)"
| "worker_step (WorkerMint g ids kind b) st = on_store g
     (\<lambda>wa s. map_sum id (\<lambda>(h, s'). ([Minted (g, h) b], s')) (insert_fresh wa ids kind b s)) st"
| "worker_step (WorkerConsumeAcceptance g h tid i) st = on_store g
     (\<lambda>wa s. map_sum id (\<lambda>(b, s'). ([Consumed (g, h) (BindAcceptance b)], s')) (consume_acceptance wa h tid i s)) st"
| "worker_step (WorkerConsumeVerification g h) st = on_store g
     (\<lambda>wa s. map_sum id (\<lambda>(b, s'). ([Consumed (g, h) (BindVerification b)], s')) (consume_verification wa h s)) st"
| "worker_step (WorkerAdvance g ids h tid next) st = on_store g
     (\<lambda>wa s. map_sum id (\<lambda>(n, s'). (advance_events g h s n s', s')) (advance_resume_cursor wa ids h tid next s)) st"
| "worker_step (WorkerRegister g draw snapshot) st = on_store g
     (\<lambda>wa s. map_sum id (\<lambda>(i, s'). ([], s')) (register_resume_snapshot wa draw snapshot s)) st"
| "worker_step (WorkerDrop g i) st = on_store g (\<lambda>wa s. Ok ([], drop_resume_snapshot wa i s)) st"

fun log_run :: "('op \<Rightarrow> 's \<Rightarrow> 'e list \<times> 's) \<Rightarrow> 'op list \<Rightarrow> 's \<Rightarrow> 'e list \<times> 's" where
  "log_run step [] s = ([], s)"
| "log_run step (op # ops) s =
     (case step op s of (evs, t) \<Rightarrow> case log_run step ops t of (evs', u) \<Rightarrow> (evs @ evs', u))"

definition worker_boot :: "nat \<Rightarrow> worker_machine" where
  "worker_boot capacity =
     \<lparr> wm_authority = authority_with_operations_capacity capacity, wm_stores = fmempty \<rparr>"

definition mints :: "'k \<Rightarrow> ('k, 'b) handle_event list \<Rightarrow> nat" where
  "mints k evs = length (filter (\<lambda>e. case e of Minted k' _ \<Rightarrow> k' = k | _ \<Rightarrow> False) evs)"

definition uses :: "'k \<Rightarrow> ('k, 'b) handle_event list \<Rightarrow> nat" where
  "uses k evs = length (filter (\<lambda>e. case e of Consumed k' _ \<Rightarrow> k' = k | _ \<Rightarrow> False) evs)"

definition binding_of :: "worker_machine \<Rightarrow> connection_generation \<times> string \<Rightarrow> binding option" where
  "binding_of st k = (case fmlookup (wm_stores st) (fst k) of None \<Rightarrow> None | Some s \<Rightarrow> fmlookup (os_bindings s) (snd k))"

definition live :: "'b option \<Rightarrow> nat" where
  "live b = (if b = None then 0 else 1)"

fun event_key :: "('k, 'b) handle_event \<Rightarrow> 'k" where
  "event_key (Minted k b) = k"
| "event_key (Consumed k b) = k"

text \<open>Within bounds, and every store under its own generation, which the registry has handed out.\<close>

definition store_ok :: "operation_store \<Rightarrow> bool" where
  "store_ok s \<longleftrightarrow> map_len (os_bindings s) \<le> os_capacity s \<and>
     map_len (os_resume_snapshots s) \<le> os_resume_snapshot_capacity s"

definition worker_ok :: "worker_machine \<Rightarrow> bool" where
  "worker_ok st \<longleftrightarrow> (\<forall>g s. fmlookup (wm_stores st) g = Some s \<longrightarrow> os_generation s = g \<and> store_ok s)"

section \<open>Single use, for any store\<close>

text \<open>
  What a store of handles has to promise, step by step, for a log over any run to balance: \<open>content\<close>
  says what is live under a key.
\<close>

locale single_use =
  fixes step :: "'op \<Rightarrow> 's \<Rightarrow> ('k, 'b) handle_event list \<times> 's"
    and content :: "'s \<Rightarrow> 'k \<Rightarrow> 'b option"
  assumes step_balance: "step op s = (evs, t) \<Longrightarrow>
      uses k evs + live (content t k) \<le> live (content s k) + mints k evs"
    and step_content: "step op s = (evs, t) \<Longrightarrow> content t k = Some b \<Longrightarrow>
      content s k = Some b \<or> Minted k b \<in> set evs"
    and step_consumed: "step op s = (evs, t) \<Longrightarrow> Consumed k b \<in> set evs \<Longrightarrow> content s k = Some b"
begin

lemma run_balance:
  "log_run step ops s = (evs, t) \<Longrightarrow> uses k evs + live (content t k) \<le> live (content s k) + mints k evs"
proof (induction ops arbitrary: s evs)
  case (Cons op ops)
  then obtain evs1 s1 evs2 where run: "step op s = (evs1, s1)" "log_run step ops s1 = (evs2, t)" "evs = evs1 @ evs2"
    by (auto split: prod.splits)
  show ?case
    using step_balance [OF run(1), of k] Cons.IH [OF run(2)] run(3) by (simp add: uses_def mints_def)
qed (simp add: uses_def mints_def)

lemma run_consumed:
  "log_run step ops s = (evs, t) \<Longrightarrow> Consumed k b \<in> set evs \<Longrightarrow> content s k = Some b \<or> Minted k b \<in> set evs"
proof (induction ops arbitrary: s evs)
  case (Cons op ops)
  then obtain evs1 s1 evs2 where run: "step op s = (evs1, s1)" "log_run step ops s1 = (evs2, t)" "evs = evs1 @ evs2"
    by (auto split: prod.splits)
  show ?case
    using Cons.prems(2) run(3) step_consumed [OF run(1)] step_content [OF run(1)] Cons.IH [OF run(2)] by auto
qed simp

end

section \<open>What the store operations do\<close>

named_theorems store_ops

lemmas [store_ops] =
  with_current_generation_def insert_fresh_def consume_acceptance_def consume_verification_def
  advance_resume_cursor_def register_resume_snapshot_def mint_acceptance_def mint_verification_def
  mint_resume_cursor_def

lemma choose_fresh_SomeD: "choose_fresh c P = Some i \<Longrightarrow> P i"
  by (auto simp: choose_fresh_def find_Some_iff)

lemma choose_fresh_first: "P (c 0) \<Longrightarrow> choose_fresh c P = Some (c 0)"
  by (simp add: choose_fresh_def MINT_ATTEMPTS_def upt_conv_Cons)

lemma inserted:
  assumes "insert_fresh wa ids kind b s = Ok (h, s')"
  shows "is_current wa (os_generation s)" "map_len (os_bindings s) < os_capacity s"
    "fmlookup (os_bindings s) h = None" "s' = s\<lparr> os_bindings := map_insert h b (os_bindings s) \<rparr>"
  using assms by (auto simp: store_ops split: if_splits option.splits dest: choose_fresh_SomeD)

lemma acceptance_consumed:
  assumes "consume_acceptance wa h tid i s = Ok (b, s')"
  shows "is_current wa (os_generation s)" "fmlookup (os_bindings s) h = Some (BindAcceptance b)"
    "ak_transfer_id b = tid" "ak_chunk_index b = i"
    "s' = s\<lparr> os_bindings := map_remove h (os_bindings s) \<rparr>"
  using assms by (auto simp: store_ops split: if_splits option.splits binding.splits)

lemma verification_consumed:
  assumes "consume_verification wa h s = Ok (b, s')"
  shows "is_current wa (os_generation s)" "fmlookup (os_bindings s) h = Some (BindVerification b)"
    "s' = s\<lparr> os_bindings := map_remove h (os_bindings s) \<rparr>"
  using assms by (auto simp: store_ops split: if_splits option.splits binding.splits)

lemma snapshot_registered:
  assumes "register_resume_snapshot wa draw snapshot s = Ok (i, s')"
  shows "is_current wa (os_generation s)" "map_len (os_resume_snapshots s) < os_resume_snapshot_capacity s"
    "fmlookup (os_resume_snapshots s) i = None"
    "s' = s\<lparr> os_resume_snapshots := map_insert i snapshot (os_resume_snapshots s) \<rparr>"
  using assms by (auto simp: store_ops split: if_splits option.splits dest: choose_fresh_SomeD)

lemma cursor_advanced:
  assumes "advance_resume_cursor wa ids cursor tid next s = Ok (n, s')"
  obtains b where "is_current wa (os_generation s)" "fmlookup (os_bindings s) cursor = Some (BindResumeCursor b)"
      "rb_transfer_id b = tid" "next = None" "n = None"
      "s' = s\<lparr> os_bindings := map_remove cursor (os_bindings s) \<rparr>"
  | b state h where "is_current wa (os_generation s)" "fmlookup (os_bindings s) cursor = Some (BindResumeCursor b)"
      "rb_transfer_id b = tid" "next = Some state" "n = Some h" "h \<noteq> cursor" "fmlookup (os_bindings s) h = None"
      "s' = s\<lparr> os_bindings := map_insert h
         (BindResumeCursor \<lparr> rb_transfer_id = tid, rb_proof_id = rb_proof_id b, rb_state = state \<rparr>)
         (map_remove cursor (os_bindings s)) \<rparr>"
proof -
  from assms obtain b where b: "is_current wa (os_generation s)"
      "fmlookup (os_bindings s) cursor = Some (BindResumeCursor b)" "rb_transfer_id b = tid"
    by (auto simp: store_ops split: if_splits option.splits binding.splits)
  show thesis
  proof (cases "next")
    case None
    with assms b show ?thesis by (intro that(1) [of b]) (simp_all add: store_ops)
  next
    case (Some state)
    with assms b obtain h where h: "choose_fresh (ids HandleResumeCursor)
        (\<lambda>h. h \<noteq> cursor \<and> fmlookup (os_bindings s) h = None) = Some h"
      by (auto simp: store_ops split: option.splits)
    from choose_fresh_SomeD [OF h] assms b Some h show ?thesis
      by (intro that(2) [of b state h]) (simp_all add: store_ops)
  qed
qed

lemma on_store_cases:
  assumes "on_store g f st = (evs, st')"
  obtains "evs = []" "st' = st"
  | s s' where "fmlookup (wm_stores st) g = Some s" "f (wm_authority st) s = Ok (evs, s')"
      "st' = st\<lparr> wm_stores := map_insert g s' (wm_stores st) \<rparr>"
proof (cases "fmlookup (wm_stores st) g")
  case None
  with assms show ?thesis by (intro that(1)) (simp_all add: on_store_def)
next
  case (Some s)
  show ?thesis
  proof (cases "f (wm_authority st) s")
    case (Inl e)
    with assms Some show ?thesis by (intro that(1)) (simp_all add: on_store_def)
  next
    case (Inr r)
    with assms Some show ?thesis by (intro that(2) [of s "snd r"]) (auto simp: on_store_def split: prod.splits)
  qed
qed

lemma map_sum_Ok:
  "map_sum id f r = Ok y \<longleftrightarrow> (\<exists>x. r = Ok x \<and> y = f x)"
  by (cases r) auto

text \<open>The three laws, for one store: \<open>store_law\<close> is what each of its operations has to satisfy.\<close>

definition store_law :: "connection_generation \<Rightarrow> operation_store \<Rightarrow> worker_event list \<Rightarrow> operation_store \<Rightarrow> bool" where
  "store_law g s evs s' \<longleftrightarrow>
     (\<forall>h. uses (g, h) evs + live (fmlookup (os_bindings s') h) \<le> live (fmlookup (os_bindings s) h) + mints (g, h) evs) \<and>
     (\<forall>h b. fmlookup (os_bindings s') h = Some b \<longrightarrow>
        fmlookup (os_bindings s) h = Some b \<or> Minted (g, h) b \<in> set evs) \<and>
     (\<forall>h b. Consumed (g, h) b \<in> set evs \<longrightarrow> fmlookup (os_bindings s) h = Some b) \<and>
     (\<forall>e \<in> set evs. fst (event_key e) = g)"

lemmas store_law_simps = store_law_def uses_def mints_def live_def

lemma insert_law:
  assumes "insert_fresh wa ids kind b s = Ok (h, s')"
  shows "store_law g s [Minted (g, h) b] s'"
  using inserted(3,4) [OF assms] by (simp add: store_law_simps)

lemma remove_law:
  "fmlookup (os_bindings s) h = Some b \<Longrightarrow>
   store_law g s [Consumed (g, h) b] (s\<lparr> os_bindings := map_remove h (os_bindings s) \<rparr>)"
  by (simp add: store_law_simps)

lemma advance_law:
  assumes "advance_resume_cursor wa ids cursor tid next s = Ok (n, s')"
  shows "store_law g s (advance_events g cursor s n s') s'"
  using assms
proof (cases rule: cursor_advanced)
  case (1 b)
  then show ?thesis using remove_law [OF 1(2), of g] by (simp add: advance_events_def)
next
  case (2 b state h)
  then show ?thesis by (simp add: advance_events_def store_law_simps)
qed

lemma snapshot_law:
  "os_bindings s' = os_bindings s \<Longrightarrow> store_law g s [] s'"
  by (simp add: store_law_simps)

lemma map_len_remove_live: "fmlookup m k = Some v \<Longrightarrow> Suc (map_len (map_remove k m)) = map_len m"
  using fcard_Suc_fminus1 [OF fmdomI, of m k v] by (simp add: map_len_def map_remove_def)

text \<open>An operation on a store, with the bound and the currency it also respects.\<close>

definition store_move ::
  "worker_authority \<Rightarrow> connection_generation \<Rightarrow> operation_store \<Rightarrow> worker_event list \<Rightarrow> operation_store \<Rightarrow> bool" where
  "store_move wa g s evs s' \<longleftrightarrow> store_law g s evs s' \<and> os_generation s' = os_generation s \<and>
     (store_ok s \<longrightarrow> store_ok s') \<and> (evs \<noteq> [] \<longrightarrow> is_current wa (os_generation s))"

lemma insert_move:
  assumes "insert_fresh wa ids kind b s = Ok (h, s')"
  shows "store_move wa g s [Minted (g, h) b] s'"
  using insert_law [OF assms, of g] inserted [OF assms] by (auto simp: store_move_def store_ok_def)

lemma remove_move:
  assumes "fmlookup (os_bindings s) h = Some b" "is_current wa (os_generation s)"
  shows "store_move wa g s [Consumed (g, h) b] (s\<lparr> os_bindings := map_remove h (os_bindings s) \<rparr>)"
  using remove_law [OF assms(1), of g] assms(2) map_len_remove_live [OF assms(1)]
  by (auto simp: store_move_def store_ok_def)

lemma acceptance_move:
  assumes "consume_acceptance wa h tid i s = Ok (b, s')"
  shows "store_move wa g s [Consumed (g, h) (BindAcceptance b)] s'"
  using remove_move [OF acceptance_consumed(2,1) [OF assms]] acceptance_consumed(5) [OF assms] by simp

lemma verification_move:
  assumes "consume_verification wa h s = Ok (b, s')"
  shows "store_move wa g s [Consumed (g, h) (BindVerification b)] s'"
  using remove_move [OF verification_consumed(2,1) [OF assms]] verification_consumed(3) [OF assms] by simp

lemma advance_move:
  assumes "advance_resume_cursor wa ids cursor tid next s = Ok (n, s')"
  shows "store_move wa g s (advance_events g cursor s n s') s'"
proof -
  from assms have "os_generation s' = os_generation s \<and> (store_ok s \<longrightarrow> store_ok s') \<and> is_current wa (os_generation s)"
  proof (cases rule: cursor_advanced)
    case (1 b)
    then show ?thesis using map_len_remove_live [OF 1(2)] by (simp add: store_ok_def)
  next
    case (2 b state h)
    then show ?thesis using map_len_remove_live [OF 2(2)] by (simp add: store_ok_def)
  qed
  then show ?thesis using advance_law [OF assms, of g] by (simp add: store_move_def)
qed

lemma register_move:
  assumes "register_resume_snapshot wa draw snapshot s = Ok (i, s')"
  shows "store_move wa g s [] s'"
  using snapshot_registered [OF assms] by (auto simp: store_move_def store_ok_def intro: snapshot_law)

lemma drop_move: "store_move wa g s [] (drop_resume_snapshot wa i s)"
  using map_len_remove [of i "os_resume_snapshots s"]
  by (auto simp: store_move_def store_ok_def drop_resume_snapshot_def intro: snapshot_law)

lemma on_store_moves:
  assumes "on_store g f st = (evs, st')"
    and "\<And>s evs s'. f (wm_authority st) s = Ok (evs, s') \<Longrightarrow> store_move (wm_authority st) g s evs s'"
  shows "evs = [] \<and> st' = st \<or>
    (\<exists>g s s'. fmlookup (wm_stores st) g = Some s \<and> store_move (wm_authority st) g s evs s' \<and>
       st' = st\<lparr> wm_stores := map_insert g s' (wm_stores st) \<rparr>)"
  using assms(1)
proof (cases rule: on_store_cases)
  case (2 s s')
  then show ?thesis using assms(2) [OF 2(2)] by blast
qed simp

lemma store_step_moves:
  assumes "worker_step op st = (evs, st')" "\<forall>w. op \<noteq> WorkerConnect w" "\<forall>g. op \<noteq> WorkerDisconnect g"
  shows "evs = [] \<and> st' = st \<or>
    (\<exists>g s s'. fmlookup (wm_stores st) g = Some s \<and> store_move (wm_authority st) g s evs s' \<and>
       st' = st\<lparr> wm_stores := map_insert g s' (wm_stores st) \<rparr>)"
proof (cases op)
  case (WorkerMint g ids kind b)
  with assms(1) have "on_store g
      (\<lambda>wa s. map_sum id (\<lambda>(h, s'). ([Minted (g, h) b], s')) (insert_fresh wa ids kind b s)) st = (evs, st')"
    by simp
  then show ?thesis by (rule on_store_moves) (auto simp: map_sum_Ok insert_move)
next
  case (WorkerConsumeAcceptance g h tid i)
  with assms(1) have "on_store g (\<lambda>wa s. map_sum id
      (\<lambda>(b, s'). ([Consumed (g, h) (BindAcceptance b)], s')) (consume_acceptance wa h tid i s)) st = (evs, st')"
    by simp
  then show ?thesis by (rule on_store_moves) (auto simp: map_sum_Ok acceptance_move)
next
  case (WorkerConsumeVerification g h)
  with assms(1) have "on_store g (\<lambda>wa s. map_sum id
      (\<lambda>(b, s'). ([Consumed (g, h) (BindVerification b)], s')) (consume_verification wa h s)) st = (evs, st')"
    by simp
  then show ?thesis by (rule on_store_moves) (auto simp: map_sum_Ok verification_move)
next
  case (WorkerAdvance g ids h tid n)
  with assms(1) have "on_store g (\<lambda>wa s. map_sum id
      (\<lambda>(n, s'). (advance_events g h s n s', s')) (advance_resume_cursor wa ids h tid n s)) st = (evs, st')"
    by simp
  then show ?thesis by (rule on_store_moves) (auto simp: map_sum_Ok advance_move)
next
  case (WorkerRegister g draw snapshot)
  with assms(1) have "on_store g
      (\<lambda>wa s. map_sum id (\<lambda>(i, s'). ([], s')) (register_resume_snapshot wa draw snapshot s)) st = (evs, st')"
    by simp
  then show ?thesis by (rule on_store_moves) (auto simp: map_sum_Ok register_move)
next
  case (WorkerDrop g i)
  with assms(1) have "on_store g (\<lambda>wa s. Ok ([], drop_resume_snapshot wa i s)) st = (evs, st')"
    by simp
  then show ?thesis by (rule on_store_moves) (auto simp: drop_move)
qed (use assms in auto)

lemma worker_step_cases [consumes 1, case_names Connect Disconnect Idle Store]:
  assumes "worker_step op st = (evs, st')"
  obtains w where "evs = []" "st' = connect_worker w st"
  | g where "evs = []" "st' = disconnect_worker g st"
  | "evs = []" "st' = st"
  | g s s' where "fmlookup (wm_stores st) g = Some s" "store_move (wm_authority st) g s evs s'"
      "st' = st\<lparr> wm_stores := map_insert g s' (wm_stores st) \<rparr>"
proof -
  consider (C) w where "op = WorkerConnect w" | (D) g where "op = WorkerDisconnect g"
    | (S) "\<forall>w. op \<noteq> WorkerConnect w" "\<forall>g. op \<noteq> WorkerDisconnect g" by blast
  then show thesis
  proof cases
    case (C w)
    with assms show thesis by (intro that(1) [of w]) simp_all
  next
    case (D g)
    with assms show thesis by (intro that(2) [of g]) simp_all
  next
    case S
    from store_step_moves [OF assms this] show thesis by (elim disjE exE conjE) (erule that(3) that(4), assumption+)+
  qed
qed

section \<open>The laws for the machine\<close>

lemma binding_of_connect:
  "binding_of (connect_worker w st) k =
     (if fst k = wa_next_generation (wm_authority st) then None else binding_of st k)"
  by (simp add: binding_of_def connect_worker_def begin_generation_def operation_store_new_def Let_def)

lemma binding_of_disconnect:
  "binding_of (disconnect_worker g st) k = (if fst k = g then None else binding_of st k)"
  by (simp add: binding_of_def disconnect_worker_def)

lemma binding_of_store:
  "binding_of (st\<lparr> wm_stores := map_insert g s (wm_stores st) \<rparr>) k =
     (if fst k = g then fmlookup (os_bindings s) (snd k) else binding_of st k)"
  by (simp add: binding_of_def)

lemma uses_of_other: "\<forall>e \<in> set evs. fst (event_key e) = g \<Longrightarrow> fst k \<noteq> g \<Longrightarrow> uses k evs = 0"
  by (auto simp: uses_def filter_empty_conv split: handle_event.splits)

lemma store_move_law:
  assumes "store_move wa g s evs s'"
  shows "uses (g, h) evs + live (fmlookup (os_bindings s') h) \<le> live (fmlookup (os_bindings s) h) + mints (g, h) evs"
    and "fmlookup (os_bindings s') h = Some b \<Longrightarrow> fmlookup (os_bindings s) h = Some b \<or> Minted (g, h) b \<in> set evs"
    and "Consumed k b \<in> set evs \<Longrightarrow> fst k = g \<and> fmlookup (os_bindings s) (snd k) = Some b"
    and "\<forall>e \<in> set evs. fst (event_key e) = g"
    and "e \<in> set evs \<Longrightarrow> is_current wa (os_generation s)"
proof -
  from assms have law: "store_law g s evs s'" and cur: "evs \<noteq> [] \<longrightarrow> is_current wa (os_generation s)"
    by (auto simp: store_move_def)
  from law show "uses (g, h) evs + live (fmlookup (os_bindings s') h) \<le> live (fmlookup (os_bindings s) h) + mints (g, h) evs"
    by (simp add: store_law_def)
  from law show "fmlookup (os_bindings s') h = Some b \<Longrightarrow> fmlookup (os_bindings s) h = Some b \<or> Minted (g, h) b \<in> set evs"
    by (simp add: store_law_def)
  from law show keys: "\<forall>e \<in> set evs. fst (event_key e) = g" by (simp add: store_law_def)
  from law keys show "Consumed k b \<in> set evs \<Longrightarrow> fst k = g \<and> fmlookup (os_bindings s) (snd k) = Some b"
    by (cases k) (fastforce simp: store_law_def)
  from cur show "e \<in> set evs \<Longrightarrow> is_current wa (os_generation s)" by auto
qed

interpretation worker_handles: single_use worker_step binding_of
proof
  fix op s evs t k
  assume "worker_step op s = (evs, t)"
  then show "uses k evs + live (binding_of t k) \<le> live (binding_of s k) + mints k evs"
  proof (cases rule: worker_step_cases)
    case (Store g s0 s1)
    then have "binding_of s (g, h) = fmlookup (os_bindings s0) h" for h by (simp add: binding_of_def)
    then show ?thesis
      using Store(3) store_move_law(1) [OF Store(2), of "snd k"] uses_of_other [OF store_move_law(4) [OF Store(2)], of k]
      by (cases k) (auto simp: binding_of_store)
  qed (simp_all add: binding_of_connect binding_of_disconnect uses_def mints_def live_def)
next
  fix op s evs t k b
  assume "worker_step op s = (evs, t)" "binding_of t k = Some b"
  then show "binding_of s k = Some b \<or> Minted k b \<in> set evs"
  proof (cases rule: worker_step_cases)
    case (Store g s0 s1)
    then have "binding_of s (g, h) = fmlookup (os_bindings s0) h" for h by (simp add: binding_of_def)
    then show ?thesis
      using Store(3) \<open>binding_of t k = Some b\<close> store_move_law(2) [OF Store(2), of "snd k" b]
      by (cases k) (auto simp: binding_of_store split: if_splits)
  qed (simp_all add: binding_of_connect binding_of_disconnect split: if_splits)
next
  fix op s evs t k b
  assume "worker_step op s = (evs, t)" "Consumed k b \<in> set evs"
  then show "binding_of s k = Some b"
  proof (cases rule: worker_step_cases)
    case (Store g s0 s1)
    then show ?thesis
      using \<open>Consumed k b \<in> set evs\<close> store_move_law(3) [OF Store(2), of k b] by (auto simp: binding_of_def)
  qed simp_all
qed

lemma connect_ok: "worker_ok st \<Longrightarrow> worker_ok (connect_worker w st)"
  by (auto simp: worker_ok_def connect_worker_def begin_generation_def operation_store_new_def store_ok_def Let_def
      split: if_splits)

lemma worker_step_ok:
  assumes "worker_ok st" "worker_step op st = (evs, st')"
  shows "worker_ok st'"
  using assms(2)
proof (cases rule: worker_step_cases)
  case (Connect w)
  then show ?thesis using connect_ok [OF assms(1)] by simp
next
  case (Disconnect g)
  then show ?thesis using assms(1) by (auto simp: worker_ok_def disconnect_worker_def split: if_splits)
next
  case (Store g s s')
  then show ?thesis using assms(1) by (auto simp: worker_ok_def store_move_def split: if_splits)
qed (use assms(1) in simp)

inductive worker_moves :: "worker_machine \<Rightarrow> worker_machine \<Rightarrow> bool" where
  worker_moves_op: "worker_step op st = (evs, st') \<Longrightarrow> worker_moves st st'"

interpretation worker_machine: invariant_machine "\<lambda>st. \<exists>capacity. st = worker_boot capacity" worker_moves worker_ok
proof
  fix s assume "\<exists>capacity. s = worker_boot capacity"
  then show "worker_ok s" by (auto simp: worker_ok_def worker_boot_def)
next
  fix s t assume "worker_ok s" "worker_moves s t"
  then show "worker_ok t" by (auto elim!: worker_moves.cases intro: worker_step_ok)
qed

lemma log_run_moves: "log_run worker_step ops st = (evs, st') \<Longrightarrow> worker_moves\<^sup>*\<^sup>* st st'"
proof (induction ops arbitrary: st evs)
  case (Cons op ops)
  then obtain evs1 st1 evs2 where run: "worker_step op st = (evs1, st1)" "log_run worker_step ops st1 = (evs2, st')"
    by (auto split: prod.splits)
  show ?case using worker_moves_op [OF run(1)] Cons.IH [OF run(2)] by (rule converse_rtranclp_into_rtranclp)
qed simp

section \<open>Retired generations\<close>

text \<open>
  Generations are numbered by a 64-bit counter; as long as it has not wrapped, a generation that was
  current once and is not any more never acts again.
\<close>

definition issued :: "worker_authority \<Rightarrow> connection_generation \<Rightarrow> bool" where
  "issued wa g \<longleftrightarrow> unat g < unat (wa_next_generation wa)"

definition authority_ok :: "worker_authority \<Rightarrow> bool" where
  "authority_ok wa \<longleftrightarrow> (\<forall>g. is_current wa g \<longrightarrow> issued wa g)"

lemma connect_authority [simp]:
  "wa_next_generation (wm_authority (connect_worker w st)) = wa_next_generation (wm_authority st) + 1"
  "is_current (wm_authority (connect_worker w st)) g \<longleftrightarrow> g = wa_next_generation (wm_authority st)"
  by (auto simp: connect_worker_def begin_generation_def set_current_operations_def is_current_def Let_def)

lemma disconnect_authority [simp]:
  "wa_next_generation (wm_authority (disconnect_worker g' st)) = wa_next_generation (wm_authority st)"
  "is_current (wm_authority (disconnect_worker g' st)) g \<longleftrightarrow> is_current (wm_authority st) g \<and> g \<noteq> g'"
  by (auto simp: disconnect_worker_def end_generation_def is_current_def split: worker_control_state.splits)

lemma unat_next_generation:
  "unat (n :: u64) + 1 < 2 ^ 64 \<Longrightarrow> unat (n + 1) = unat n + 1"
  by (subst unat_add_lem [THEN iffD1]) simp_all

lemma step_authority:
  assumes "worker_step op st = (evs, st')" "unat (wa_next_generation (wm_authority st)) + 1 < 2 ^ 64"
  shows "unat (wa_next_generation (wm_authority st')) \<le> unat (wa_next_generation (wm_authority st)) + 1"
    and "issued (wm_authority st) g \<Longrightarrow> issued (wm_authority st') g"
    and "authority_ok (wm_authority st) \<Longrightarrow> authority_ok (wm_authority st')"
    and "issued (wm_authority st) g \<Longrightarrow> \<not> is_current (wm_authority st) g \<Longrightarrow> \<not> is_current (wm_authority st') g"
  using assms(1) unat_next_generation [OF assms(2)]
  by (cases rule: worker_step_cases; auto simp: issued_def authority_ok_def)+

lemma step_events_current:
  assumes "worker_ok st" "worker_step op st = (evs, st')" "e \<in> set evs"
  shows "is_current (wm_authority st) (fst (event_key e))"
  using assms(2)
proof (cases rule: worker_step_cases)
  case (Store g s s')
  then have "os_generation s = g" using assms(1) by (auto simp: worker_ok_def)
  then show ?thesis using store_move_law(4,5) [OF Store(2)] assms(3) by auto
qed (use assms(3) in auto)

lemma run_authority:
  assumes "log_run worker_step ops st = (evs, st')" "worker_ok st" "authority_ok (wm_authority st)"
    and "unat (wa_next_generation (wm_authority st)) + length ops < 2 ^ 64"
  shows "unat (wa_next_generation (wm_authority st')) \<le> unat (wa_next_generation (wm_authority st)) + length ops"
    and "authority_ok (wm_authority st')"
    and "issued (wm_authority st) g \<Longrightarrow> issued (wm_authority st') g"
    and "e \<in> set evs \<Longrightarrow> issued (wm_authority st') (fst (event_key e))"
    and "issued (wm_authority st) g \<Longrightarrow> \<not> is_current (wm_authority st) g \<Longrightarrow> e \<in> set evs \<Longrightarrow> fst (event_key e) \<noteq> g"
proof -
  have "unat (wa_next_generation (wm_authority st')) \<le> unat (wa_next_generation (wm_authority st)) + length ops \<and>
     authority_ok (wm_authority st') \<and>
     (\<forall>g. issued (wm_authority st) g \<longrightarrow> issued (wm_authority st') g) \<and>
     (\<forall>e \<in> set evs. issued (wm_authority st') (fst (event_key e))) \<and>
     (\<forall>g. issued (wm_authority st) g \<longrightarrow> \<not> is_current (wm_authority st) g \<longrightarrow> (\<forall>e \<in> set evs. fst (event_key e) \<noteq> g))"
    using assms
  proof (induction ops arbitrary: st evs)
    case (Cons op ops)
    from Cons.prems(1) obtain evs1 st1 evs2
      where run: "worker_step op st = (evs1, st1)" "log_run worker_step ops st1 = (evs2, st')" "evs = evs1 @ evs2"
      by (auto split: prod.splits)
    have room: "unat (wa_next_generation (wm_authority st)) + 1 < 2 ^ 64" using Cons.prems(4) by simp
    note step = step_authority [OF run(1) room]
    note cur = step_events_current [OF Cons.prems(2) run(1)]
    have rest: "unat (wa_next_generation (wm_authority st1)) + length ops < 2 ^ 64"
      using step(1) Cons.prems(4) by simp
    note IH = Cons.IH [OF run(2) worker_step_ok [OF Cons.prems(2) run(1)] step(3) [OF Cons.prems(3)] rest]
    have first: "issued (wm_authority st1) (fst (event_key e))" if "e \<in> set evs1" for e
      using cur [OF that] Cons.prems(3) step(2) by (auto simp: authority_ok_def)
    have later: "fst (event_key e) \<noteq> g"
      if "issued (wm_authority st) g" "\<not> is_current (wm_authority st) g" "e \<in> set evs2" for e g
      using IH step(2,4) [OF that(1)] that(2,3) by blast
    show ?case using IH step(1,2) first later cur run(3) by auto
  qed simp
  then show "unat (wa_next_generation (wm_authority st')) \<le> unat (wa_next_generation (wm_authority st)) + length ops"
    and "authority_ok (wm_authority st')"
    and "issued (wm_authority st) g \<Longrightarrow> issued (wm_authority st') g"
    and "e \<in> set evs \<Longrightarrow> issued (wm_authority st') (fst (event_key e))"
    and "issued (wm_authority st) g \<Longrightarrow> \<not> is_current (wm_authority st) g \<Longrightarrow> e \<in> set evs \<Longrightarrow> fst (event_key e) \<noteq> g"
    by blast+
qed

end
