(* ===== verification/Worker_Control.thy ===== *)
theory Worker_Control
  imports Authorization_Service Worker_Messages Worker_Operations
begin

text \<open>
  What the server answers to its Worker, \<open>src/crates/server/src/adapters/worker_control_plane.rs\<close>: the
  handshake, one handler per request and the loop that dispatches to them.

  A handler takes the registry, the transient store of its connection, the identifier its reply
  draws, the identifiers a mint may draw and whatever the application service behind it takes; it
  gives back the reply and the changed states. A request that is dropped without an answer is the
  reply \<open>None\<close>. The text of a \<open>ProtocolError\<close> for an unknown type quotes that type; the quoting is
  an argument.

  The lemmas show what the handlers keep of the store and that the pages of one resume query cut its
  snapshot into consecutive slices.
\<close>

section \<open>Handshake\<close>

datatype handshake_error =
    HandshakeReceive receive_error
  | HandshakeSend
  | HandshakePreViolation
  | HandshakeIncompatibleVersion
  | HandshakeMalformedIdentity
  | HandshakeUnknownMessageType

text \<open>\<open>send_ok\<close> says whether the one reply that is not best-effort goes out.\<close>

definition handshake_as_server ::
  "uuid_api \<Rightarrow> (string \<Rightarrow> string) \<Rightarrow> bool \<Rightarrow> uuid \<Rightarrow> receive_error + worker_protocol_message \<Rightarrow>
   worker_protocol_message option \<times> (handshake_error + uuid)" where
  "handshake_as_server api quote send_ok message_id received =
     (case received of
        Inl (ReceiveDecode (DecodeUnknownType ty)) \<Rightarrow>
          (Some (ProtocolError (protocol_error_new message_id ''unknown_message_type''
                   (Some (''unrecognized type '' @ quote ty)) None)),
           Err HandshakeUnknownMessageType)
      | Inl e \<Rightarrow> (None, Err (HandshakeReceive e))
      | Inr (WorkerHello hello) \<Rightarrow>
          if \<not> envelope_is_valid api (ms_envelope hello) \<or>
             \<not> is_uuid_v4 api (wh_worker_instance_id (ms_body hello)) then
            (Some (ProtocolError (protocol_error_new message_id ''malformed_handshake_identity'' None
                     (Some (ev_message_id (ms_envelope hello))))),
             Err HandshakeMalformedIdentity)
          else if \<not> is_v1 (wh_worker_protocol_version (ms_body hello)) then
            (Some (HandshakeRejected (incompatible_version message_id (ev_message_id (ms_envelope hello)))),
             Err HandshakeIncompatibleVersion)
          else
            (Some (ServerHello (server_hello_new message_id (ev_message_id (ms_envelope hello)))),
             if send_ok then Ok (wh_worker_instance_id (ms_body hello)) else Err HandshakeSend)
      | Inr _ \<Rightarrow>
          (Some (ProtocolError (protocol_error_new message_id ''pre_handshake_violation'' None None)),
           Err HandshakePreViolation))"

section \<open>The handlers\<close>

fun to_wire_digest_algorithm :: "digest_algorithm \<Rightarrow> wire_digest_algorithm" where
  "to_wire_digest_algorithm Sha256 = WireSha256"

definition decide_authorization_query ::
  "worker_authority \<Rightarrow> id_source \<Rightarrow> auth_env \<Rightarrow> capability_store \<Rightarrow> time
    \<Rightarrow> transfer_store_error + authorization_durable_state option \<Rightarrow> uuid
    \<Rightarrow> authorization_query_body message \<Rightarrow> replay_cache \<Rightarrow> operation_store
    \<Rightarrow> authorization_decision_body message \<times> replay_cache \<times> operation_store" where
  "decide_authorization_query wa ids env caps now loaded message_id query replay s =
     (let b = ms_body query;
          input = \<lparr> wq_token = aq_token b, wq_operation = ChunkUpload, wq_transfer_id = aq_transfer_id b,
                    wq_chunk_index = Some (aq_chunk_index b), wq_proof_id = aq_proof_id b,
                    wq_issued_at_millis = aq_issued_at b, wq_signature = aq_signature b \<rparr>;
          request_id = ev_message_id (ms_envelope query)
      in case decide_authorization env caps now loaded replay input of
           (replay', Inr (WorkerApproved algorithm sz expected)) \<Rightarrow>
             (case mint_acceptance wa ids
                     \<lparr> ak_transfer_id = TransferId (aq_transfer_id b), ak_chunk_index = aq_chunk_index b,
                       ak_proof_id = aq_proof_id b \<rparr> s of
                Inr (handle, s') \<Rightarrow>
                  (authorization_approved message_id request_id (to_wire_digest_algorithm algorithm) sz handle expected,
                   replay', s')
              | Inl _ \<Rightarrow> (authorization_denied message_id request_id, replay', s))
         | (replay', Inr WorkerDenied) \<Rightarrow> (authorization_denied message_id request_id, replay', s)
         | (replay', Inl _) \<Rightarrow> (authorization_denied message_id request_id, replay', s))"

definition handle_chunk_acceptance ::
  "worker_authority \<Rightarrow> b64_engine \<Rightarrow> uuid \<Rightarrow> chunk_acceptance_request_body message \<Rightarrow> transfer_db \<Rightarrow> operation_store
    \<Rightarrow> chunk_acceptance_decision_body message option \<times> transfer_db \<times> operation_store" where
  "handle_chunk_acceptance wa eng message_id request db s =
     (let b = ms_body request;
          in_reply_to = ev_message_id (ms_envelope request);
          tid = TransferId (cq_transfer_id b)
      in case consume_acceptance wa (cq_acceptance_handle b) tid (cq_chunk_index b) s of
           Inl _ \<Rightarrow> (None, db, s)
         | Inr (_, s') \<Rightarrow>
             (case commit_chunk_acceptance db eng tid (cq_chunk_index b) (cq_digest b) (cq_size b) of
                (db', Inr AcceptanceCommitted) \<Rightarrow> (Some (acceptance_committed message_id in_reply_to), db', s')
              | (db', Inr AcceptanceAlreadyCommitted) \<Rightarrow>
                  (Some (acceptance_already_committed message_id in_reply_to), db', s')
              | (db', Inr AcceptanceRejectedConflict) \<Rightarrow>
                  (Some (acceptance_rejected message_id in_reply_to ChunkIdentityConflict), db', s')
              | (db', Inr AcceptanceRejectedNotContinuable) \<Rightarrow>
                  (Some (acceptance_rejected message_id in_reply_to TransferNotContinuable), db', s')
              | (db', Inr AcceptanceFailedClosed) \<Rightarrow> (None, db', s')
              | (db', Inl _) \<Rightarrow> (None, db', s')))"

definition mint_sealed_reply ::
  "worker_authority \<Rightarrow> id_source \<Rightarrow> uuid \<Rightarrow> manifest_seal_request_body message \<Rightarrow> manifest_seal_outcome
    \<Rightarrow> sealed_manifest_facts \<Rightarrow> operation_store \<Rightarrow> manifest_seal_decision_body message option \<times> operation_store" where
  "mint_sealed_reply wa ids message_id request outcome facts s =
     (case mint_verification wa ids
             \<lparr> vb_transfer_id = TransferId (mq_transfer_id (ms_body request)),
               vb_artifact_id = sf_artifact_id facts, vb_chunk_count = sf_chunk_count facts,
               vb_expected_artifact_digest = sf_expected_artifact_digest facts,
               vb_proof_id = mq_proof_id (ms_body request) \<rparr> s of
        Inl _ \<Rightarrow> (None, s)
      | Inr (handle, s') \<Rightarrow>
          (Some (seal_committed message_id (ev_message_id (ms_envelope request)) outcome
             \<lparr> wf_verification_handle = handle,
               wf_artifact_id = (case sf_artifact_id facts of ArtifactId u \<Rightarrow> u),
               wf_digest_algorithm = to_wire_digest_algorithm (sf_digest_algorithm facts),
               wf_chunk_size = sf_chunk_size facts, wf_chunk_count = sf_chunk_count facts,
               wf_expected_artifact_digest = sf_expected_artifact_digest facts \<rparr>), s'))"

definition handle_manifest_seal ::
  "worker_authority \<Rightarrow> id_source \<Rightarrow> auth_env \<Rightarrow> capability_store \<Rightarrow> time
    \<Rightarrow> (endpoint_id \<Rightarrow> endpoint_aggregate option) \<Rightarrow> uuid \<Rightarrow> manifest_seal_request_body message
    \<Rightarrow> replay_cache \<Rightarrow> transfer_db \<Rightarrow> operation_store
    \<Rightarrow> manifest_seal_decision_body message option \<times> replay_cache \<times> transfer_db \<times> operation_store" where
  "handle_manifest_seal wa ids env caps now endpoints message_id request replay db s =
     (let b = ms_body request;
          in_reply_to = ev_message_id (ms_envelope request);
          input = \<lparr> si_token = mq_token b, si_transfer_id = mq_transfer_id b, si_proof_id = mq_proof_id b,
                    si_issued_at_millis = mq_issued_at b, si_signature = mq_signature b,
                    si_chunk_count = mq_chunk_count b, si_artifact_digest = mq_artifact_digest b \<rparr>
      in case commit_manifest_seal env caps now endpoints replay db input of
           (replay', db', Inl _) \<Rightarrow> (None, replay', db', s)
         | (replay', db', Inr SealRejectedIncomplete) \<Rightarrow>
             (Some (seal_bare message_id in_reply_to MS_Rejected (Some IncompleteManifest)), replay', db', s)
         | (replay', db', Inr SealRejectedAlreadySealed) \<Rightarrow>
             (Some (seal_bare message_id in_reply_to MS_Rejected (Some ManifestAlreadySealed)), replay', db', s)
         | (replay', db', Inr SealCommitDenied) \<Rightarrow>
             (Some (seal_bare message_id in_reply_to MS_Denied None), replay', db', s)
         | (replay', db', Inr SealCommitFailClosed) \<Rightarrow> (None, replay', db', s)
         | (replay', db', Inr (SealCommitted facts)) \<Rightarrow>
             (case mint_sealed_reply wa ids message_id request MS_Sealed facts s of
                (reply, s') \<Rightarrow> (reply, replay', db', s'))
         | (replay', db', Inr (SealCommitAlreadyPending facts)) \<Rightarrow>
             (case mint_sealed_reply wa ids message_id request MS_AlreadyPendingVerification facts s of
                (reply, s') \<Rightarrow> (reply, replay', db', s')))"

definition handle_artifact_verification ::
  "worker_authority \<Rightarrow> b64_engine \<Rightarrow> uuid \<Rightarrow> artifact_verification_report_body message \<Rightarrow> transfer_db
    \<Rightarrow> operation_store \<Rightarrow> artifact_verification_ack_body message option \<times> transfer_db \<times> operation_store" where
  "handle_artifact_verification wa eng message_id report db s =
     (case consume_verification wa (vr_verification_handle (ms_body report)) s of
        Inl _ \<Rightarrow> (None, db, s)
      | Inr (b, s') \<Rightarrow>
          (case commit_artifact_verification db eng
                  \<lparr> vi_transfer_id = vb_transfer_id b, vi_artifact_id = vb_artifact_id b,
                    vi_chunk_count = vb_chunk_count b,
                    vi_bound_expected_artifact_digest = vb_expected_artifact_digest b,
                    vi_computed_artifact_digest = vr_computed_artifact_digest (ms_body report) \<rparr> of
             (db', Inr (VerificationCommitted verified)) \<Rightarrow>
               (Some (message_new message_id
                  \<lparr> va_in_reply_to = ev_message_id (ms_envelope report),
                    va_artifact_status = (if verified then WireVerified else WireFailed) \<rparr>), db', s')
           | (db', Inr VerificationFailClosed) \<Rightarrow> (None, db', s')
           | (db', Inl _) \<Rightarrow> (None, db', s')))"

section \<open>Pages\<close>

definition RESUME_PAGE_MAX_HELD_CHUNKS :: nat where
  "RESUME_PAGE_MAX_HELD_CHUNKS = 8192"

definition held_chunk_wire :: "held_chunk_entry \<Rightarrow> held_chunk" where
  "held_chunk_wire e = \<lparr> hc_chunk_index = he_chunk_index e, hc_digest = he_digest e \<rparr>"

definition resume_query_input :: "resume_discovery_query_body message \<Rightarrow> worker_authorization_query_input" where
  "resume_query_input query =
     (let b = ms_body query in
      \<lparr> wq_token = dq_token b, wq_operation = ResumeDiscovery, wq_transfer_id = dq_transfer_id b,
        wq_chunk_index = None, wq_proof_id = dq_proof_id b, wq_issued_at_millis = dq_issued_at b,
        wq_signature = dq_signature b \<rparr>)"

definition held_entries :: "resume_held_chunk list \<Rightarrow> held_chunk_entry list" where
  "held_entries = map (\<lambda>h. \<lparr> he_chunk_index = rh_chunk_index h, he_digest = rh_digest_wire h \<rparr>)"

text \<open>The part of the query handler after the authorization.\<close>

definition answer_resume_query ::
  "worker_authority \<Rightarrow> id_source \<Rightarrow> uuid_source \<Rightarrow> uuid \<Rightarrow> nat \<Rightarrow> resume_discovery_query_body message
    \<Rightarrow> resume_snapshot_facts \<Rightarrow> operation_store \<Rightarrow> resume_discovery_page_body message \<times> operation_store" where
  "answer_resume_query wa ids draw message_id page_size query snapshot s =
     (let in_reply_to = ev_message_id (ms_envelope query);
          tid = dq_transfer_id (ms_body query);
          algorithm = to_wire_digest_algorithm (rs_digest_algorithm snapshot);
          held = held_entries (rs_held snapshot);
          page_end = min page_size (length held);
          first_slice = map held_chunk_wire (take page_end held);
          page = first_page message_id in_reply_to tid (rs_sealed snapshot) algorithm (rs_chunk_size snapshot)
                   (rs_expected_chunk_count snapshot) first_slice
      in if \<not> page_end < length held then (page None, s)
         else
           (let next_chunk_index = he_chunk_index (held ! (page_end - 1)) + 1;
                stored = \<lparr> sn_transfer_id = TransferId tid, sn_sealed = rs_sealed snapshot,
                           sn_digest_algorithm = rs_digest_algorithm snapshot,
                           sn_chunk_size = rs_chunk_size snapshot,
                           sn_expected_chunk_count = rs_expected_chunk_count snapshot, sn_held = held \<rparr>
            in case register_resume_snapshot wa draw stored s of
                 Inl _ \<Rightarrow> (page_denied message_id in_reply_to, s)
               | Inr (snapshot_id, s1) \<Rightarrow>
                   (case mint_resume_cursor wa ids
                           \<lparr> rb_transfer_id = TransferId tid, rb_proof_id = dq_proof_id (ms_body query),
                             rb_state = \<lparr> cs_snapshot_id = snapshot_id, cs_next_chunk_index = next_chunk_index \<rparr> \<rparr> s1 of
                      Inl _ \<Rightarrow> (page_denied message_id in_reply_to, drop_resume_snapshot wa snapshot_id s1)
                    | Inr (cursor, s2) \<Rightarrow> (page (Some cursor), s2))))"

definition handle_resume_discovery_query ::
  "worker_authority \<Rightarrow> id_source \<Rightarrow> uuid_source \<Rightarrow> auth_env \<Rightarrow> capability_store \<Rightarrow> time
    \<Rightarrow> transfer_store_error + authorization_durable_state option \<Rightarrow> uuid \<Rightarrow> nat
    \<Rightarrow> resume_discovery_query_body message \<Rightarrow> replay_cache \<Rightarrow> operation_store
    \<Rightarrow> resume_discovery_page_body message \<times> replay_cache \<times> operation_store" where
  "handle_resume_discovery_query wa ids draw env caps now loaded message_id page_size query replay s =
     (case authorize_resume_discovery env caps now loaded replay (resume_query_input query) of
        (replay', Inr (ResumeApproved snapshot)) \<Rightarrow>
          (case answer_resume_query wa ids draw message_id page_size query snapshot s of
             (page, s') \<Rightarrow> (page, replay', s'))
      | (replay', _) \<Rightarrow> (page_denied message_id (ev_message_id (ms_envelope query)), replay', s))"

text \<open>\<open>partition_point\<close> of the standard library, on a slice the predicate partitions.\<close>

definition partition_point :: "('a \<Rightarrow> bool) \<Rightarrow> 'a list \<Rightarrow> nat" where
  "partition_point P xs = length (takeWhile P xs)"

definition handle_resume_discovery_continue ::
  "worker_authority \<Rightarrow> id_source \<Rightarrow> uuid \<Rightarrow> nat \<Rightarrow> resume_discovery_continue_body message \<Rightarrow> operation_store
    \<Rightarrow> resume_discovery_page_body message \<times> operation_store" where
  "handle_resume_discovery_continue wa ids message_id page_size cont s =
     (let in_reply_to = ev_message_id (ms_envelope cont);
          cursor = rc_resume_cursor (ms_body cont);
          denied = page_denied message_id in_reply_to
      in case resume_cursor_binding_of wa s cursor of
           None \<Rightarrow> (denied, s)
         | Some b \<Rightarrow>
             (let snapshot_id = cs_snapshot_id (rb_state b) in
              case resume_snapshot_of wa s snapshot_id of
                None \<Rightarrow> (denied, s)
              | Some snapshot \<Rightarrow>
                  (let held = sn_held snapshot;
                       start = partition_point (\<lambda>e. he_chunk_index e < cs_next_chunk_index (rb_state b)) held;
                       end_index = min (start + page_size) (length held);
                       slice = map held_chunk_wire (drop start (take end_index held))
                   in if end_index < length held then
                        (case advance_resume_cursor wa ids cursor (rb_transfer_id b)
                                (Some \<lparr> cs_snapshot_id = snapshot_id,
                                        cs_next_chunk_index = he_chunk_index (held ! (end_index - 1)) + 1 \<rparr>) s of
                           Inr (Some next_cursor, s') \<Rightarrow>
                             (continuation_page message_id in_reply_to slice (Some next_cursor), s')
                         | Inr (None, s') \<Rightarrow> (denied, drop_resume_snapshot wa snapshot_id s')
                         | Inl _ \<Rightarrow> (denied, drop_resume_snapshot wa snapshot_id s))
                      else
                        (case advance_resume_cursor wa ids cursor (rb_transfer_id b) None s of
                           Inr (None, s') \<Rightarrow>
                             (continuation_page message_id in_reply_to slice None, drop_resume_snapshot wa snapshot_id s')
                         | Inr (Some _, s') \<Rightarrow> (denied, drop_resume_snapshot wa snapshot_id s')
                         | Inl _ \<Rightarrow> (denied, drop_resume_snapshot wa snapshot_id s)))))"

section \<open>The message loop\<close>

text \<open>
  What one turn of a connection's loop reads from its surroundings, and the states it may change. A
  reply that cannot be sent ends the loop, except for the best-effort protocol errors.
\<close>

record turn_context =
  tc_authority :: worker_authority
  tc_ids :: id_source
  tc_draw :: uuid_source
  tc_env :: auth_env
  tc_capabilities :: capability_store
  tc_now :: time
  tc_loaded :: "transfer_store_error + authorization_durable_state option"
  tc_endpoints :: "endpoint_id \<Rightarrow> endpoint_aggregate option"
  tc_message_id :: uuid
  tc_page_size :: nat
  tc_quote :: "string \<Rightarrow> string"
  tc_send_ok :: bool

record control_state =
  ct_replay :: replay_cache
  ct_db :: transfer_db
  ct_store :: operation_store

fun control_reply ::
  "turn_context \<Rightarrow> worker_protocol_message \<Rightarrow> control_state \<Rightarrow> worker_protocol_message option \<times> control_state" where
  "control_reply c (AuthorizationQuery q) st =
     (case decide_authorization_query (tc_authority c) (tc_ids c) (tc_env c) (tc_capabilities c) (tc_now c)
             (tc_loaded c) (tc_message_id c) q (ct_replay st) (ct_store st) of
        (reply, replay, s) \<Rightarrow> (Some (AuthorizationDecision reply), st\<lparr> ct_replay := replay, ct_store := s \<rparr>))"
| "control_reply c (ChunkAcceptanceRequest r) st =
     (case handle_chunk_acceptance (tc_authority c) (en_b64 (tc_env c)) (tc_message_id c) r (ct_db st) (ct_store st) of
        (reply, db, s) \<Rightarrow> (map_option ChunkAcceptanceDecision reply, st\<lparr> ct_db := db, ct_store := s \<rparr>))"
| "control_reply c (ResumeDiscoveryQuery q) st =
     (case handle_resume_discovery_query (tc_authority c) (tc_ids c) (tc_draw c) (tc_env c) (tc_capabilities c)
             (tc_now c) (tc_loaded c) (tc_message_id c) (tc_page_size c) q (ct_replay st) (ct_store st) of
        (page, replay, s) \<Rightarrow> (Some (ResumeDiscoveryPage page), st\<lparr> ct_replay := replay, ct_store := s \<rparr>))"
| "control_reply c (ResumeDiscoveryContinue m) st =
     (case handle_resume_discovery_continue (tc_authority c) (tc_ids c) (tc_message_id c) (tc_page_size c) m (ct_store st) of
        (page, s) \<Rightarrow> (Some (ResumeDiscoveryPage page), st\<lparr> ct_store := s \<rparr>))"
| "control_reply c (ManifestSealRequest r) st =
     (case handle_manifest_seal (tc_authority c) (tc_ids c) (tc_env c) (tc_capabilities c) (tc_now c) (tc_endpoints c)
             (tc_message_id c) r (ct_replay st) (ct_db st) (ct_store st) of
        (reply, replay, db, s) \<Rightarrow>
          (map_option ManifestSealDecision reply, \<lparr> ct_replay = replay, ct_db = db, ct_store = s \<rparr>))"
| "control_reply c (ArtifactVerificationReport r) st =
     (case handle_artifact_verification (tc_authority c) (en_b64 (tc_env c)) (tc_message_id c) r (ct_db st) (ct_store st) of
        (ack, db, s) \<Rightarrow> (map_option ArtifactVerificationAck ack, st\<lparr> ct_db := db, ct_store := s \<rparr>))"
| "control_reply c _ st =
     (Some (ProtocolError (protocol_error_new (tc_message_id c) ''unexpected_message'' None None)), st)"

text \<open>One turn: what is sent, whether the loop goes on, and the states after it.\<close>

definition control_turn ::
  "turn_context \<Rightarrow> receive_error + worker_protocol_message \<Rightarrow> control_state
    \<Rightarrow> worker_protocol_message option \<times> bool \<times> control_state" where
  "control_turn c received st =
     (case received of
        Inr m \<Rightarrow> (case control_reply c m st of
            (Some (ProtocolError e), st') \<Rightarrow> (Some (ProtocolError e), True, st')
          | (Some reply, st') \<Rightarrow> (Some reply, tc_send_ok c, st')
          | (None, st') \<Rightarrow> (None, True, st'))
      | Inl (ReceiveDecode (DecodeUnknownType ty)) \<Rightarrow>
          (Some (ProtocolError (protocol_error_new (tc_message_id c) ''unknown_message_type''
             (Some (''unrecognized type '' @ tc_quote c ty)) None)), True, st)
      | Inl _ \<Rightarrow> (None, False, st))"

section \<open>Replies\<close>

text \<open>The message a reply answers.\<close>

fun reply_target :: "worker_protocol_message \<Rightarrow> uuid option" where
  "reply_target (ServerHello m) = Some (sh_in_reply_to (ms_body m))"
| "reply_target (HandshakeRejected m) = Some (hr_in_reply_to (ms_body m))"
| "reply_target (AuthorizationDecision m) = Some (an_in_reply_to (ms_body m))"
| "reply_target (ChunkAcceptanceDecision m) = Some (cn_in_reply_to (ms_body m))"
| "reply_target (ResumeDiscoveryPage m) = Some (pg_in_reply_to (ms_body m))"
| "reply_target (ManifestSealDecision m) = Some (mn_in_reply_to (ms_body m))"
| "reply_target (ArtifactVerificationAck m) = Some (va_in_reply_to (ms_body m))"
| "reply_target (ProtocolError m) = pe_in_reply_to (ms_body m)"
| "reply_target _ = None"

fun answer_type :: "worker_protocol_message \<Rightarrow> string" where
  "answer_type (AuthorizationQuery _) = ''AuthorizationDecision''"
| "answer_type (ChunkAcceptanceRequest _) = ''ChunkAcceptanceDecision''"
| "answer_type (ResumeDiscoveryQuery _) = ''ResumeDiscoveryPage''"
| "answer_type (ResumeDiscoveryContinue _) = ''ResumeDiscoveryPage''"
| "answer_type (ManifestSealRequest _) = ''ManifestSealDecision''"
| "answer_type (ArtifactVerificationReport _) = ''ArtifactVerificationAck''"
| "answer_type _ = ''ProtocolError''"

section \<open>Slices\<close>

text \<open>A held set as the snapshots carry it: ascending, and no index at the end of the 64-bit range.\<close>

definition held_ok :: "held_chunk_entry list \<Rightarrow> bool" where
  "held_ok held \<longleftrightarrow> sorted_wrt (<) (map he_chunk_index held) \<and> (\<forall>e \<in> set held. he_chunk_index e \<noteq> - 1)"

lemma u64_less_succ:
  assumes "(x :: u64) \<noteq> - 1"
  shows "y < x + 1 \<longleftrightarrow> y \<le> x"
proof -
  have "unat x \<noteq> unat (- 1 :: u64)" using assms by (simp only: word_unat_eq_iff [symmetric] not_False_eq_True)
  then have "unat x \<noteq> 2 ^ 64 - 1" by (simp add: unsigned_minus_1_eq_mask mask_eq_exp_minus_1)
  then have "unat x + 1 < 2 ^ 64" using unsigned_less [of x, where 'a = nat] by simp
  then show ?thesis by (simp add: word_less_nat_alt word_le_nat_alt unat_next_generation less_Suc_eq_le)
qed

lemma partition_point_after:
  assumes "held_ok held" "0 < k" "k \<le> length held"
  shows "partition_point (\<lambda>e. he_chunk_index e < he_chunk_index (held ! (k - 1)) + 1) held = k"
proof -
  let ?last = "he_chunk_index (held ! (k - 1))"
  have sorted: "i < j \<Longrightarrow> j < length held \<Longrightarrow> he_chunk_index (held ! i) < he_chunk_index (held ! j)" for i j
    using assms(1) sorted_wrt_nth_less [of "(<)" "map he_chunk_index held" i j] by (simp add: held_ok_def)
  have max: "?last \<noteq> - 1" using assms by (simp add: held_ok_def)
  have "takeWhile (\<lambda>e. he_chunk_index e < ?last + 1) held = take k held"
  proof (rule takeWhile_eq_take_P_nth)
    fix i assume "i < k" "i < length held"
    then have "he_chunk_index (held ! i) < ?last \<or> i = k - 1" using sorted [of i "k - 1"] assms(2,3) by linarith
    then show "he_chunk_index (held ! i) < ?last + 1" using max by (auto simp: u64_less_succ)
  next
    assume "k < length held"
    then have "?last < he_chunk_index (held ! k)" using sorted [of "k - 1" k] assms(2) by simp
    then show "\<not> he_chunk_index (held ! k) < ?last + 1" using max by (auto simp: u64_less_succ)
  qed
  then show ?thesis using assms(3) by (simp add: partition_point_def)
qed

text \<open>A cursor after the first \<open>k\<close> chunks of a registered snapshot.\<close>

definition cursor_at ::
  "operation_store \<Rightarrow> string \<Rightarrow> transfer_id \<Rightarrow> string \<Rightarrow> uuid \<Rightarrow> held_chunk_entry list \<Rightarrow> nat \<Rightarrow> bool" where
  "cursor_at s cursor tid pid snapshot_id held k \<longleftrightarrow>
     0 < k \<and> k < length held \<and>
     fmlookup (os_bindings s) cursor = Some (BindResumeCursor
       \<lparr> rb_transfer_id = tid, rb_proof_id = pid,
         rb_state = \<lparr> cs_snapshot_id = snapshot_id, cs_next_chunk_index = he_chunk_index (held ! (k - 1)) + 1 \<rparr> \<rparr>) \<and>
     (\<exists>snapshot. fmlookup (os_resume_snapshots s) snapshot_id = Some snapshot \<and> sn_held snapshot = held)"

lemma cursor_at_read:
  assumes "cursor_at s cursor tid pid i held k" "is_current wa (os_generation s)" "held_ok held"
  obtains b snapshot where "resume_cursor_binding_of wa s cursor = Some b" "rb_transfer_id b = tid" "rb_proof_id b = pid"
    "cs_snapshot_id (rb_state b) = i" "resume_snapshot_of wa s i = Some snapshot" "sn_held snapshot = held"
    "fmlookup (os_bindings s) cursor = Some (BindResumeCursor b)"
    "partition_point (\<lambda>e. he_chunk_index e < cs_next_chunk_index (rb_state b)) held = k"
proof -
  let ?b = "\<lparr> rb_transfer_id = tid, rb_proof_id = pid, rb_state =
    \<lparr> cs_snapshot_id = i, cs_next_chunk_index = he_chunk_index (held ! (k - 1)) + 1 \<rparr> \<rparr>"
  from assms(1) obtain snapshot where s: "fmlookup (os_resume_snapshots s) i = Some snapshot" "sn_held snapshot = held"
    by (auto simp: cursor_at_def)
  show thesis
    using assms(1,2) s partition_point_after [OF assms(3), of k]
    by (intro that [of ?b snapshot])
      (simp_all add: cursor_at_def resume_cursor_binding_of_def resume_snapshot_of_def)
qed

lemma continue_more:
  assumes "cursor_at s (rc_resume_cursor (ms_body cont)) tid pid i held k" "is_current wa (os_generation s)" "held_ok held"
    and "k + page_size < length held" "0 < page_size"
    and "ids HandleResumeCursor 0 = c" "c \<noteq> rc_resume_cursor (ms_body cont)" "fmlookup (os_bindings s) c = None"
  obtains s' where "handle_resume_discovery_continue wa ids message_id page_size cont s =
      (continuation_page message_id (ev_message_id (ms_envelope cont))
         (map held_chunk_wire (drop k (take (k + page_size) held))) (Some c), s')"
    "cursor_at s' c tid pid i held (k + page_size)"
    "\<exists>b. s' = s\<lparr> os_bindings := map_insert c b (map_remove (rc_resume_cursor (ms_body cont)) (os_bindings s)) \<rparr>"
proof -
  let ?cursor = "rc_resume_cursor (ms_body cont)"
  let ?next = "\<lparr> cs_snapshot_id = i, cs_next_chunk_index = he_chunk_index (held ! (k + page_size - 1)) + 1 \<rparr>"
  let ?s' = "s\<lparr> os_bindings := map_insert c (BindResumeCursor \<lparr> rb_transfer_id = tid, rb_proof_id = pid, rb_state = ?next \<rparr>)
       (map_remove ?cursor (os_bindings s)) \<rparr>"
  from cursor_at_read [OF assms(1-3)] obtain b snapshot where b: "resume_cursor_binding_of wa s ?cursor = Some b"
      "rb_transfer_id b = tid" "rb_proof_id b = pid" "cs_snapshot_id (rb_state b) = i"
      "resume_snapshot_of wa s i = Some snapshot" "sn_held snapshot = held"
      "fmlookup (os_bindings s) ?cursor = Some (BindResumeCursor b)"
      "partition_point (\<lambda>e. he_chunk_index e < cs_next_chunk_index (rb_state b)) held = k" by blast
  have fresh: "choose_fresh (ids HandleResumeCursor) (\<lambda>h. h \<noteq> ?cursor \<and> fmlookup (os_bindings s) h = None) = Some c"
    using choose_fresh_first [of "\<lambda>h. h \<noteq> ?cursor \<and> fmlookup (os_bindings s) h = None" "ids HandleResumeCursor"] assms(6-8)
    by simp
  have "advance_resume_cursor wa ids ?cursor tid (Some ?next) s = Ok (Some c, ?s')"
    using b(2,3,7) fresh assms(2) by (simp add: store_ops)
  then have "handle_resume_discovery_continue wa ids message_id page_size cont s =
      (continuation_page message_id (ev_message_id (ms_envelope cont))
         (map held_chunk_wire (drop k (take (k + page_size) held))) (Some c), ?s')"
    using b assms(4) by (simp add: handle_resume_discovery_continue_def Let_def)
  moreover have "cursor_at ?s' c tid pid i held (k + page_size)"
    using assms(1,4,5) by (simp add: cursor_at_def)
  ultimately show thesis by (rule that) blast
qed

lemma continue_last:
  assumes "cursor_at s (rc_resume_cursor (ms_body cont)) tid pid i held k" "is_current wa (os_generation s)" "held_ok held"
    and "length held \<le> k + page_size"
  shows "handle_resume_discovery_continue wa ids message_id page_size cont s =
      (continuation_page message_id (ev_message_id (ms_envelope cont)) (map held_chunk_wire (drop k held)) None,
       s\<lparr> os_bindings := map_remove (rc_resume_cursor (ms_body cont)) (os_bindings s),
          os_resume_snapshots := map_remove i (os_resume_snapshots s) \<rparr>)"
proof -
  let ?cursor = "rc_resume_cursor (ms_body cont)"
  from cursor_at_read [OF assms(1-3)] obtain b snapshot where b: "resume_cursor_binding_of wa s ?cursor = Some b"
      "rb_transfer_id b = tid" "rb_proof_id b = pid" "cs_snapshot_id (rb_state b) = i"
      "resume_snapshot_of wa s i = Some snapshot" "sn_held snapshot = held"
      "fmlookup (os_bindings s) ?cursor = Some (BindResumeCursor b)"
      "partition_point (\<lambda>e. he_chunk_index e < cs_next_chunk_index (rb_state b)) held = k" by blast
  have "advance_resume_cursor wa ids ?cursor tid None s =
      Ok (None, s\<lparr> os_bindings := map_remove ?cursor (os_bindings s) \<rparr>)"
    using b(2,7) assms(2) by (simp add: store_ops)
  then show ?thesis
    using b assms(2,4) by (simp add: handle_resume_discovery_continue_def Let_def drop_resume_snapshot_def min_absorb2)
qed

lemma answer_single:
  assumes "length (rs_held snapshot) \<le> page_size"
  shows "answer_resume_query wa ids draw message_id page_size query snapshot s =
     (first_page message_id (ev_message_id (ms_envelope query)) (dq_transfer_id (ms_body query)) (rs_sealed snapshot)
        (to_wire_digest_algorithm (rs_digest_algorithm snapshot)) (rs_chunk_size snapshot)
        (rs_expected_chunk_count snapshot) (map held_chunk_wire (held_entries (rs_held snapshot))) None, s)"
  using assms by (simp add: answer_resume_query_def Let_def held_entries_def min_absorb2)

lemma answer_more:
  assumes "page_size < length (rs_held snapshot)" "0 < page_size" "is_current wa (os_generation s)"
    and "map_len (os_bindings s) < os_capacity s" "map_len (os_resume_snapshots s) < os_resume_snapshot_capacity s"
    and "ids HandleResumeCursor 0 = c" "fmlookup (os_bindings s) c = None"
    and "draw 0 = i" "fmlookup (os_resume_snapshots s) i = None"
  obtains s' stored b where "answer_resume_query wa ids draw message_id page_size query snapshot s =
     (first_page message_id (ev_message_id (ms_envelope query)) (dq_transfer_id (ms_body query)) (rs_sealed snapshot)
        (to_wire_digest_algorithm (rs_digest_algorithm snapshot)) (rs_chunk_size snapshot)
        (rs_expected_chunk_count snapshot)
        (map held_chunk_wire (take page_size (held_entries (rs_held snapshot)))) (Some c), s')"
    "cursor_at s' c (TransferId (dq_transfer_id (ms_body query))) (dq_proof_id (ms_body query)) i
       (held_entries (rs_held snapshot)) page_size"
    "s' = s\<lparr> os_bindings := map_insert c b (os_bindings s),
       os_resume_snapshots := map_insert i stored (os_resume_snapshots s) \<rparr>"
proof -
  let ?held = "held_entries (rs_held snapshot)"
  let ?tid = "TransferId (dq_transfer_id (ms_body query))"
  let ?stored = "\<lparr> sn_transfer_id = ?tid, sn_sealed = rs_sealed snapshot,
    sn_digest_algorithm = rs_digest_algorithm snapshot, sn_chunk_size = rs_chunk_size snapshot,
    sn_expected_chunk_count = rs_expected_chunk_count snapshot, sn_held = ?held \<rparr>"
  let ?b = "\<lparr> rb_transfer_id = ?tid, rb_proof_id = dq_proof_id (ms_body query),
    rb_state = \<lparr> cs_snapshot_id = i, cs_next_chunk_index = he_chunk_index (?held ! (page_size - 1)) + 1 \<rparr> \<rparr>"
  let ?s1 = "s\<lparr> os_resume_snapshots := map_insert i ?stored (os_resume_snapshots s) \<rparr>"
  let ?s2 = "?s1\<lparr> os_bindings := map_insert c (BindResumeCursor ?b) (os_bindings s) \<rparr>"
  have len: "length ?held = length (rs_held snapshot)" by (simp add: held_entries_def)
  have "choose_fresh draw (\<lambda>j. fmlookup (os_resume_snapshots s) j = None) = Some i"
    using choose_fresh_first [of "\<lambda>j. fmlookup (os_resume_snapshots s) j = None" draw] assms(8,9) by simp
  then have reg: "register_resume_snapshot wa draw ?stored s = Ok (i, ?s1)"
    using assms(3,5) by (simp add: store_ops)
  have "choose_fresh (ids HandleResumeCursor) (\<lambda>h. fmlookup (os_bindings s) h = None) = Some c"
    using choose_fresh_first [of "\<lambda>h. fmlookup (os_bindings s) h = None" "ids HandleResumeCursor"] assms(6,7) by simp
  then have mint: "mint_resume_cursor wa ids ?b ?s1 = Ok (c, ?s2)"
    using assms(3,4) by (simp add: store_ops)
  have "answer_resume_query wa ids draw message_id page_size query snapshot s =
     (first_page message_id (ev_message_id (ms_envelope query)) (dq_transfer_id (ms_body query)) (rs_sealed snapshot)
        (to_wire_digest_algorithm (rs_digest_algorithm snapshot)) (rs_chunk_size snapshot)
        (rs_expected_chunk_count snapshot) (map held_chunk_wire (take page_size ?held)) (Some c), ?s2)"
    using reg mint assms(1) len by (simp add: answer_resume_query_def Let_def)
  moreover have "cursor_at ?s2 c ?tid (dq_proof_id (ms_body query)) i ?held page_size"
    using assms(1,2) len by (simp add: cursor_at_def)
  ultimately show thesis by (rule that [of ?s2 ?stored "BindResumeCursor ?b"]) simp_all
qed

lemma collect_held_indices:
  "collect_held eng m is = Ok held \<Longrightarrow> map rh_chunk_index held = map (\<lambda>i. ucast i) is"
proof (induction "is" arbitrary: held)
  case (Cons i "is")
  then show ?case by (auto split: option.splits sum.splits)
qed simp

lemma resume_held_ok:
  assumes "authorize_resume_discovery env caps now loaded replay input = (replay', Ok (ResumeApproved snapshot))"
  shows "held_ok (held_entries (rs_held snapshot))"
proof -
  from assms obtain state :: authorization_durable_state where
    "collect_held (en_b64 env) (ad_manifest state) (sorted_list_of_fset (index_value |`| ad_held state)) = Ok (rs_held snapshot)"
    by (auto simp: authorize_resume_discovery_def split: prod.splits sum.splits option.splits)
  then have "map he_chunk_index (held_entries (rs_held snapshot)) =
      map (\<lambda>i. ucast i) (sorted_list_of_fset (index_value |`| ad_held state))"
    using collect_held_indices by (fastforce simp: held_entries_def comp_def)
  moreover have "sorted_wrt (<) (map (\<lambda>i. ucast (i :: u32) :: u64) (sorted_list_of_fset F))" for F
    by (simp add: sorted_wrt_map u32_widen_less sorted_list_of_fset.rep_eq strict_sorted_list_of_set)
  moreover have "ucast (i :: u32) \<noteq> (- 1 :: u64)" for i
    by (rule u32_widen_not_max)
  ultimately show ?thesis unfolding held_ok_def by (metis (no_types, lifting) image_iff list.set_map)
qed

section \<open>Every reply answers its request\<close>

lemma handler_replies:
  "decide_authorization_query wa ids env caps now loaded mid q replay s = (r1, x1) \<Longrightarrow>
     an_in_reply_to (ms_body r1) = ev_message_id (ms_envelope q) \<and> ms_envelope r1 = envelope_new mid"
  "handle_chunk_acceptance wa eng mid rq db s = (Some r2, x2) \<Longrightarrow>
     cn_in_reply_to (ms_body r2) = ev_message_id (ms_envelope rq) \<and> ms_envelope r2 = envelope_new mid"
  "handle_artifact_verification wa eng mid rp db s = (Some r3, x3) \<Longrightarrow>
     va_in_reply_to (ms_body r3) = ev_message_id (ms_envelope rp) \<and> ms_envelope r3 = envelope_new mid"
  by (auto simp: decide_authorization_query_def handle_chunk_acceptance_def handle_artifact_verification_def
      message_constructors Let_def
      split: prod.splits sum.splits worker_authorization_outcome.splits chunk_acceptance_commit.splits
        artifact_verification_commit.splits)

lemma seal_replies:
  assumes "handle_manifest_seal wa ids env caps now endpoints mid rq replay db s = (Some r, x)"
  shows "mn_in_reply_to (ms_body r) = ev_message_id (ms_envelope rq) \<and> ms_envelope r = envelope_new mid"
  using assms
  by (auto simp: handle_manifest_seal_def mint_sealed_reply_def message_constructors Let_def
      split: prod.splits sum.splits manifest_seal_commit.splits)

lemma page_replies:
  "answer_resume_query wa ids draw mid ps q snapshot s = (r, x) \<Longrightarrow>
     pg_in_reply_to (ms_body r) = ev_message_id (ms_envelope q) \<and> ms_envelope r = envelope_new mid"
  "handle_resume_discovery_continue wa ids mid ps cont s = (r', x') \<Longrightarrow>
     pg_in_reply_to (ms_body r') = ev_message_id (ms_envelope cont) \<and> ms_envelope r' = envelope_new mid"
  by (auto simp: answer_resume_query_def handle_resume_discovery_continue_def message_constructors Let_def
      split: prod.splits sum.splits option.splits if_splits)

lemma query_replies:
  "handle_resume_discovery_query wa ids draw env caps now loaded mid ps q replay s = (r, x) \<Longrightarrow>
     pg_in_reply_to (ms_body r) = ev_message_id (ms_envelope q) \<and> ms_envelope r = envelope_new mid"
  by (auto simp: handle_resume_discovery_query_def page_denied_def message_new_def
      split: prod.splits sum.splits resume_authorization_outcome.splits dest: page_replies(1))

lemma control_reply_answers:
  assumes "control_reply c m st = (Some r, st')"
  shows "message_type r = answer_type m \<and> message_envelope r = envelope_new (tc_message_id c) \<and>
    (answer_type m \<noteq> ''ProtocolError'' \<longrightarrow> reply_target r = Some (ev_message_id (message_envelope m)))"
proof (cases m)
  case (AuthorizationQuery q)
  with assms show ?thesis by (auto split: prod.splits dest: handler_replies(1))
next
  case (ChunkAcceptanceRequest q)
  with assms show ?thesis by (auto split: prod.splits dest: handler_replies(2))
next
  case (ArtifactVerificationReport q)
  with assms show ?thesis by (auto split: prod.splits dest: handler_replies(3))
next
  case (ManifestSealRequest q)
  with assms show ?thesis by (auto split: prod.splits dest: seal_replies)
next
  case (ResumeDiscoveryQuery q)
  with assms show ?thesis by (auto split: prod.splits dest: query_replies)
next
  case (ResumeDiscoveryContinue q)
  with assms show ?thesis by (auto split: prod.splits dest: page_replies(2))
qed (use assms in \<open>auto simp: protocol_error_new_def message_new_def\<close>)

end
