(* ===== verification/Worker_Client.thy ===== *)
theory Worker_Client
  imports Worker_Messages
begin

text \<open>
  The Worker's side of its connection to the server, \<open>src/crates/worker/src/ipc/control.rs\<close>:
  the handshake, the table that gives every answer to the request it belongs to,
  and the operations the HTTP handlers call.

  An operation takes a link: the generation that is published right now, the identifier the next
  message draws and the exchange of one message for its answer, all over a state of the
  surroundings. The inputs of an operation are the fields of the message it sends, so the message
  bodies stand for them. The loop over the pages of a resume query may go on as long as the server
  hands out cursors and is a partial function; not returning is the value \<open>None\<close>.

  The lemmas show that every request is answered exactly once, with the answer that names it.
\<close>

section \<open>Handshake\<close>

datatype worker_handshake_error =
    WorkerHandshakeSend
  | WorkerHandshakeReceive
  | WorkerHandshakeRejected
  | InvalidServerHello
  | InvalidHandshakeRejected
  | HandshakeUnexpectedMessage

definition perform_handshake ::
  "uuid_api \<Rightarrow> bool \<Rightarrow> uuid \<Rightarrow> receive_error + worker_protocol_message \<Rightarrow> worker_handshake_error + unit" where
  "perform_handshake api send_ok sent_id received =
     (if \<not> send_ok then Err WorkerHandshakeSend
      else case received of
        Inl _ \<Rightarrow> Err WorkerHandshakeReceive
      | Inr (ServerHello response) \<Rightarrow>
          if server_hello_is_valid_reply_to api response sent_id then Ok () else Err InvalidServerHello
      | Inr (HandshakeRejected response) \<Rightarrow>
          if handshake_rejected_is_valid_reply_to api response sent_id then Err WorkerHandshakeRejected
          else Err InvalidHandshakeRejected
      | Inr _ \<Rightarrow> Err HandshakeUnexpectedMessage)"

section \<open>The correlation table\<close>

datatype control_error =
    NotConnected
  | ConnectionLost
  | GenerationChanged
  | ControlTimeout nat
  | ControlSaturated
  | CorrelationViolation
  | ControlProtocolError string
  | ResumePageUnavailable

datatype expected_response =
    ExpectAuthorization | ExpectChunkAcceptance | ExpectResumePage | ExpectManifestSeal | ExpectArtifactVerification

datatype response_payload =
    PayloadAuthorization "authorization_decision_body message"
  | PayloadChunkAcceptance "chunk_acceptance_decision_body message"
  | PayloadResumePage "resume_discovery_page_body message"
  | PayloadManifestSeal "manifest_seal_decision_body message"
  | PayloadArtifactVerification "artifact_verification_ack_body message"

definition payload_matches :: "response_payload \<Rightarrow> expected_response \<Rightarrow> bool" where
  "payload_matches p expected =
     (case p of
        PayloadAuthorization _ \<Rightarrow> expected = ExpectAuthorization
      | PayloadChunkAcceptance _ \<Rightarrow> expected = ExpectChunkAcceptance
      | PayloadResumePage _ \<Rightarrow> expected = ExpectResumePage
      | PayloadManifestSeal _ \<Rightarrow> expected = ExpectManifestSeal
      | PayloadArtifactVerification _ \<Rightarrow> expected = ExpectArtifactVerification)"

datatype inbound =
    InboundResponse uuid response_payload
  | InboundProtocolError "uuid option" string
  | InboundUnexpected

definition classify_inbound :: "uuid_api \<Rightarrow> worker_protocol_message \<Rightarrow> inbound" where
  "classify_inbound api message =
     (let respond = (\<lambda>in_reply_to payload.
            if envelope_is_valid api (message_envelope message) then InboundResponse in_reply_to payload
            else InboundUnexpected)
      in case message of
           AuthorizationDecision m \<Rightarrow> respond (an_in_reply_to (ms_body m)) (PayloadAuthorization m)
         | ChunkAcceptanceDecision m \<Rightarrow> respond (cn_in_reply_to (ms_body m)) (PayloadChunkAcceptance m)
         | ResumeDiscoveryPage m \<Rightarrow> respond (pg_in_reply_to (ms_body m)) (PayloadResumePage m)
         | ManifestSealDecision m \<Rightarrow> respond (mn_in_reply_to (ms_body m)) (PayloadManifestSeal m)
         | ArtifactVerificationAck m \<Rightarrow> respond (va_in_reply_to (ms_body m)) (PayloadArtifactVerification m)
         | ProtocolError m \<Rightarrow> InboundProtocolError (pe_in_reply_to (ms_body m)) (pe_code (ms_body m))
         | _ \<Rightarrow> InboundUnexpected)"

record pending_entry =
  pn_expected :: expected_response
  pn_deadline :: time

record dispatcher =
  dp_open :: bool
  dp_pending :: "(uuid, pending_entry) fmap"
  dp_capacity :: nat
  dp_timeout :: duration

type_synonym delivery = "uuid \<times> (control_error + response_payload)"

text \<open>The end of a connection: no request is admitted any more and every waiter is told.\<close>

definition close_dispatcher :: "dispatcher \<Rightarrow> delivery list \<times> dispatcher" where
  "close_dispatcher d =
     (map (\<lambda>i. (i, Err ConnectionLost)) (sorted_list_of_fset (fmdom (dp_pending d))),
      d\<lparr> dp_open := False, dp_pending := fmempty \<rparr>)"

definition finish_turn :: "bool \<Rightarrow> delivery list \<Rightarrow> dispatcher \<Rightarrow> delivery list \<times> dispatcher" where
  "finish_turn proceed dels d =
     (if proceed then (dels, d) else case close_dispatcher d of (closing, d') \<Rightarrow> (dels @ closing, d'))"

definition dispatch_request ::
  "time \<Rightarrow> bool \<Rightarrow> uuid \<Rightarrow> expected_response \<Rightarrow> dispatcher \<Rightarrow> delivery list \<times> dispatcher" where
  "dispatch_request now send_ok message_id expected d =
     (if \<not> dp_open d then ([(message_id, Err NotConnected)], d)
      else if map_len (dp_pending d) \<ge> dp_capacity d then ([(message_id, Err ControlSaturated)], d)
      else if \<not> send_ok then finish_turn False [(message_id, Err ConnectionLost)] d
      else ([], d\<lparr> dp_pending := map_insert message_id
              \<lparr> pn_expected = expected, pn_deadline = now + dp_timeout d \<rparr> (dp_pending d) \<rparr>))"

definition dispatch_inbound ::
  "uuid_api \<Rightarrow> worker_protocol_message \<Rightarrow> dispatcher \<Rightarrow> delivery list \<times> dispatcher" where
  "dispatch_inbound api message d =
     (if \<not> dp_open d then ([], d)
      else case classify_inbound api message of
        InboundResponse i payload \<Rightarrow>
          (case fmlookup (dp_pending d) i of
             None \<Rightarrow> ([], d)
           | Some entry \<Rightarrow>
               (let d' = d\<lparr> dp_pending := map_remove i (dp_pending d) \<rparr> in
                if payload_matches payload (pn_expected entry) then ([(i, Ok payload)], d')
                else finish_turn False [(i, Err CorrelationViolation)] d'))
      | InboundProtocolError in_reply_to code \<Rightarrow>
          (case in_reply_to of
             None \<Rightarrow> finish_turn False [] d
           | Some i \<Rightarrow>
               (case fmlookup (dp_pending d) i of
                  None \<Rightarrow> finish_turn False [] d
                | Some entry \<Rightarrow> finish_turn False [(i, Err (ControlProtocolError code))]
                    (d\<lparr> dp_pending := map_remove i (dp_pending d) \<rparr>)))
      | InboundUnexpected \<Rightarrow> finish_turn False [] d)"

text \<open>\<open>dp_timeout\<close> counts nanoseconds; the report of a timeout carries its milliseconds.\<close>

definition timeout_millis :: "dispatcher \<Rightarrow> nat" where
  "timeout_millis d = nat (dp_timeout d div 1000000) mod 2 ^ 64"

definition dispatch_expire :: "time \<Rightarrow> dispatcher \<Rightarrow> delivery list \<times> dispatcher" where
  "dispatch_expire now d =
     (let alive = map_retain (\<lambda>_ e. \<not> pn_deadline e \<le> now) (dp_pending d) in
      (map (\<lambda>i. (i, Err (ControlTimeout (timeout_millis d))))
         (sorted_list_of_fset (fmdom (dp_pending d) |-| fmdom alive)),
       d\<lparr> dp_pending := alive \<rparr>))"

datatype dispatch_op =
    DispatchRequest time bool uuid expected_response
  | DispatchInbound worker_protocol_message
  | DispatchExpire time
  | DispatchDisconnect

definition dispatch_step :: "uuid_api \<Rightarrow> dispatch_op \<Rightarrow> dispatcher \<Rightarrow> delivery list \<times> dispatcher" where
  "dispatch_step api op d =
     (case op of
        DispatchRequest now send_ok i expected \<Rightarrow> dispatch_request now send_ok i expected d
      | DispatchInbound message \<Rightarrow> dispatch_inbound api message d
      | DispatchExpire now \<Rightarrow> dispatch_expire now d
      | DispatchDisconnect \<Rightarrow> close_dispatcher d)"

fun dispatch_run :: "uuid_api \<Rightarrow> dispatch_op list \<Rightarrow> dispatcher \<Rightarrow> delivery list \<times> dispatcher" where
  "dispatch_run api [] d = ([], d)"
| "dispatch_run api (op # ops) d =
     (case dispatch_step api op d of (dels, d1) \<Rightarrow>
      case dispatch_run api ops d1 of (dels', d2) \<Rightarrow> (dels @ dels', d2))"

definition dispatcher_new :: "nat \<Rightarrow> duration \<Rightarrow> dispatcher" where
  "dispatcher_new capacity timeout =
     \<lparr> dp_open = True, dp_pending = fmempty, dp_capacity = capacity, dp_timeout = timeout \<rparr>"

section \<open>Operations\<close>

type_synonym local_generation = u64

record 's control_link =
  cl_current :: "'s \<Rightarrow> local_generation option"
  cl_message_id :: "'s \<Rightarrow> uuid"
  cl_exchange :: "worker_protocol_message \<Rightarrow> expected_response \<Rightarrow> 's \<Rightarrow> (control_error + response_payload) \<times> 's"

definition send_request ::
  "'s control_link \<Rightarrow> worker_protocol_message \<Rightarrow> expected_response \<Rightarrow> 's
    \<Rightarrow> (control_error + local_generation \<times> response_payload) \<times> 's" where
  "send_request link message expected st =
     (case cl_current link st of
        None \<Rightarrow> (Err NotConnected, st)
      | Some g \<Rightarrow> (case cl_exchange link message expected st of
          (Inl e, st') \<Rightarrow> (Err e, st')
        | (Inr payload, st') \<Rightarrow> (Ok (g, payload), st')))"

definition send_scoped_request ::
  "'s control_link \<Rightarrow> local_generation \<Rightarrow> worker_protocol_message \<Rightarrow> expected_response \<Rightarrow> 's
    \<Rightarrow> (control_error + local_generation \<times> response_payload) \<times> 's" where
  "send_scoped_request link ticket_generation message expected st =
     (case cl_current link st of
        None \<Rightarrow> (Err NotConnected, st)
      | Some g \<Rightarrow>
          if g \<noteq> ticket_generation then (Err GenerationChanged, st)
          else (case cl_exchange link message expected st of
            (Inl e, st') \<Rightarrow> (Err e, st')
          | (Inr payload, st') \<Rightarrow> (Ok (g, payload), st')))"

record acceptance_ticket =
  tk_generation :: local_generation
  tk_handle :: string
  tk_transfer_id :: uuid
  tk_chunk_index :: u64

record verification_ticket =
  vt_generation :: local_generation
  vt_handle :: string

datatype chunk_authorization =
    ChunkAuthorizationApproved wire_digest_algorithm u32 "string option" acceptance_ticket
  | ChunkAuthorizationDenied

definition authorize_chunk ::
  "'s control_link \<Rightarrow> authorization_query_body \<Rightarrow> 's \<Rightarrow> (control_error + chunk_authorization) \<times> 's" where
  "authorize_chunk link input st =
     (case send_request link (AuthorizationQuery (message_new (cl_message_id link st) input)) ExpectAuthorization st of
        (Inl e, st') \<Rightarrow> (Err e, st')
      | (Inr (g, PayloadAuthorization decision), st') \<Rightarrow>
          (let b = ms_body decision in
           case an_decision b of
             AuthorizationRefused \<Rightarrow> (Ok ChunkAuthorizationDenied, st')
           | AuthorizationApproved \<Rightarrow>
               (case (an_digest_algorithm b, an_chunk_size b, an_acceptance_handle b) of
                  (Some algorithm, Some sz, Some handle) \<Rightarrow>
                    (Ok (ChunkAuthorizationApproved algorithm sz (an_expected_chunk_digest b)
                       \<lparr> tk_generation = g, tk_handle = handle, tk_transfer_id = aq_transfer_id input,
                         tk_chunk_index = aq_chunk_index input \<rparr>), st')
                | _ \<Rightarrow> (Err CorrelationViolation, st')))
      | (Inr _, st') \<Rightarrow> (Err CorrelationViolation, st'))"

datatype chunk_acceptance =
    ChunkCommitted | ChunkAlreadyCommitted | ChunkRejected chunk_acceptance_rejection_reason

definition commit_chunk ::
  "'s control_link \<Rightarrow> acceptance_ticket \<Rightarrow> string \<Rightarrow> u32 \<Rightarrow> 's \<Rightarrow> (control_error + chunk_acceptance) \<times> 's" where
  "commit_chunk link ticket digest_wire sz st =
     (case send_scoped_request link (tk_generation ticket)
             (ChunkAcceptanceRequest (message_new (cl_message_id link st)
                \<lparr> cq_acceptance_handle = tk_handle ticket, cq_transfer_id = tk_transfer_id ticket,
                  cq_chunk_index = tk_chunk_index ticket, cq_digest = digest_wire, cq_size = sz \<rparr>))
             ExpectChunkAcceptance st of
        (Inl e, st') \<Rightarrow> (Err e, st')
      | (Inr (_, PayloadChunkAcceptance decision), st') \<Rightarrow>
          (case cn_outcome (ms_body decision) of
             CA_Committed \<Rightarrow> (Ok ChunkCommitted, st')
           | CA_AlreadyCommitted \<Rightarrow> (Ok ChunkAlreadyCommitted, st')
           | CA_Rejected \<Rightarrow>
               (case cn_reason (ms_body decision) of
                  None \<Rightarrow> (Err CorrelationViolation, st')
                | Some why \<Rightarrow> (Ok (ChunkRejected why), st')))
      | (Inr _, st') \<Rightarrow> (Err CorrelationViolation, st'))"

record seal_success =
  ss_artifact_id :: uuid
  ss_digest_algorithm :: wire_digest_algorithm
  ss_chunk_size :: u32
  ss_chunk_count :: u64
  ss_expected_artifact_digest :: string
  ss_verification_ticket :: verification_ticket

datatype manifest_seal_result =
    SealSealed seal_success
  | SealAlreadyPendingVerification seal_success
  | SealRejected manifest_seal_rejection_reason
  | SealRefused

definition seal_success_of :: "local_generation \<Rightarrow> manifest_seal_decision_body \<Rightarrow> seal_success option" where
  "seal_success_of g b =
     (case (mn_artifact_id b, mn_digest_algorithm b, mn_chunk_size b, mn_chunk_count b,
            mn_expected_artifact_digest b, mn_verification_handle b) of
        (Some artifact, Some algorithm, Some sz, Some count, Some digest_wire, Some handle) \<Rightarrow>
          Some \<lparr> ss_artifact_id = artifact, ss_digest_algorithm = algorithm, ss_chunk_size = sz,
                 ss_chunk_count = count, ss_expected_artifact_digest = digest_wire,
                 ss_verification_ticket = \<lparr> vt_generation = g, vt_handle = handle \<rparr> \<rparr>
      | _ \<Rightarrow> None)"

definition seal_manifest ::
  "'s control_link \<Rightarrow> manifest_seal_request_body \<Rightarrow> 's \<Rightarrow> (control_error + manifest_seal_result) \<times> 's" where
  "seal_manifest link input st =
     (case send_request link (ManifestSealRequest (message_new (cl_message_id link st) input)) ExpectManifestSeal st of
        (Inl e, st') \<Rightarrow> (Err e, st')
      | (Inr (g, PayloadManifestSeal decision), st') \<Rightarrow>
          (let b = ms_body decision in
           case mn_outcome b of
             MS_Denied \<Rightarrow> (Ok SealRefused, st')
           | MS_Rejected \<Rightarrow>
               (case mn_reason b of
                  None \<Rightarrow> (Err CorrelationViolation, st')
                | Some why \<Rightarrow> (Ok (SealRejected why), st'))
           | MS_Sealed \<Rightarrow>
               (case seal_success_of g b of
                  None \<Rightarrow> (Err CorrelationViolation, st') | Some ok \<Rightarrow> (Ok (SealSealed ok), st'))
           | MS_AlreadyPendingVerification \<Rightarrow>
               (case seal_success_of g b of
                  None \<Rightarrow> (Err CorrelationViolation, st')
                | Some ok \<Rightarrow> (Ok (SealAlreadyPendingVerification ok), st')))
      | (Inr _, st') \<Rightarrow> (Err CorrelationViolation, st'))"

definition report_artifact_verification ::
  "'s control_link \<Rightarrow> verification_ticket \<Rightarrow> string \<Rightarrow> 's \<Rightarrow> (control_error + wire_artifact_status) \<times> 's" where
  "report_artifact_verification link ticket digest_wire st =
     (case send_scoped_request link (vt_generation ticket)
             (ArtifactVerificationReport (message_new (cl_message_id link st)
                \<lparr> vr_verification_handle = vt_handle ticket, vr_computed_artifact_digest = digest_wire \<rparr>))
             ExpectArtifactVerification st of
        (Inl e, st') \<Rightarrow> (Err e, st')
      | (Inr (_, PayloadArtifactVerification ack), st') \<Rightarrow> (Ok (va_artifact_status (ms_body ack)), st')
      | (Inr _, st') \<Rightarrow> (Err CorrelationViolation, st'))"

record resume_aggregate =
  ra_transfer_id :: uuid
  ra_sealed :: bool
  ra_digest_algorithm :: wire_digest_algorithm
  ra_chunk_size :: u32
  ra_expected_chunk_count :: "u64 option"
  ra_held_chunks :: "held_chunk list"

datatype resume_discovery_result = ResumeDiscoveryApproved resume_aggregate | ResumeDiscoveryRefused

definition continue_discovery ::
  "'s control_link \<Rightarrow> local_generation \<Rightarrow> string \<Rightarrow> 's \<Rightarrow> (control_error + resume_continuation_page) \<times> 's" where
  "continue_discovery link g cursor st =
     (case send_scoped_request link g
             (ResumeDiscoveryContinue (message_new (cl_message_id link st) \<lparr> rc_resume_cursor = cursor \<rparr>))
             ExpectResumePage st of
        (Inl e, st') \<Rightarrow> (Err e, st')
      | (Inr (_, PayloadResumePage page), st') \<Rightarrow>
          if pg_decision (ms_body page) = DiscoveryDenied then (Err ResumePageUnavailable, st')
          else (case approved_continuation_page page of
                  Inl _ \<Rightarrow> (Err CorrelationViolation, st')
                | Inr p \<Rightarrow> (Ok p, st'))
      | (Inr _, st') \<Rightarrow> (Err CorrelationViolation, st'))"

partial_function (option) collect_pages ::
  "'s control_link \<Rightarrow> local_generation \<Rightarrow> held_chunk list \<Rightarrow> string option \<Rightarrow> 's
    \<Rightarrow> ((control_error + held_chunk list) \<times> 's) option" where
  "collect_pages link g held cursor st =
     (case cursor of
        None \<Rightarrow> Some (Ok held, st)
      | Some c \<Rightarrow>
          (case continue_discovery link g c st of
             (Inl e, st') \<Rightarrow> Some (Err e, st')
           | (Inr p, st') \<Rightarrow> collect_pages link g (held @ cp_held_chunks p) (cp_resume_cursor p) st'))"

definition discover_resume ::
  "'s control_link \<Rightarrow> resume_discovery_query_body \<Rightarrow> 's \<Rightarrow> ((control_error + resume_discovery_result) \<times> 's) option" where
  "discover_resume link input st =
     (case send_request link (ResumeDiscoveryQuery (message_new (cl_message_id link st) input)) ExpectResumePage st of
        (Inl e, st') \<Rightarrow> Some (Err e, st')
      | (Inr (g, PayloadResumePage page), st') \<Rightarrow>
          if pg_decision (ms_body page) = DiscoveryDenied then Some (Ok ResumeDiscoveryRefused, st')
          else (case approved_first_page page of
                  Inl _ \<Rightarrow> Some (Err CorrelationViolation, st')
                | Inr first \<Rightarrow>
                    (case collect_pages link g (fp_held_chunks first) (fp_resume_cursor first) st' of
                       None \<Rightarrow> None
                     | Some (Inl e, st'') \<Rightarrow> Some (Err e, st'')
                     | Some (Inr held, st'') \<Rightarrow>
                         Some (Ok (ResumeDiscoveryApproved
                           \<lparr> ra_transfer_id = fp_transfer_id first, ra_sealed = fp_sealed first,
                             ra_digest_algorithm = fp_digest_algorithm first, ra_chunk_size = fp_chunk_size first,
                             ra_expected_chunk_count = fp_expected_chunk_count first, ra_held_chunks = held \<rparr>), st'')))
      | (Inr _, st') \<Rightarrow> Some (Err CorrelationViolation, st'))"

section \<open>Every request is answered once\<close>

definition deliveries_for :: "uuid \<Rightarrow> delivery list \<Rightarrow> nat" where
  "deliveries_for i dels = length (filter (\<lambda>x. fst x = i) dels)"

definition waiting :: "dispatcher \<Rightarrow> uuid \<Rightarrow> nat" where
  "waiting d i = (if fmlookup (dp_pending d) i = None then 0 else 1)"

fun requests_of :: "dispatch_op list \<Rightarrow> uuid list" where
  "requests_of [] = []"
| "requests_of (DispatchRequest now send_ok i expected # ops) = i # requests_of ops"
| "requests_of (op # ops) = requests_of ops"

fun payload_target :: "response_payload \<Rightarrow> uuid" where
  "payload_target (PayloadAuthorization m) = an_in_reply_to (ms_body m)"
| "payload_target (PayloadChunkAcceptance m) = cn_in_reply_to (ms_body m)"
| "payload_target (PayloadResumePage m) = pg_in_reply_to (ms_body m)"
| "payload_target (PayloadManifestSeal m) = mn_in_reply_to (ms_body m)"
| "payload_target (PayloadArtifactVerification m) = va_in_reply_to (ms_body m)"

definition dispatcher_ok :: "dispatcher \<Rightarrow> bool" where
  "dispatcher_ok d \<longleftrightarrow> (\<not> dp_open d \<longrightarrow> dp_pending d = fmempty) \<and> map_len (dp_pending d) \<le> dp_capacity d"

lemma deliveries_for_simps [simp]:
  "deliveries_for i [] = 0"
  "deliveries_for i (x # dels) = (if fst x = i then 1 else 0) + deliveries_for i dels"
  "deliveries_for i (dels @ dels') = deliveries_for i dels + deliveries_for i dels'"
  by (simp_all add: deliveries_for_def)

lemma deliveries_for_all:
  "distinct xs \<Longrightarrow> deliveries_for i (map (\<lambda>j. (j, r)) xs) = (if i \<in> set xs then 1 else 0)"
  by (induction xs) auto

lemma deliveries_for_fset:
  "deliveries_for i (map (\<lambda>j. (j, r)) (sorted_list_of_fset F)) = (if i |\<in>| F then 1 else 0)"
  by (subst deliveries_for_all) (simp_all add: sorted_list_of_fset.rep_eq)

lemma waiting_dom: "waiting d i = (if i |\<in>| fmdom (dp_pending d) then 1 else 0)"
  by (simp add: waiting_def fmlookup_dom_iff)

lemma close_answers:
  "close_dispatcher d = (dels, d') \<Longrightarrow> deliveries_for i dels + waiting d' i = waiting d i \<and> dispatcher_ok d'"
  by (auto simp: close_dispatcher_def deliveries_for_fset waiting_dom dispatcher_ok_def)

lemma finish_answers:
  assumes "finish_turn proceed dels d = (dels', d')"
  shows "deliveries_for i dels' + waiting d' i = deliveries_for i dels + waiting d i"
    and "dispatcher_ok d \<Longrightarrow> dispatcher_ok d'"
    and "(i, Ok p) \<in> set dels' \<Longrightarrow> (i, Ok p) \<in> set dels"
  using assms close_answers [of d]
  by (auto simp: finish_turn_def close_dispatcher_def split: if_splits)

lemma waiting_remove:
  "fmlookup (dp_pending d) j = Some e \<Longrightarrow>
   waiting (d\<lparr> dp_pending := map_remove j (dp_pending d) \<rparr>) i + (if j = i then 1 else 0) = waiting d i"
  by (auto simp: waiting_def)

lemma request_answers:
  assumes "dispatch_request now send_ok j expected d = (dels, d')" "fmlookup (dp_pending d) j = None"
  shows "deliveries_for i dels + waiting d' i = waiting d i + (if j = i then 1 else 0)"
  using assms
  by (auto simp: dispatch_request_def waiting_def split: if_splits dest!: finish_answers(1) [of _ _ _ _ _ i])

lemma classified:
  "classify_inbound api m = InboundResponse i p \<Longrightarrow> payload_target p = i"
  by (auto simp: classify_inbound_def Let_def split: worker_protocol_message.splits if_splits)

lemma inbound_cases [consumes 1, case_names Ignored Answered Ended Failed]:
  assumes "dispatch_inbound api m d = (dels, d')"
  obtains "dels = []" "d' = d"
  | j payload entry where "classify_inbound api m = InboundResponse j payload" "fmlookup (dp_pending d) j = Some entry"
      "payload_matches payload (pn_expected entry)" "dels = [(j, Ok payload)]"
      "d' = d\<lparr> dp_pending := map_remove j (dp_pending d) \<rparr>"
  | "finish_turn False [] d = (dels, d')"
  | j entry e where "fmlookup (dp_pending d) j = Some entry"
      "finish_turn False [(j, Err e)] (d\<lparr> dp_pending := map_remove j (dp_pending d) \<rparr>) = (dels, d')"
proof (cases "dp_open d")
  case False
  with assms show thesis by (intro that(1)) (simp_all add: dispatch_inbound_def)
next
  case opened: True
  show thesis
  proof (cases "classify_inbound api m")
    case (InboundResponse j payload)
    show thesis
    proof (cases "fmlookup (dp_pending d) j")
      case None
      with assms InboundResponse opened show thesis
        by (intro that(1)) (simp_all add: dispatch_inbound_def)
    next
      case (Some entry)
      show thesis
      proof (cases "payload_matches payload (pn_expected entry)")
        case True
        with assms InboundResponse Some opened show thesis
          by (intro that(2) [OF InboundResponse Some True]) (simp_all add: dispatch_inbound_def)
      next
        case False
        with assms InboundResponse Some opened show thesis
          by (intro that(4) [OF Some]) (simp add: dispatch_inbound_def)
      qed
    qed
  next
    case (InboundProtocolError in_reply_to code)
    show thesis
    proof (cases "\<exists>j entry. in_reply_to = Some j \<and> fmlookup (dp_pending d) j = Some entry")
      case True
      then obtain j entry where j: "in_reply_to = Some j" "fmlookup (dp_pending d) j = Some entry" by blast
      with assms InboundProtocolError opened show thesis
        by (intro that(4) [OF j(2)]) (simp add: dispatch_inbound_def)
    next
      case False
      with assms InboundProtocolError opened show thesis
        by (intro that(3)) (auto simp: dispatch_inbound_def split: option.splits)
    qed
  next
    case InboundUnexpected
    with assms opened show thesis by (intro that(3)) (simp add: dispatch_inbound_def)
  qed
qed

lemma remove_ok:
  "dispatcher_ok d \<Longrightarrow> dispatcher_ok (d\<lparr> dp_pending := map_remove j (dp_pending d) \<rparr>)"
  using map_len_remove [of j "dp_pending d"] by (auto simp: dispatcher_ok_def map_remove_def)

lemma inbound_answers:
  assumes "dispatch_inbound api m d = (dels, d')"
  shows "deliveries_for i dels + waiting d' i = waiting d i"
    and "dispatcher_ok d \<Longrightarrow> dispatcher_ok d'"
    and "(i, Ok p) \<in> set dels \<Longrightarrow> payload_target p = i \<and>
           (\<exists>entry. fmlookup (dp_pending d) i = Some entry \<and> payload_matches p (pn_expected entry))"
proof -
  show "deliveries_for i dels + waiting d' i = waiting d i"
    using assms
  proof (cases rule: inbound_cases)
    case (Answered j payload entry)
    then show ?thesis using waiting_remove [OF Answered(2), of i] by simp
  next
    case (Failed j entry e)
    show ?thesis using finish_answers(1) [OF Failed(2), of i] waiting_remove [OF Failed(1), of i] by simp
  qed (auto dest: finish_answers(1) [of _ _ _ _ _ i])
  show "dispatcher_ok d \<Longrightarrow> dispatcher_ok d'"
    using assms
  proof (cases rule: inbound_cases)
    case (Failed j entry e)
    then show "dispatcher_ok d \<Longrightarrow> dispatcher_ok d'" using finish_answers(2) [OF Failed(2)] remove_ok by blast
  qed (auto dest: finish_answers(2) remove_ok)
  show "(i, Ok p) \<in> set dels \<Longrightarrow> payload_target p = i \<and>
      (\<exists>entry. fmlookup (dp_pending d) i = Some entry \<and> payload_matches p (pn_expected entry))"
    using assms
  proof (cases rule: inbound_cases)
    case (Answered j payload entry)
    then show "(i, Ok p) \<in> set dels \<Longrightarrow> ?thesis" using classified [OF Answered(1)] by auto
  qed (auto dest: finish_answers(3))
qed

lemma expire_answers:
  assumes "dispatch_expire now d = (dels, d')"
  shows "deliveries_for i dels + waiting d' i = waiting d i"
    and "dispatcher_ok d \<Longrightarrow> dispatcher_ok d'"
    and "(i, Ok p) \<notin> set dels"
  using assms map_len_retain [of "\<lambda>_ e. \<not> pn_deadline e \<le> now" "dp_pending d"]
  by (auto simp: dispatch_expire_def Let_def deliveries_for_fset waiting_dom dispatcher_ok_def lookup_map_retain
      fmlookup_dom_iff map_retain_def split: option.splits if_splits)

lemma request_cases [consumes 1, case_names Refused Lost Admitted]:
  assumes "dispatch_request now send_ok j expected d = (dels, d')"
  obtains e where "dels = [(j, Err e)]" "d' = d"
  | "finish_turn False [(j, Err ConnectionLost)] d = (dels, d')"
  | "dels = []" "map_len (dp_pending d) < dp_capacity d" "dp_open d"
      "d' = d\<lparr> dp_pending := map_insert j \<lparr> pn_expected = expected, pn_deadline = now + dp_timeout d \<rparr> (dp_pending d) \<rparr>"
proof (cases "dp_open d \<and> map_len (dp_pending d) < dp_capacity d")
  case True
  show thesis
  proof (cases send_ok)
    case False
    with assms True show thesis by (intro that(2)) (simp add: dispatch_request_def)
  next
    case sent: True
    with assms True show thesis by (intro that(3)) (simp_all add: dispatch_request_def)
  qed
next
  case False
  show thesis
  proof (cases "dp_open d")
    case True
    with assms False show thesis by (intro that(1) [of ControlSaturated]) (simp_all add: dispatch_request_def)
  next
    case closed: False
    with assms show thesis by (intro that(1) [of NotConnected]) (simp_all add: dispatch_request_def)
  qed
qed

lemma request_ok:
  assumes "dispatch_request now send_ok j expected d = (dels, d')"
  shows "dispatcher_ok d \<Longrightarrow> dispatcher_ok d'" and "(i, Ok p) \<notin> set dels"
proof -
  show "dispatcher_ok d \<Longrightarrow> dispatcher_ok d'"
    using assms
  proof (cases rule: request_cases)
    case Admitted
    then show "dispatcher_ok d \<Longrightarrow> ?thesis" by (simp add: dispatcher_ok_def)
  qed (auto dest: finish_answers(2))
  show "(i, Ok p) \<notin> set dels"
    using assms by (cases rule: request_cases) (auto dest: finish_answers(3))
qed

text \<open>A step: the balance of one identifier, the table's bound, and what a successful answer says.\<close>

lemma dispatch_step_answers:
  assumes "dispatch_step api op d = (dels, d')" "\<forall>j \<in> set (requests_of [op]). fmlookup (dp_pending d) j = None"
  shows "deliveries_for i dels + waiting d' i = waiting d i + count_list (requests_of [op]) i"
proof (cases op)
  case (DispatchRequest now send_ok j expected)
  then show ?thesis using assms request_answers [of now send_ok j expected d dels d' i] by (simp add: dispatch_step_def)
next
  case (DispatchInbound m)
  then show ?thesis using assms inbound_answers(1) [of api m d dels d' i] by (simp add: dispatch_step_def)
next
  case (DispatchExpire now)
  then show ?thesis using assms expire_answers(1) [of now d dels d' i] by (simp add: dispatch_step_def)
next
  case DispatchDisconnect
  then show ?thesis using assms close_answers [of d dels d' i] by (simp add: dispatch_step_def)
qed

lemma dispatch_step_ok:
  assumes "dispatch_step api op d = (dels, d')"
  shows "dispatcher_ok d \<Longrightarrow> dispatcher_ok d'"
  using assms close_answers [of d dels d' 0]
  by (auto simp: dispatch_step_def split: dispatch_op.splits
      dest: request_ok(1) inbound_answers(2) expire_answers(2))

lemma dispatch_step_success:
  assumes "dispatch_step api op d = (dels, d')" "(i, Ok p) \<in> set dels"
  shows "payload_target p = i \<and>
    (\<exists>entry. fmlookup (dp_pending d) i = Some entry \<and> payload_matches p (pn_expected entry))"
proof (cases op)
  case (DispatchInbound m)
  then show ?thesis using assms inbound_answers(3) [of api m d dels d' i p] by (simp add: dispatch_step_def)
next
  case (DispatchRequest now send_ok j expected)
  then show ?thesis using assms request_ok(2) [of now send_ok j expected d dels d' i p] by (simp add: dispatch_step_def)
next
  case (DispatchExpire now)
  then show ?thesis using assms expire_answers(3) [of now d dels d' i p] by (simp add: dispatch_step_def)
next
  case DispatchDisconnect
  then show ?thesis using assms by (auto simp: dispatch_step_def close_dispatcher_def)
qed

lemma finish_pending:
  "finish_turn False dels d = (dels', d') \<Longrightarrow> fmlookup (dp_pending d') i = None"
  by (auto simp: finish_turn_def close_dispatcher_def)

lemma dispatch_step_pending:
  assumes "dispatch_step api op d = (dels, d')" "fmlookup (dp_pending d') i = Some entry"
  shows "fmlookup (dp_pending d) i = Some entry \<or>
    (\<exists>now send_ok. op = DispatchRequest now send_ok i (pn_expected entry))"
proof (cases op)
  case (DispatchInbound m)
  with assms(1) have "dispatch_inbound api m d = (dels, d')" by (simp add: dispatch_step_def)
  then show ?thesis
    using assms(2) by (cases rule: inbound_cases) (auto dest: finish_pending [of _ _ _ _ i] split: if_splits)
next
  case (DispatchRequest now send_ok j expected)
  with assms(1) have "dispatch_request now send_ok j expected d = (dels, d')" by (simp add: dispatch_step_def)
  then show ?thesis
    using assms(2) DispatchRequest
    by (cases rule: request_cases) (auto dest: finish_pending [of _ _ _ _ i] split: if_splits)
next
  case (DispatchExpire now)
  then show ?thesis
    using assms by (auto simp: dispatch_step_def dispatch_expire_def Let_def lookup_map_retain split: if_splits option.splits)
next
  case DispatchDisconnect
  then show ?thesis using assms by (auto simp: dispatch_step_def close_dispatcher_def)
qed

lemma requests_of_Cons: "requests_of (op # ops) = requests_of [op] @ requests_of ops"
  by (cases op) simp_all

lemma dispatch_run_answers:
  assumes "dispatch_run api ops d = (dels, d')" "distinct (requests_of ops)"
    and "\<forall>j \<in> set (requests_of ops). fmlookup (dp_pending d) j = None"
  shows "deliveries_for i dels + waiting d' i = waiting d i + count_list (requests_of ops) i"
  using assms
proof (induction ops arbitrary: d dels)
  case (Cons op ops)
  from Cons.prems(1) obtain dels1 d1 dels2 where run: "dispatch_step api op d = (dels1, d1)"
      "dispatch_run api ops d1 = (dels2, d')" "dels = dels1 @ dels2"
    by (auto split: prod.splits)
  have fresh: "fmlookup (dp_pending d1) j = None" if "j \<in> set (requests_of ops)" for j
  proof (rule ccontr)
    assume "fmlookup (dp_pending d1) j \<noteq> None"
    then obtain entry where "fmlookup (dp_pending d1) j = Some entry" by blast
    from dispatch_step_pending [OF run(1) this] show False
      using Cons.prems(2,3) that by (auto simp: requests_of_Cons [of op ops])
  qed
  have "deliveries_for i dels1 + waiting d1 i = waiting d i + count_list (requests_of [op]) i"
    using dispatch_step_answers [OF run(1)] Cons.prems(3) by (simp add: requests_of_Cons [of op ops])
  moreover have "deliveries_for i dels2 + waiting d' i = waiting d1 i + count_list (requests_of ops) i"
    using Cons.IH [OF run(2)] Cons.prems(2) fresh by (simp add: requests_of_Cons [of op ops])
  ultimately show ?case using run(3) by (simp add: requests_of_Cons [of op ops])
qed simp

lemma dispatch_run_ok:
  "dispatch_run api ops d = (dels, d') \<Longrightarrow> dispatcher_ok d \<Longrightarrow> dispatcher_ok d'"
proof (induction ops arbitrary: d dels)
  case (Cons op ops)
  then show ?case by (auto split: prod.splits dest: dispatch_step_ok)
qed simp

lemma dispatch_run_success:
  assumes "dispatch_run api ops d = (dels, d')" "(i, Ok p) \<in> set dels"
  shows "payload_target p = i \<and>
    ((\<exists>entry. fmlookup (dp_pending d) i = Some entry \<and> payload_matches p (pn_expected entry)) \<or>
     (\<exists>now send_ok expected. DispatchRequest now send_ok i expected \<in> set ops \<and> payload_matches p expected))"
  using assms
proof (induction ops arbitrary: d dels)
  case (Cons op ops)
  from Cons.prems(1) obtain dels1 d1 dels2 where run: "dispatch_step api op d = (dels1, d1)"
      "dispatch_run api ops d1 = (dels2, d')" "dels = dels1 @ dels2"
    by (auto split: prod.splits)
  show ?case
  proof (cases "(i, Ok p) \<in> set dels1")
    case True
    then show ?thesis using dispatch_step_success [OF run(1)] by blast
  next
    case False
    then have "(i, Ok p) \<in> set dels2" using Cons.prems(2) run(3) by simp
    from Cons.IH [OF run(2) this] dispatch_step_pending [OF run(1), of i] show ?thesis
      by (metis list.set_intros)
  qed
qed simp

end
