(* ===== verification/Worker_Session.thy ===== *)
theory Worker_Session
  imports Worker_Control Worker_Client
begin

text \<open>
  Both ends of a Worker connection together: the correlation table and the operations of the Worker
  (\<open>Worker_Client\<close>) talk to the handlers of the server (\<open>Worker_Control\<close>). One exchange admits the
  request to the table, lets the server answer it and gives the answer to the table; a request the
  server drops runs into its timeout.

  The lemmas follow a resume discovery through all of its pages: it ends, what the Worker has
  gathered then is the held set the server authorized, and the server's store is as it was before.
\<close>

section \<open>Exchanges\<close>

record session =
  se_control :: control_state
  se_dispatcher :: dispatcher
  se_turn :: nat

definition answer_in :: "delivery list \<Rightarrow> uuid \<Rightarrow> control_error + response_payload" where
  "answer_in dels i = (case map_of dels i of None \<Rightarrow> Err ConnectionLost | Some r \<Rightarrow> r)"

text \<open>\<open>turn n\<close> is what the server reads when it answers the \<open>n\<close>-th request; the Worker reads \<open>clock n\<close>.\<close>

definition session_exchange ::
  "uuid_api \<Rightarrow> (nat \<Rightarrow> turn_context) \<Rightarrow> (nat \<Rightarrow> time) \<Rightarrow> worker_protocol_message \<Rightarrow> expected_response \<Rightarrow> session
    \<Rightarrow> (control_error + response_payload) \<times> session" where
  "session_exchange api turn clock message expected st =
     (let n = se_turn st; i = ev_message_id (message_envelope message) in
      case dispatch_request (clock n) True i expected (se_dispatcher st) of
        (x # dels, d) \<Rightarrow> (answer_in (x # dels) i, st\<lparr> se_dispatcher := d, se_turn := Suc n \<rparr>)
      | ([], d) \<Rightarrow>
          (case control_reply (turn n) message (se_control st) of
             (None, ct) \<Rightarrow>
               (case dispatch_expire (clock n + dp_timeout d) d of
                  (dels, d') \<Rightarrow> (answer_in dels i, \<lparr> se_control = ct, se_dispatcher = d', se_turn = Suc n \<rparr>))
           | (Some reply, ct) \<Rightarrow>
               (case dispatch_inbound api reply d of
                  (dels, d') \<Rightarrow> (answer_in dels i, \<lparr> se_control = ct, se_dispatcher = d', se_turn = Suc n \<rparr>))))"

definition session_link ::
  "uuid_api \<Rightarrow> (nat \<Rightarrow> turn_context) \<Rightarrow> (nat \<Rightarrow> time) \<Rightarrow> (nat \<Rightarrow> uuid) \<Rightarrow> local_generation \<Rightarrow> session control_link" where
  "session_link api turn clock draw g =
     \<lparr> cl_current = (\<lambda>st. if dp_open (se_dispatcher st) then Some g else None),
       cl_message_id = (\<lambda>st. draw (se_turn st)),
       cl_exchange = session_exchange api turn clock \<rparr>"

text \<open>The connection is up, there is room for a request, and no identifier the Worker draws is in use.\<close>

definition dispatcher_ready :: "(nat \<Rightarrow> uuid) \<Rightarrow> dispatcher \<Rightarrow> bool" where
  "dispatcher_ready draw d \<longleftrightarrow> dp_open d \<and> map_len (dp_pending d) < dp_capacity d \<and>
     (\<forall>n. fmlookup (dp_pending d) (draw n) = None)"

lemma insert_remove_same: "fmlookup m k = None \<Longrightarrow> map_remove k (map_insert k v m) = m"
  by (rule fmap_ext) simp

lemma exchange_answered:
  assumes "dispatcher_ready draw (se_dispatcher st)" "ev_message_id (message_envelope message) = draw (se_turn st)"
    and "control_reply (turn (se_turn st)) message (se_control st) = (Some reply, ct)"
    and "classify_inbound api reply = InboundResponse (draw (se_turn st)) payload" "payload_matches payload expected"
  shows "session_exchange api turn clock message expected st =
    (Ok payload, \<lparr> se_control = ct, se_dispatcher = se_dispatcher st, se_turn = Suc (se_turn st) \<rparr>)"
  using assms
  by (simp add: session_exchange_def dispatcher_ready_def dispatch_request_def dispatch_inbound_def answer_in_def Let_def
      insert_remove_same)

section \<open>A resume discovery over all its pages\<close>

text \<open>
  What the turns have in common: one current generation, one page size, replies with version 4
  identifiers, and cursors that the generator does not repeat.
\<close>

definition session_steady :: "uuid_api \<Rightarrow> (nat \<Rightarrow> turn_context) \<Rightarrow> worker_authority \<Rightarrow> nat \<Rightarrow> bool" where
  "session_steady api turn wa page_size \<longleftrightarrow> 0 < page_size \<and>
     (\<forall>n. tc_authority (turn n) = wa \<and> tc_page_size (turn n) = page_size \<and> is_uuid_v4 api (tc_message_id (turn n))) \<and>
     inj (\<lambda>n. tc_ids (turn n) HandleResumeCursor 0)"

abbreviation cursor_of :: "(nat \<Rightarrow> turn_context) \<Rightarrow> nat \<Rightarrow> string" where
  "cursor_of turn n \<equiv> tc_ids (turn n) HandleResumeCursor 0"

lemma continuation_answered:
  assumes "session_steady api turn wa page_size" "dispatcher_ready draw (se_dispatcher st)"
    and "handle_resume_discovery_continue wa (tc_ids (turn (se_turn st))) (tc_message_id (turn (se_turn st))) page_size
        (message_new (draw (se_turn st)) \<lparr> rc_resume_cursor = cursor \<rparr>) (ct_store (se_control st)) =
      (continuation_page (tc_message_id (turn (se_turn st))) (draw (se_turn st)) held next_cursor, s')"
  shows "continue_discovery (session_link api turn clock draw g) g cursor st =
    (Ok \<lparr> cp_held_chunks = held, cp_resume_cursor = next_cursor \<rparr>,
     \<lparr> se_control = (se_control st)\<lparr> ct_store := s' \<rparr>, se_dispatcher = se_dispatcher st, se_turn = Suc (se_turn st) \<rparr>)"
proof -
  let ?n = "se_turn st"
  let ?m = "ResumeDiscoveryContinue (message_new (draw ?n) \<lparr> rc_resume_cursor = cursor \<rparr>)"
  let ?page = "continuation_page (tc_message_id (turn ?n)) (draw ?n) held next_cursor"
  have "session_exchange api turn clock ?m ExpectResumePage st = (Ok (PayloadResumePage ?page),
      \<lparr> se_control = (se_control st)\<lparr> ct_store := s' \<rparr>, se_dispatcher = se_dispatcher st, se_turn = Suc ?n \<rparr>)"
  proof (rule exchange_answered [OF assms(2)])
    show "control_reply (turn ?n) ?m (se_control st) =
        (Some (ResumeDiscoveryPage ?page), (se_control st)\<lparr> ct_store := s' \<rparr>)"
      using assms(1,3) by (simp add: session_steady_def)
    show "classify_inbound api (ResumeDiscoveryPage ?page) = InboundResponse (draw ?n) (PayloadResumePage ?page)"
      using assms(1) by (simp add: classify_inbound_def session_steady_def message_constructors envelope_is_valid_def
          envelope_new_def is_v1_def)
  qed (simp_all add: message_new_def envelope_new_def payload_matches_def)
  then show ?thesis
    using assms(2) by (simp add: continue_discovery_def send_scoped_request_def session_link_def dispatcher_ready_def)
qed

lemma session_steadyD:
  assumes "session_steady api turn wa page_size"
  shows "0 < page_size" "tc_authority (turn n) = wa" "tc_page_size (turn n) = page_size"
    "is_uuid_v4 api (tc_message_id (turn n))" "cursor_of turn n = cursor_of turn m \<Longrightarrow> n = m"
  using assms by (auto simp: session_steady_def dest: injD)

abbreviation store_of :: "session \<Rightarrow> operation_store" where
  "store_of st \<equiv> ct_store (se_control st)"

text \<open>The loop from a cursor after \<open>k\<close> chunks on: it ends with the whole set and leaves nothing behind.\<close>

lemma pages_collected:
  assumes "session_steady api turn wa page_size" "held_ok held"
    and "dispatcher_ready draw (se_dispatcher st)" "is_current wa (os_generation (store_of st))"
    and "cursor_at (store_of st) cursor tid pid i held k"
    and "\<forall>n \<ge> se_turn st. fmlookup (os_bindings (store_of st)) (cursor_of turn n) = None"
  shows "\<exists>turns. collect_pages (session_link api turn clock draw g) g (map held_chunk_wire (take k held)) (Some cursor) st =
    Some (Ok (map held_chunk_wire held),
      \<lparr> se_control = (se_control st)\<lparr> ct_store := (store_of st)\<lparr>
          os_bindings := map_remove cursor (os_bindings (store_of st)),
          os_resume_snapshots := map_remove i (os_resume_snapshots (store_of st)) \<rparr> \<rparr>,
        se_dispatcher = se_dispatcher st, se_turn = turns \<rparr>)"
  using assms(3-)
proof (induction "length held - k" arbitrary: k st cursor rule: less_induct)
  case less
  let ?n = "se_turn st"
  let ?cont = "message_new (draw ?n) \<lparr> rc_resume_cursor = cursor \<rparr>"
  have at: "cursor_at (store_of st) (rc_resume_cursor (ms_body ?cont)) tid pid i held k"
    using less.prems(3) by (simp add: message_new_def)
  have cont: "rc_resume_cursor (ms_body ?cont) = cursor" "ev_message_id (ms_envelope ?cont) = draw ?n"
    by (simp_all add: message_new_def envelope_new_def)
  have k: "0 < k" "k < length held" using less.prems(3) by (simp_all add: cursor_at_def)
  show ?case
  proof (cases "k + page_size < length held")
    case False
    then have "handle_resume_discovery_continue wa (tc_ids (turn ?n)) (tc_message_id (turn ?n)) page_size ?cont (store_of st) =
        (continuation_page (tc_message_id (turn ?n)) (draw ?n) (map held_chunk_wire (drop k held)) None,
         (store_of st)\<lparr> os_bindings := map_remove cursor (os_bindings (store_of st)),
           os_resume_snapshots := map_remove i (os_resume_snapshots (store_of st)) \<rparr>)"
      using continue_last [OF at less.prems(2) assms(2)] cont by simp
    note step = continuation_answered [OF assms(1) less.prems(1) this, of clock g]
    have "map held_chunk_wire (take k held) @ map held_chunk_wire (drop k held) = map held_chunk_wire held"
      by (simp flip: map_append)
    then show ?thesis
      using step by (subst collect_pages.simps) (simp add: collect_pages.simps [where cursor = None])
  next
    case True
    let ?c = "cursor_of turn ?n"
    have fresh: "fmlookup (os_bindings (store_of st)) ?c = None" using less.prems(4) by simp
    moreover have "?c \<noteq> rc_resume_cursor (ms_body ?cont)" using at fresh by (auto simp: cursor_at_def)
    ultimately obtain s' where page: "handle_resume_discovery_continue wa (tc_ids (turn ?n)) (tc_message_id (turn ?n))
          page_size ?cont (store_of st) =
        (continuation_page (tc_message_id (turn ?n)) (draw ?n)
           (map held_chunk_wire (drop k (take (k + page_size) held))) (Some ?c), s')"
      and at': "cursor_at s' ?c tid pid i held (k + page_size)"
      and binds: "\<exists>b. s' = (store_of st)\<lparr> os_bindings := map_insert ?c b (map_remove cursor (os_bindings (store_of st))) \<rparr>"
      using continue_more [OF at less.prems(2) assms(2) True session_steadyD(1) [OF assms(1)] refl, of "tc_ids (turn ?n)"]
        cont by metis
    from binds obtain b
      where s': "s' = (store_of st)\<lparr> os_bindings := map_insert ?c b (map_remove cursor (os_bindings (store_of st))) \<rparr>" ..
    let ?st' = "\<lparr> se_control = (se_control st)\<lparr> ct_store := s' \<rparr>, se_dispatcher = se_dispatcher st, se_turn = Suc ?n \<rparr>"
    note step = continuation_answered [OF assms(1) less.prems(1) page, of clock g]
    have later: "\<forall>n \<ge> se_turn ?st'. fmlookup (os_bindings (store_of ?st')) (cursor_of turn n) = None"
      using s' less.prems(4) session_steadyD(5) [OF assms(1), of _ ?n] by fastforce
    have "length held - (k + page_size) < length held - k" using k session_steadyD(1) [OF assms(1)] by simp
    from less.hyps [OF this, of ?st' ?c] less.prems(1,2) at' s' later
    obtain turns where rest: "collect_pages (session_link api turn clock draw g) g
        (map held_chunk_wire (take (k + page_size) held)) (Some ?c) ?st' =
      Some (Ok (map held_chunk_wire held), \<lparr> se_control = (se_control st)\<lparr> ct_store := s'\<lparr>
          os_bindings := map_remove ?c (os_bindings s'), os_resume_snapshots := map_remove i (os_resume_snapshots s') \<rparr> \<rparr>,
        se_dispatcher = se_dispatcher st, se_turn = turns \<rparr>)"
      by auto
    have slices: "map held_chunk_wire (take k held) @ map held_chunk_wire (drop k (take (k + page_size) held)) =
        map held_chunk_wire (take (k + page_size) held)"
      by (metis append_take_drop_id map_append min.absorb1 le_add1 take_take)
    have "map_remove ?c (os_bindings s') = map_remove cursor (os_bindings (store_of st))"
      using s' fresh insert_remove_same [of "map_remove cursor (os_bindings (store_of st))" ?c] by simp
    then show ?thesis
      using step rest slices s' by (subst collect_pages.simps) simp
  qed
qed

lemma query_answered:
  assumes "session_steady api turn wa page_size" "dispatcher_ready draw (se_dispatcher st)"
    and "authorize_resume_discovery (tc_env (turn (se_turn st))) (tc_capabilities (turn (se_turn st)))
        (tc_now (turn (se_turn st))) (tc_loaded (turn (se_turn st))) (ct_replay (se_control st))
        (resume_query_input (message_new (draw (se_turn st)) input)) = (replay', Ok (ResumeApproved snapshot))"
    and "answer_resume_query wa (tc_ids (turn (se_turn st))) (tc_draw (turn (se_turn st)))
        (tc_message_id (turn (se_turn st))) page_size (message_new (draw (se_turn st)) input) snapshot (store_of st) = (page, s')"
  shows "send_request (session_link api turn clock draw g)
      (ResumeDiscoveryQuery (message_new (draw (se_turn st)) input)) ExpectResumePage st =
    (Ok (g, PayloadResumePage page),
     \<lparr> se_control = (se_control st)\<lparr> ct_replay := replay', ct_store := s' \<rparr>, se_dispatcher = se_dispatcher st,
       se_turn = Suc (se_turn st) \<rparr>)"
proof -
  let ?n = "se_turn st"
  let ?m = "ResumeDiscoveryQuery (message_new (draw ?n) input)"
  note target = page_replies(1) [OF assms(4)]
  have "session_exchange api turn clock ?m ExpectResumePage st = (Ok (PayloadResumePage page),
      \<lparr> se_control = (se_control st)\<lparr> ct_replay := replay', ct_store := s' \<rparr>, se_dispatcher = se_dispatcher st,
        se_turn = Suc ?n \<rparr>)"
  proof (rule exchange_answered [OF assms(2)])
    show "control_reply (turn ?n) ?m (se_control st) =
        (Some (ResumeDiscoveryPage page), (se_control st)\<lparr> ct_replay := replay', ct_store := s' \<rparr>)"
      using assms(3,4) session_steadyD(2,3) [OF assms(1)] by (simp add: handle_resume_discovery_query_def)
    show "classify_inbound api (ResumeDiscoveryPage page) = InboundResponse (draw ?n) (PayloadResumePage page)"
      using target session_steadyD(4) [OF assms(1)]
      by (simp add: classify_inbound_def envelope_is_valid_def envelope_new_def is_v1_def message_new_def)
  qed (simp_all add: message_new_def envelope_new_def payload_matches_def)
  then show ?thesis
    using assms(2) by (simp add: send_request_def session_link_def dispatcher_ready_def)
qed

definition aggregate_of :: "resume_discovery_query_body \<Rightarrow> resume_snapshot_facts \<Rightarrow> resume_aggregate" where
  "aggregate_of input snapshot =
     \<lparr> ra_transfer_id = dq_transfer_id input, ra_sealed = rs_sealed snapshot,
       ra_digest_algorithm = to_wire_digest_algorithm (rs_digest_algorithm snapshot),
       ra_chunk_size = rs_chunk_size snapshot, ra_expected_chunk_count = rs_expected_chunk_count snapshot,
       ra_held_chunks = map (\<lambda>h. \<lparr> hc_chunk_index = rh_chunk_index h, hc_digest = rh_digest_wire h \<rparr>) (rs_held snapshot) \<rparr>"

lemma wire_of_entries:
  "map held_chunk_wire (held_entries hs) = map (\<lambda>h. \<lparr> hc_chunk_index = rh_chunk_index h, hc_digest = rh_digest_wire h \<rparr>) hs"
  by (simp add: held_entries_def held_chunk_wire_def)

lemma discovery_complete:
  assumes "session_steady api turn wa page_size" "dispatcher_ready draw (se_dispatcher st)"
    and "is_current wa (os_generation (store_of st))"
    and "authorize_resume_discovery (tc_env (turn (se_turn st))) (tc_capabilities (turn (se_turn st)))
        (tc_now (turn (se_turn st))) (tc_loaded (turn (se_turn st))) (ct_replay (se_control st))
        (resume_query_input (message_new (draw (se_turn st)) input)) = (replay', Ok (ResumeApproved snapshot))"
    and "(rs_expected_chunk_count snapshot \<noteq> None) = rs_sealed snapshot"
    and "map_len (os_bindings (store_of st)) < os_capacity (store_of st)"
    and "map_len (os_resume_snapshots (store_of st)) < os_resume_snapshot_capacity (store_of st)"
    and "\<forall>n. fmlookup (os_bindings (store_of st)) (cursor_of turn n) = None"
    and "fmlookup (os_resume_snapshots (store_of st)) (tc_draw (turn (se_turn st)) 0) = None"
  shows "\<exists>turns. discover_resume (session_link api turn clock draw g) input st =
    Some (Ok (ResumeDiscoveryApproved (aggregate_of input snapshot)),
      \<lparr> se_control = (se_control st)\<lparr> ct_replay := replay' \<rparr>, se_dispatcher = se_dispatcher st, se_turn = turns \<rparr>)"
proof -
  let ?n = "se_turn st" and ?s = "store_of st" and ?held = "held_entries (rs_held snapshot)"
  let ?link = "session_link api turn clock draw g" and ?q = "message_new (draw (se_turn st)) input"
  let ?st1 = "\<lambda>s'. \<lparr> se_control = (se_control st)\<lparr> ct_replay := replay', ct_store := s' \<rparr>,
    se_dispatcher = se_dispatcher st, se_turn = Suc ?n \<rparr>"
  have q: "ms_body ?q = input" "cl_message_id ?link st = draw ?n" by (simp_all add: message_new_def session_link_def)
  note held = resume_held_ok [OF assms(4)]
  note query = query_answered [OF assms(1,2,4), of _ _ clock g]
  show ?thesis
  proof (cases "length (rs_held snapshot) \<le> page_size")
    case True
    note page = answer_single [OF True, of wa "tc_ids (turn ?n)" "tc_draw (turn ?n)" "tc_message_id (turn ?n)" ?q ?s]
    show ?thesis
      using query [OF page] assms(5)
      by (simp add: discover_resume_def q aggregate_of_def wire_of_entries collect_pages.simps [where cursor = None])
  next
    case False
    then have more: "page_size < length (rs_held snapshot)" by simp
    obtain s' stored b where page: "answer_resume_query wa (tc_ids (turn ?n)) (tc_draw (turn ?n)) (tc_message_id (turn ?n))
          page_size ?q snapshot ?s =
        (first_page (tc_message_id (turn ?n)) (ev_message_id (ms_envelope ?q)) (dq_transfer_id (ms_body ?q))
           (rs_sealed snapshot) (to_wire_digest_algorithm (rs_digest_algorithm snapshot)) (rs_chunk_size snapshot)
           (rs_expected_chunk_count snapshot) (map held_chunk_wire (take page_size ?held)) (Some (cursor_of turn ?n)), s')"
      and at: "cursor_at s' (cursor_of turn ?n) (TransferId (dq_transfer_id (ms_body ?q))) (dq_proof_id (ms_body ?q))
           (tc_draw (turn ?n) 0) ?held page_size"
      and s': "s' = ?s\<lparr> os_bindings := map_insert (cursor_of turn ?n) b (os_bindings ?s),
           os_resume_snapshots := map_insert (tc_draw (turn ?n) 0) stored (os_resume_snapshots ?s) \<rparr>"
      using answer_more [where ids = "tc_ids (turn ?n)" and draw = "tc_draw (turn ?n)" and c = "cursor_of turn ?n"
          and i = "tc_draw (turn ?n) 0", OF more session_steadyD(1) [OF assms(1)] assms(3,6,7) refl _ refl assms(9)]
        assms(8) by blast
    have later: "\<forall>n \<ge> se_turn (?st1 s'). fmlookup (os_bindings (store_of (?st1 s'))) (cursor_of turn n) = None"
      using s' assms(8) session_steadyD(5) [OF assms(1), of _ ?n] by fastforce
    have pre: "dispatcher_ready draw (se_dispatcher (?st1 s'))" "is_current wa (os_generation (store_of (?st1 s')))"
      "cursor_at (store_of (?st1 s')) (cursor_of turn ?n) (TransferId (dq_transfer_id (ms_body ?q)))
         (dq_proof_id (ms_body ?q)) (tc_draw (turn ?n) 0) ?held page_size"
      using assms(2,3) at s' by simp_all
    from pages_collected [OF assms(1) held pre later, of clock g]
    obtain turns where "collect_pages ?link g (map held_chunk_wire (take page_size ?held)) (Some (cursor_of turn ?n)) (?st1 s') =
        Some (Ok (map held_chunk_wire ?held), \<lparr> se_control = (se_control (?st1 s'))\<lparr> ct_store := s'\<lparr>
            os_bindings := map_remove (cursor_of turn ?n) (os_bindings s'),
            os_resume_snapshots := map_remove (tc_draw (turn ?n) 0) (os_resume_snapshots s') \<rparr> \<rparr>,
          se_dispatcher = se_dispatcher st, se_turn = turns \<rparr>)"
      by auto
    moreover have "s'\<lparr> os_bindings := map_remove (cursor_of turn ?n) (os_bindings s'),
        os_resume_snapshots := map_remove (tc_draw (turn ?n) 0) (os_resume_snapshots s') \<rparr> = ?s"
      using assms(8,9) s' by (simp add: insert_remove_same)
    ultimately show ?thesis
      using query [OF page] assms(5)
      by (simp add: discover_resume_def q aggregate_of_def wire_of_entries)
  qed
qed

end
