(* ===== verification/Worker_Correct.thy ===== *)
theory Worker_Correct
  imports Authorization_Correct Worker_Session
begin

text \<open>
  The properties of the Worker connection, over \<open>Worker_Messages\<close>, \<open>Worker_Operations\<close>,
  \<open>Worker_Control\<close>, \<open>Worker_Client\<close> and \<open>Worker_Session\<close>: complete resume discoveries, single-use
  handles that die with their generation, one answer for every request, and messages that arrive as
  they were sent.
\<close>

section \<open>Resume discovery\<close>

text \<open>
  C12. On a live connection of the current generation, with room for one more handle and one more
  snapshot and fresh identifiers, a resume discovery the server approves always ends, whatever the
  page size and the number of held chunks: the Worker gathers over all pages exactly the held chunks
  of the approved snapshot, in its order, together with the manifest facts, and afterwards the
  server's transient store and the Worker's table of open requests are what they were before.
\<close>

theorem resume_discovery_gathers_held_set:
  assumes "session_steady api turn wa page_size" "dispatcher_ready draw (se_dispatcher st)"
    and "is_current wa (os_generation (ct_store (se_control st)))"
    and "authorize_resume_discovery (tc_env (turn (se_turn st))) (tc_capabilities (turn (se_turn st)))
        (tc_now (turn (se_turn st))) (tc_loaded (turn (se_turn st))) (ct_replay (se_control st))
        (resume_query_input (message_new (draw (se_turn st)) input)) = (replay', Ok (ResumeApproved snapshot))"
    and "(rs_expected_chunk_count snapshot \<noteq> None) = rs_sealed snapshot"
    and "map_len (os_bindings (ct_store (se_control st))) < os_capacity (ct_store (se_control st))"
    and "map_len (os_resume_snapshots (ct_store (se_control st))) < os_resume_snapshot_capacity (ct_store (se_control st))"
    and "\<forall>n. fmlookup (os_bindings (ct_store (se_control st))) (tc_ids (turn n) HandleResumeCursor 0) = None"
    and "fmlookup (os_resume_snapshots (ct_store (se_control st))) (tc_draw (turn (se_turn st)) 0) = None"
  shows "\<exists>turns. discover_resume (session_link api turn clock draw g) input st =
    Some (Ok (ResumeDiscoveryApproved
        \<lparr> ra_transfer_id = dq_transfer_id input, ra_sealed = rs_sealed snapshot,
          ra_digest_algorithm = to_wire_digest_algorithm (rs_digest_algorithm snapshot),
          ra_chunk_size = rs_chunk_size snapshot, ra_expected_chunk_count = rs_expected_chunk_count snapshot,
          ra_held_chunks = map (\<lambda>h. \<lparr> hc_chunk_index = rh_chunk_index h, hc_digest = rh_digest_wire h \<rparr>)
            (rs_held snapshot) \<rparr>),
      \<lparr> se_control = (se_control st)\<lparr> ct_replay := replay' \<rparr>, se_dispatcher = se_dispatcher st, se_turn = turns \<rparr>)"
  using discovery_complete [OF assms] unfolding aggregate_of_def .

text \<open>Three held chunks, read in pages of two.\<close>

definition three_chunks :: authorization_durable_state where
  "three_chunks = probe_state\<lparr>
     ad_manifest := (ad_manifest probe_state)\<lparr> cm_chunks := fmap_of_list (map (\<lambda>i. (i,
       \<lparr> ec_index = ChunkIndex i, ec_size = 4, ec_digest = Digest (replicate 32 0) \<rparr>)) [0, 1, 2]) \<rparr>,
     ad_held := {| ChunkIndex 0, ChunkIndex 1, ChunkIndex 2 |} \<rparr>"

definition any_uuid :: uuid_api where
  "any_uuid = \<lparr> uu_version_num = (\<lambda>_. 4), uu_is_rfc4122 = (\<lambda>_. True) \<rparr>"

definition sample_authority :: worker_authority where
  "sample_authority = snd (begin_generation authority_new 5)"

definition sample_turn :: "nat \<Rightarrow> turn_context" where
  "sample_turn n = \<lparr> tc_authority = sample_authority, tc_ids = (\<lambda>_ _. replicate n CHR ''c''), tc_draw = (\<lambda>_. 9),
     tc_env = probe_env, tc_capabilities = fst probe_issue, tc_now = from_timestamp_millis 1000,
     tc_loaded = Ok (Some three_chunks), tc_endpoints = (\<lambda>_. None), tc_message_id = 6, tc_page_size = 2,
     tc_quote = id, tc_send_ok = True \<rparr>"

definition sample_session :: session where
  "sample_session = \<lparr> se_control = \<lparr> ct_replay = replay_cache_with_capacity 4, ct_db = resume_db,
       ct_store = operation_store_new 1 8 \<rparr>, se_dispatcher = dispatcher_new 4 1000, se_turn = 0 \<rparr>"

definition sample_input :: resume_discovery_query_body where
  "sample_input = \<lparr> dq_token = wq_token probe_query, dq_transfer_id = 301, dq_proof_id = wq_proof_id probe_query,
     dq_issued_at = 1000, dq_signature = wq_signature probe_query \<rparr>"

lemma sample_query_input: "resume_query_input (message_new i sample_input) = probe_query"
  by (simp add: resume_query_input_def sample_input_def message_new_def probe_query_def)

lemma three_chunks_approved:
  "authorize_request probe_env (fst probe_issue) (from_timestamp_millis 1000) (Ok (Some three_chunks))
     (replay_cache_with_capacity 4) probe_query = (probe_replay, Ok (Some three_chunks))"
proof -
  have "binding_is_backed b now three_chunks = binding_is_backed b now probe_state" for b now
    by (simp add: three_chunks_def binding_is_backed_def split: option.split)
  moreover have "query_is_eligible probe_query three_chunks = query_is_eligible probe_query probe_state"
    by (simp add: three_chunks_def query_is_eligible_def probe_query_def)
  ultimately show ?thesis using probe_approved unfolding authorize_request_iff by simp
qed

lemma three_chunks_snapshot:
  "\<exists>snapshot. authorize_resume_discovery probe_env (fst probe_issue) (from_timestamp_millis 1000) (Ok (Some three_chunks))
     (replay_cache_with_capacity 4) probe_query = (probe_replay, Ok (ResumeApproved snapshot)) \<and>
     map rh_chunk_index (rs_held snapshot) = [0, 1, 2] \<and> \<not> rs_sealed snapshot \<and> rs_expected_chunk_count snapshot = None"
proof -
  have "sorted_list_of_fset (index_value |`| ad_held three_chunks) = [0, 1, 2]"
    by (simp add: three_chunks_def) code_simp
  moreover have "\<forall>i \<in> set [0, 1, 2]. manifest_expected_chunk (ad_manifest three_chunks) (ChunkIndex i) \<noteq> None"
    by (simp add: three_chunks_def manifest_expected_chunk_def)
  moreover have "\<not> cm_sealed (ad_manifest three_chunks)"
    by (simp add: three_chunks_def probe_state_def Let_def create_transfer_context_def manifest_new_def)
  ultimately show ?thesis
    using three_chunks_approved collect_held_ok [of "[0, 1, 2]" "ad_manifest three_chunks" "en_b64 probe_env"]
    by (simp add: authorize_resume_discovery_def)
qed

theorem resume_discovery_gathers_held_set_witness:
  "\<exists>aggregate st'. discover_resume (session_link any_uuid sample_turn (\<lambda>_. 0) of_nat 1) sample_input sample_session =
     Some (Ok (ResumeDiscoveryApproved aggregate), st') \<and>
     map hc_chunk_index (ra_held_chunks aggregate) = [0, 1, 2] \<and>
     ct_store (se_control st') = ct_store (se_control sample_session)"
proof -
  obtain snapshot where s: "authorize_resume_discovery probe_env (fst probe_issue) (from_timestamp_millis 1000)
      (Ok (Some three_chunks)) (replay_cache_with_capacity 4) probe_query = (probe_replay, Ok (ResumeApproved snapshot))"
    "map rh_chunk_index (rs_held snapshot) = [0, 1, 2]" "\<not> rs_sealed snapshot" "rs_expected_chunk_count snapshot = None"
    using three_chunks_snapshot by (elim exE conjE) (rule that)
  have "inj (\<lambda>n. replicate n CHR ''c'')" by (rule injI) (metis length_replicate)
  then have "session_steady any_uuid sample_turn sample_authority 2"
    by (simp add: session_steady_def sample_turn_def is_uuid_v4_def any_uuid_def)
  moreover have "dispatcher_ready of_nat (se_dispatcher sample_session)"
    by (simp add: dispatcher_ready_def sample_session_def dispatcher_new_def)
  moreover have "is_current sample_authority (os_generation (ct_store (se_control sample_session)))"
    by (simp add: sample_authority_def begin_generation_def authority_new_def authority_with_operations_capacity_def
        is_current_def sample_session_def operation_store_new_def Let_def)
  moreover have "authorize_resume_discovery (tc_env (sample_turn (se_turn sample_session)))
      (tc_capabilities (sample_turn (se_turn sample_session))) (tc_now (sample_turn (se_turn sample_session)))
      (tc_loaded (sample_turn (se_turn sample_session))) (ct_replay (se_control sample_session))
      (resume_query_input (message_new (of_nat (se_turn sample_session)) sample_input)) =
      (probe_replay, Ok (ResumeApproved snapshot))"
    using s(1) by (simp add: sample_turn_def sample_session_def sample_query_input)
  moreover have "map_len (os_bindings (ct_store (se_control sample_session))) < os_capacity (ct_store (se_control sample_session))"
      "map_len (os_resume_snapshots (ct_store (se_control sample_session))) <
        os_resume_snapshot_capacity (ct_store (se_control sample_session))"
      "\<forall>n. fmlookup (os_bindings (ct_store (se_control sample_session))) (tc_ids (sample_turn n) HandleResumeCursor 0) = None"
      "fmlookup (os_resume_snapshots (ct_store (se_control sample_session))) (tc_draw (sample_turn (se_turn sample_session)) 0) = None"
    by (simp_all add: sample_session_def operation_store_new_def DEFAULT_RESUME_SNAPSHOT_CAPACITY_def)
  moreover have "(rs_expected_chunk_count snapshot \<noteq> None) = rs_sealed snapshot" using s(3,4) by simp
  ultimately have "\<exists>turns. discover_resume (session_link any_uuid sample_turn (\<lambda>_. 0) of_nat 1) sample_input sample_session =
      Some (Ok (ResumeDiscoveryApproved
        \<lparr> ra_transfer_id = dq_transfer_id sample_input, ra_sealed = rs_sealed snapshot,
          ra_digest_algorithm = to_wire_digest_algorithm (rs_digest_algorithm snapshot),
          ra_chunk_size = rs_chunk_size snapshot, ra_expected_chunk_count = rs_expected_chunk_count snapshot,
          ra_held_chunks = map (\<lambda>h. \<lparr> hc_chunk_index = rh_chunk_index h, hc_digest = rh_digest_wire h \<rparr>)
            (rs_held snapshot) \<rparr>),
      \<lparr> se_control = (se_control sample_session)\<lparr> ct_replay := probe_replay \<rparr>,
        se_dispatcher = se_dispatcher sample_session, se_turn = turns \<rparr>)"
    by (intro resume_discovery_gathers_held_set)
  then show ?thesis using s(2) by (auto simp: comp_def)
qed

section \<open>Handles\<close>




section \<open>Requests\<close>

lemma count_list_distinct: "distinct xs \<Longrightarrow> count_list xs x = (if x \<in> set xs then 1 else 0)"
  by (induction xs) auto

text \<open>
  C15. Whatever the server sends and whenever requests expire or the connection ends, a Worker request
  is answered at most once, and once the connection has ended every request has been answered
  exactly once; an answer that is not an error names the request it is given to and is of the kind
  that request expects; the table of open requests stays within its capacity.
\<close>

theorem requests_answered_exactly_once:
  assumes "dispatch_run api ops (dispatcher_new capacity timeout) = (dels, d)" and "distinct (requests_of ops)"
  shows "(\<forall>i. deliveries_for i dels \<le> (if i \<in> set (requests_of ops) then 1 else 0)) \<and>
    (\<not> dp_open d \<longrightarrow> (\<forall>i. deliveries_for i dels = (if i \<in> set (requests_of ops) then 1 else 0))) \<and>
    (\<forall>i p. (i, Ok p) \<in> set dels \<longrightarrow> payload_target p = i \<and>
       (\<exists>now send_ok expected. DispatchRequest now send_ok i expected \<in> set ops \<and> payload_matches p expected)) \<and>
    map_len (dp_pending d) \<le> dp_capacity d"
proof -
  have new: "dispatcher_ok (dispatcher_new capacity timeout)" "fmlookup (dp_pending (dispatcher_new capacity timeout)) i = None"
      "waiting (dispatcher_new capacity timeout) i = 0" for i
    by (simp_all add: dispatcher_ok_def dispatcher_new_def waiting_def)
  note ok = dispatch_run_ok [OF assms(1) new(1)]
  have count: "count_list (requests_of ops) i = (if i \<in> set (requests_of ops) then 1 else 0)" for i
    by (rule count_list_distinct [OF assms(2)])
  have answers: "deliveries_for i dels + waiting d i = (if i \<in> set (requests_of ops) then 1 else 0)" for i
    using dispatch_run_answers [OF assms, of i] new(2,3) count by simp
  have closed: "waiting d i = 0" if "\<not> dp_open d" for i
    using ok that by (simp add: dispatcher_ok_def waiting_def)
  have "\<forall>i p. (i, Ok p) \<in> set dels \<longrightarrow> payload_target p = i \<and>
       (\<exists>now send_ok expected. DispatchRequest now send_ok i expected \<in> set ops \<and> payload_matches p expected)"
    using dispatch_run_success [OF assms(1)] by (simp add: new(2))
  moreover have "map_len (dp_pending d) \<le> dp_capacity d" using ok by (simp add: dispatcher_ok_def)
  moreover have "deliveries_for i dels \<le> (if i \<in> set (requests_of ops) then 1 else 0)" for i
    using answers [of i] by linarith
  moreover have "deliveries_for i dels = (if i \<in> set (requests_of ops) then 1 else 0)" if "\<not> dp_open d" for i
    using answers [of i] closed [OF that, of i] by simp
  ultimately show ?thesis by blast
qed

definition sample_ops :: "dispatch_op list" where
  "sample_ops = [DispatchRequest 0 True 1 ExpectAuthorization, DispatchRequest 0 True 2 ExpectResumePage,
     DispatchInbound (ResumeDiscoveryPage (page_denied 3 2)), DispatchDisconnect]"

theorem requests_answered_exactly_once_witness:
  "\<exists>dels d. dispatch_run any_uuid sample_ops (dispatcher_new 4 1000) = (dels, d) \<and> \<not> dp_open d \<and>
     deliveries_for 1 dels = 1 \<and> deliveries_for 2 dels = 1 \<and> (1, Err ConnectionLost) \<in> set dels \<and>
     (2, Ok (PayloadResumePage (page_denied 3 2))) \<in> set dels"
proof -
  obtain dels d where run: "dispatch_run any_uuid sample_ops (dispatcher_new 4 1000) = (dels, d)" by (meson surj_pair)
  have ids: "requests_of sample_ops = [1, 2]" by (simp add: sample_ops_def)
  have classified: "classify_inbound any_uuid (ResumeDiscoveryPage (page_denied 3 2)) =
      InboundResponse 2 (PayloadResumePage (page_denied 3 2))"
    by (simp add: classify_inbound_def page_denied_def message_new_def envelope_new_def envelope_is_valid_def is_v1_def
        is_uuid_v4_def any_uuid_def)
  have dom: "sorted_list_of_fset (fmdom (map_remove 2 (map_insert 2 e (map_insert 1 e' fmempty)))) = [1 :: uuid]" for e e' :: pending_entry
  proof -
    have "map_remove 2 (map_insert 2 e (map_insert 1 e' fmempty)) = map_insert (1 :: uuid) e' fmempty"
      by (rule insert_remove_same) simp
    then show ?thesis by (simp add: map_insert_def sorted_list_of_fset.rep_eq)
  qed
  have facts: "dels = [(2, Ok (PayloadResumePage (page_denied 3 2))), (1, Err ConnectionLost)]" "\<not> dp_open d"
    using run classified dom
    by (auto simp: sample_ops_def dispatch_step_def dispatch_request_def dispatch_inbound_def dispatcher_new_def
        payload_matches_def close_dispatcher_def Let_def)
  from requests_answered_exactly_once [OF run] ids facts(2)
  have "deliveries_for 1 dels = 1 \<and> deliveries_for 2 dels = 1" by simp
  then show ?thesis using run facts by auto
qed

section \<open>Messages\<close>

fun send_all :: "'v json_api \<Rightarrow> worker_protocol_message list \<Rightarrow> send_error + byte list" where
  "send_all api [] = Ok []"
| "send_all api (m # ms) =
     (case send_message api True m of
        Inl e \<Rightarrow> Err e
      | Inr bytes \<Rightarrow> (case send_all api ms of Inl e \<Rightarrow> Err e | Inr later \<Rightarrow> Ok (bytes @ later)))"

fun receive_many :: "'v json_api \<Rightarrow> nat \<Rightarrow> byte_stream \<Rightarrow> receive_error + worker_protocol_message list \<times> byte_stream" where
  "receive_many api 0 s = Ok ([], s)"
| "receive_many api (Suc n) s =
     (case receive_message api s of
        Inl e \<Rightarrow> Err e
      | Inr (m, s1) \<Rightarrow> (case receive_many api n s1 of Inl e \<Rightarrow> Err e | Inr (ms, s2) \<Rightarrow> Ok (m # ms, s2)))"

text \<open>
  C25. Any sequence of messages with legal shapes that one end of a Worker connection sends is received
  at the other end message by message, unchanged and in order, with nothing of what follows
  consumed; and nothing is ever received whose body does not have the shape its outcome calls for.
\<close>

theorem worker_messages_arrive_as_sent:
  assumes "json_laws api" and "send_all api ms = Ok bytes" and "\<forall>m \<in> set ms. message_validate_shape m = Ok ()"
  shows "receive_many api (length ms) \<lparr> bs_pending = bytes @ rest, bs_end = e \<rparr> =
      Ok (ms, \<lparr> bs_pending = rest, bs_end = e \<rparr>) \<and>
    (\<forall>s m s'. receive_message api s = Ok (m, s') \<longrightarrow> message_validate_shape m = Ok ())"
proof -
  have "receive_many api (length ms) \<lparr> bs_pending = bytes @ rest, bs_end = e \<rparr> =
      Ok (ms, \<lparr> bs_pending = rest, bs_end = e \<rparr>)"
    using assms(2,3)
  proof (induction ms arbitrary: bytes)
    case (Cons m ms)
    then obtain b later where b: "send_message api True m = Ok b" "send_all api ms = Ok later" "bytes = b @ later"
      by (auto split: sum.splits)
    then show ?case
      using Cons.IH [OF b(2)] Cons.prems(2) message_received_as_sent [OF assms(1) b(1), of "later @ rest" e] by simp
  qed simp
  then show ?thesis using received_shape by blast
qed

text \<open>A serializer that knows two messages.\<close>

definition two_message_json :: "worker_protocol_message json_api" where
  "two_message_json =
     (let a = WorkerHello (worker_hello_new 1 2); b = ResumeDiscoveryPage (page_denied 3 4) in
      \<lparr> sj_from_str = (\<lambda>t. if t = [65] then Some a else if t = [66] then Some b else None),
        sj_type = (\<lambda>v. Some (message_type v)), sj_from_value = Some,
        sj_to_string = (\<lambda>m. if m = a then Some [65] else if m = b then Some [66] else None) \<rparr>)"

theorem worker_messages_arrive_as_sent_witness:
  "\<exists>bytes. send_all two_message_json [ResumeDiscoveryPage (page_denied 3 4), WorkerHello (worker_hello_new 1 2)] = Ok bytes \<and>
     length bytes = 10 \<and>
     receive_many two_message_json 2 \<lparr> bs_pending = bytes @ [9], bs_end = StreamEof \<rparr> =
       Ok ([ResumeDiscoveryPage (page_denied 3 4), WorkerHello (worker_hello_new 1 2)],
           \<lparr> bs_pending = [9], bs_end = StreamEof \<rparr>)"
proof -
  let ?ms = "[ResumeDiscoveryPage (page_denied 3 4), WorkerHello (worker_hello_new 1 2)]"
  have laws: "json_laws two_message_json" by (auto simp: json_laws_def two_message_json_def Let_def)
  obtain bytes where bytes: "send_all two_message_json ?ms = Ok bytes" "length bytes = 10"
    by (simp add: two_message_json_def send_message_def write_frame_def MAX_FRAME_PAYLOAD_BYTES_def Let_def)
  have "\<forall>m \<in> set ?ms. message_validate_shape m = Ok ()" by (simp add: constructed_shapes(6) del: message_validate_shape.simps(3))
  from worker_messages_arrive_as_sent [OF laws bytes(1) this, of "[9]" StreamEof] bytes
  have "receive_many two_message_json (length ?ms) \<lparr> bs_pending = bytes @ [9], bs_end = StreamEof \<rparr> =
      Ok (?ms, \<lparr> bs_pending = [9], bs_end = StreamEof \<rparr>)" by blast
  then show ?thesis using bytes by (metis length_Cons list.size(3) Suc_1 One_nat_def)
qed

end
