(* ===== verification/Spec2Isabelle.thy ===== *)
theory Spec2Isabelle
  imports Enrollment_Correct Job_Correct Transfer_Correct Authorization_Correct Dispatch_Correct Worker_Correct
begin

text \<open>
  A verification library for the Bamep server, the program that enrolls Endpoints, runs Jobs on them
  through an Agent and captures their disks as Artifacts through a data-plane Worker.

  \<^bold>\<open>The parts and how they interact.\<close> An Endpoint boots, presents a one-time boot context or its own
  rotating credential, and is enrolled (\<open>src/crates/domain\<close>, \<open>src/crates/server/src/application/mod.rs\<close>,
  \<open>src/crates/server/src/adapters/postgres\<close>); evidence signed at the site may establish that the boot
  was trusted (\<open>src/crates/trusted-bootstrap\<close>). An operator creates a Job of ordered steps; a dispatch
  gate turns a step into an Attempt, which claims technical resources, is sent to the Agent and ends
  with the Agent's evidence, a cancellation or reconciliation. A capturing Attempt is bound to a
  Transfer: the Agent is given a capability, uploads chunks to the Worker with signed proofs, and
  seals the manifest. The Worker asks the server for every decision over a local connection
  (\<open>src/crates/worker-protocol\<close>, \<open>adapters/worker_control_plane.rs\<close>, \<open>src/crates/worker/src/ipc\<close>), and the
  server alone records held chunks and the verification of the whole Artifact, on which the success
  of the Attempt depends.

  \<^bold>\<open>Conventions.\<close> A struct is a record, an enum a datatype, a machine integer a word, an instant or
  duration an integer count of nanoseconds, a fallible result a sum with \<open>Err\<close> and \<open>Ok\<close>. A database
  transaction is one step on lists or finite maps of rows, and what is read before the transaction
  and may have changed since is an argument of it. A lock acquisition is one step. Clock readings,
  drawn identifiers and random bytes are arguments. Code of other packages is a parameter: base64,
  SHA-256, Ed25519, the JSON serializer, the version and variant of a UUID; what is relied on is a
  hypothesis (\<open>base64url\<close>, \<open>json_laws\<close>) and is discharged for a concrete instance in the witnesses. The
  base64 engine itself is also given as a definition, \<open>rfc4648_url\<close>, that satisfies its laws.

  \<^bold>\<open>Enrollment.\<close>
  \<^item> \<open>Base64Url\<close>, \<open>Trusted_Bootstrap\<close>: the engine, and \<open>boot_nonce.rs\<close>, \<open>assertion.rs\<close>, \<open>fingerprint.rs\<close>,
    \<open>site_key.rs\<close>, \<open>verify.rs\<close>. Wire values parse exactly if they are the print of a well-formed value;
    verification succeeds exactly for a transcript signed by an accepted key.
  \<^item> \<open>Presented_Credential\<close>, \<open>Credential_Chain\<close>: the wire credential and the chain of salted hashes. A
    retired credential never authenticates again, a lost answer to a rotation never locks out, a
    revoked chain rejects everything.
  \<^item> \<open>Endpoint_Model\<close>, \<open>Enrollment\<close>: the aggregate and the transitions of \<open>transitions.rs\<close> and
    \<open>boot_context.rs\<close>.
  \<^item> \<open>Enrollment_Store\<close>, \<open>Enrollment_Correct\<close>: the tables and services over runs. The tables stay
    consistent, a boot context is redeemed once, revocation survives a reboot, trusted bootstrap is
    established only by signed evidence for the current boot.

  \<^bold>\<open>Jobs.\<close>
  \<^item> \<open>Job_Model\<close>, \<open>Job_Evidence\<close>, \<open>Dispatch\<close>: the pure decisions of \<open>job.rs\<close>, \<open>attempt.rs\<close>,
    \<open>action_evidence.rs\<close>, \<open>cancellation.rs\<close>, \<open>reconciliation.rs\<close>, \<open>final_dispatch.rs\<close>,
    \<open>transfer_dispatch.rs\<close>.
  \<^item> \<open>Job_Store\<close>, \<open>Job_Inv\<close>, \<open>Job_Preserve\<close>, \<open>Job_History\<close>, \<open>Job_Correct\<close>: \<open>job_repository.rs\<close> as a machine.
    Its invariant (one active Job of an Endpoint, one active Attempt of a Job, states that fit) holds
    along conforming runs; terminal states are final; only an operator cancels; a dispatch has passed
    its gates; the cancellation loop, bounded by \<open>MAX_PASSES\<close> as in the code, returns.
  \<^item> \<open>Resource_Arbiter\<close>, \<open>Dispatch_Service\<close>, \<open>Dispatch_Correct\<close>: the arbiter, the registry of
    reservations and the services that acquire and release. Nothing is over-booked, and what is
    reserved is reserved for Attempts that are active.

  \<^bold>\<open>Transfers.\<close>
  \<^item> \<open>Transfer_Model\<close>, \<open>Transfer_Store\<close>: manifests, Artifacts, Transfers and the transactions of
    \<open>transfer_repository.rs\<close> and \<open>authorization_repository.rs\<close>.
  \<^item> \<open>Transfer_Refine\<close>, \<open>Transfer_Spec\<close>, \<open>Transfer_Rebind\<close>, \<open>Transfer_Machine\<close>, \<open>Transfer_Evidence\<close>,
    \<open>Transfer_Correct\<close>: the tables always load, implement an abstract map of Transfers, never lose what
    they recorded, verify an Artifact only on the sealed digest, and let an action result succeed
    only for a verified Artifact.
  \<^item> \<open>Transfer_Authorization\<close>, \<open>Replay_Cache\<close>, \<open>Capability_Store\<close>, \<open>Authorization_Service\<close>,
    \<open>Authorization_Correct\<close>: capabilities, signed proofs and the services that check them. A request is
    approved exactly if all conditions hold, a proof is accepted once until its deadline, the stores
    are bounded.

  \<^bold>\<open>The Worker connection.\<close>
  \<^item> \<open>Worker_Messages\<close>: \<open>envelope.rs\<close>, \<open>messages.rs\<close>, \<open>codec.rs\<close>, \<open>framing.rs\<close>. Constructors build legal
    shapes, frames are read as written.
  \<^item> \<open>Worker_Operations\<close>: \<open>worker_authority.rs\<close> and \<open>transient_worker_operations.rs\<close>, and the machine of
    all connections. The locale \<open>single_use\<close> states what a store of handles promises per step and
    draws the balance of a run from it.
  \<^item> \<open>Worker_Control\<close>, \<open>Worker_Client\<close>, \<open>Worker_Session\<close>: the handlers of the server, the correlation
    table and operations of the Worker, and both ends together.
  \<^item> \<open>Worker_Correct\<close>: a resume discovery ends with exactly the held set, handles are single-use and die
    with their generation, every request is answered exactly once, messages arrive as sent.

  \<^bold>\<open>Bounds and fuel.\<close> No definition carries fuel of its own. The page loop \<open>collect_pages\<close> is a partial
  function and its end is proved. Bounds are those of the code: \<open>MAX_PASSES\<close>, \<open>MINT_ATTEMPTS\<close>,
  \<open>MAX_FRAME_PAYLOAD_BYTES\<close>, the capacities of the stores. Statements about generations assume that
  the 64-bit counter has not wrapped.

  \<^bold>\<open>Not modelled.\<close> Input and output and what depends on the operating system: sockets, TLS, HTTP and
  WebSocket transport, the file system of the Worker's chunk storage, configuration files, process
  supervision and start-up. The Agent's session and presence tables and the inventory repository,
  which no modelled decision reads. Serialized forms that \<open>serde\<close> derives, and the redaction of debug
  output. The simulated Agent, the virtual environment, benchmarks, laboratory probes, scripts and
  the web console, which the server does not rely on. Isolation of concurrent transactions below the
  row locks the code takes is taken from PostgreSQL.
\<close>

end
